(* ===== verification/Prelude.thy ===== *)
theory Prelude
  imports Complex_Main
begin

text \<open>
  Shared vocabulary of the CONE-Align development: real vectors and row-major
  matrices as lists (numpy's \<open>ndarray\<close> with one list per row), the Python
  exceptions the program can raise as a datatype, the error-propagating bind
  used to thread them, and the generic facts about \<open>sort_key\<close> behind
  every \<open>argsort\<close> of the program: its last element is an element of the
  input carrying the largest key. Which of several equal largest keys comes
  last is not used by any property, since numpy leaves it open.
\<close>

type_synonym vec = "real list"
type_synonym mat = "real list list"

datatype py_error =
    IndexError
  | KeyError
  | ValueError
  | ZeroDivisionError
  | UnboundLocalError
  | NetworkXError

named_theorems shape_simps "shape facts of the program's matrices"

definition bind_err :: "py_error + 'a \<Rightarrow> ('a \<Rightarrow> py_error + 'b) \<Rightarrow> py_error + 'b" where
  "bind_err r f = (case r of Inl e \<Rightarrow> Inl e | Inr x \<Rightarrow> f x)"

definition wf_mat :: "nat \<Rightarrow> nat \<Rightarrow> mat \<Rightarrow> bool" where
  "wf_mat r c A \<longleftrightarrow> length A = r \<and> (\<forall>row \<in> set A. length row = c)"

lemma bind_err_Inl [simp]: "bind_err (Inl e) f = Inl e"
  by (simp add: bind_err_def)

lemma bind_err_Inr [simp]: "bind_err (Inr x) f = f x"
  by (simp add: bind_err_def)

lemma bind_err_assoc: "bind_err (bind_err r f) g = bind_err r (\<lambda>x. bind_err (f x) g)"
  by (cases r) auto

lemma bind_err_eq_Inr:
  "bind_err r f = Inr y \<longleftrightarrow> (\<exists>x. r = Inr x \<and> f x = Inr y)"
  by (cases r) auto

lemma wf_mat_nth [shape_simps]:
  "wf_mat r c A \<Longrightarrow> i < r \<Longrightarrow> length (A ! i) = c"
  by (auto simp: wf_mat_def)

lemma wf_mat_length [shape_simps]: "wf_mat r c A \<Longrightarrow> length A = r"
  by (simp add: wf_mat_def)

lemma wf_mat_map:
  "wf_mat r c (map (\<lambda>x. map (g x) ys) xs) \<longleftrightarrow> length xs = r \<and> (xs = [] \<or> length ys = c)"
  by (auto simp: wf_mat_def)

subsection \<open>The last element of a sort\<close>

lemma sort_key_nonempty: "xs \<noteq> [] \<Longrightarrow> sort_key f xs \<noteq> []"
proof
  assume ne: "xs \<noteq> []" and e: "sort_key f xs = []"
  have "length xs = length (sort_key f xs)" by (rule length_sort [symmetric])
  also have "\<dots> = 0" using e by simp
  finally show False using ne by simp
qed

lemma last_sort_key_mem: "xs \<noteq> [] \<Longrightarrow> last (sort_key f xs) \<in> set xs"
proof -
  assume "xs \<noteq> []"
  then have "last (sort_key f xs) \<in> set (sort_key f xs)"
    by (intro last_in_set sort_key_nonempty)
  then show ?thesis by (simp only: set_sort)
qed

lemma sorted_le_last: "sorted xs \<Longrightarrow> x \<in> set xs \<Longrightarrow> x \<le> last xs"
  by (induction xs) (auto simp: last_ConsR)

lemma last_sort_key_max:
  assumes "y \<in> set xs"
  shows "f y \<le> f (last (sort_key f xs))"
proof -
  have ne: "sort_key f xs \<noteq> []" using assms by (intro sort_key_nonempty) auto
  have "f y \<in> set (map f (sort_key f xs))" using assms by (simp add: set_sort)
  then have "f y \<le> last (map f (sort_key f xs))"
    using sorted_le_last [OF sorted_sort_key] by blast
  with ne show ?thesis by (simp add: last_map)
qed

lemma last_sort_key_upt_less: "0 < n \<Longrightarrow> last (sort_key f [0..<n]) < n"
proof -
  assume "0 < n"
  then have "[0..<n] \<noteq> []" by simp
  then have "last (sort_key f [0..<n]) \<in> set [0..<n]" by (rule last_sort_key_mem)
  then show ?thesis by (simp only: set_upt atLeastLessThan_iff)
qed

lemma last_sort_key_upt_max: "j < n \<Longrightarrow> f j \<le> f (last (sort_key f [0..<n]))"
  using last_sort_key_max [of j "[0..<n]" f] by simp

text \<open>Sorting mapped pairs is sorting the indices by the composed key.\<close>

lemma insort_key_map: "insort_key g (h x) (map h ys) = map h (insort_key (\<lambda>z. g (h z)) x ys)"
  by (induction ys) auto

lemma sort_key_map: "sort_key g (map h xs) = map h (sort_key (\<lambda>z. g (h z)) xs)"
  by (induction xs) (simp_all add: insort_key_map)

end
