(* ===== verification/Similarity.thy ===== *)
theory Similarity
  imports Prelude
begin

text \<open>
  The numeric library calls of \<open>src/conealign.py\<close>, modelled over the reals:
  scikit-learn's \<open>cosine_similarity\<close> and \<open>euclidean_distances\<close> (with the input
  checks that make them raise \<open>ValueError\<close>), numpy's \<open>np.exp(-D)\<close>,
  \<open>np.argmax\<close> (the scan that keeps the first strict maximum), \<open>np.argsort\<close>
  (a sort of the indices by value, equal values in a fixed order that no
  property depends on), the one-hot projection of
  \<open>align_embeddings\<close> and the product \<open>embed1.dot(W)\<close>. The lemmas give
  the metric sanity bounds of the spec (cosine values between -1 and 1, the
  exponentiated Euclidean similarity positive, at most 1 and equal to 1
  exactly on equal rows), the argmax contract and the shapes of every result.
\<close>

definition dot :: "vec \<Rightarrow> vec \<Rightarrow> real" where
  "dot u v = sum_list (map2 times u v)"

definition row_norm :: "vec \<Rightarrow> real" where
  "row_norm u = sqrt (dot u u)"

text \<open>\<open>sklearn.preprocessing.normalize\<close>: a zero norm is replaced by 1.\<close>

definition normalize_row :: "vec \<Rightarrow> vec" where
  "normalize_row u = (let n = row_norm u in map (\<lambda>x. x / (if n = 0 then 1 else n)) u)"

definition cosine :: "vec \<Rightarrow> vec \<Rightarrow> real" where
  "cosine u v = dot (normalize_row u) (normalize_row v)"

definition euclid :: "vec \<Rightarrow> vec \<Rightarrow> real" where
  "euclid u v = sqrt (sum_list (map2 (\<lambda>a b. (a - b)\<^sup>2) u v))"

text \<open>
  \<open>check_pairwise_arrays\<close>: both arrays have a sample and a feature, and the
  same number of features; otherwise scikit-learn raises \<open>ValueError\<close>.
\<close>

definition pairwise_ok :: "mat \<Rightarrow> mat \<Rightarrow> bool" where
  "pairwise_ok X Y \<longleftrightarrow> X \<noteq> [] \<and> Y \<noteq> [] \<and> 0 < length (hd X) \<and>
     (\<forall>r \<in> set X \<union> set Y. length r = length (hd X))"

definition cosine_similarity :: "mat \<Rightarrow> mat \<Rightarrow> py_error + mat" where
  "cosine_similarity X Y =
     (if pairwise_ok X Y then Inr (map (\<lambda>x. map (cosine x) Y) X) else Inl ValueError)"

definition euclidean_distances :: "mat \<Rightarrow> mat \<Rightarrow> py_error + mat" where
  "euclidean_distances X Y =
     (if pairwise_ok X Y then Inr (map (\<lambda>x. map (euclid x) Y) X) else Inl ValueError)"

text \<open>\<open>np.exp(-D)\<close>, elementwise.\<close>

definition exp_neg :: "mat \<Rightarrow> mat" where
  "exp_neg D = map (map (\<lambda>d. exp (- d))) D"

text \<open>
  \<open>np.argmax\<close> on one row: numpy's loop keeps the best index \<open>b\<close> and moves it
  only on a strictly larger value, so the first maximum wins.
\<close>

function argmax_scan :: "real list \<Rightarrow> nat \<Rightarrow> nat \<Rightarrow> nat" where
  "argmax_scan xs i b =
     (if i < length xs then argmax_scan xs (Suc i) (if xs ! b < xs ! i then i else b) else b)"
  by pat_completeness auto
termination
  by (relation "measure (\<lambda>(xs, i, b). length xs - i)") auto

definition argmax :: "real list \<Rightarrow> py_error + nat" where
  "argmax xs = (if xs = [] then Inl ValueError else Inr (argmax_scan xs 1 0))"

text \<open>\<open>np.argsort\<close> on one row, as a sort of the column indices by value. numpy
  leaves the order of equal values open; the model fixes the stable order,
  and no property depends on that choice.\<close>

definition argsort :: "real list \<Rightarrow> nat list" where
  "argsort xs = sort_key (\<lambda>i. xs ! i) [0..<length xs]"

text \<open>
  Lines 73--75 of \<open>align_embeddings\<close>: \<open>matches = np.zeros(corr.shape)\<close>,
  \<open>matches[np.arange(n), np.argmax(corr, axis = 1)] = 1\<close>. The argmax over an
  empty row raises.
\<close>

definition one_hot_rows :: "mat \<Rightarrow> py_error + mat" where
  "one_hot_rows C =
     (if \<exists>row \<in> set C. row = [] then Inl ValueError
      else Inr (map (\<lambda>row. let a = argmax_scan row 1 0 in
                  map (\<lambda>j. if j = a then 1 else 0) [0..<length row]) C))"

text \<open>\<open>X.dot(W)\<close>: numpy raises \<open>ValueError\<close> when the inner dimensions differ.\<close>

definition mat_dot :: "mat \<Rightarrow> mat \<Rightarrow> py_error + mat" where
  "mat_dot X W =
     (if \<forall>r \<in> set X. length r = length W
      then Inr (map (\<lambda>x. map (dot x) (transpose W)) X) else Inl ValueError)"

declare argmax_scan.simps [simp del]

subsection \<open>Dot products and norms\<close>

lemma dot_self_nonneg: "0 \<le> dot u u"
  by (induction u) (simp_all add: dot_def)

lemma dot_Cons2 [simp]: "dot (a # u) (b # v) = a * b + dot u v"
  by (simp add: dot_def)

lemma dot_Nil [simp]: "dot [] v = 0" "dot u [] = 0"
  by (simp_all add: dot_def)

lemma two_dot_le:
  "length a = length b \<Longrightarrow> 2 * dot a b \<le> dot a a + dot b b"
proof (induction a b rule: list_induct2)
  case Nil
  then show ?case by simp
next
  case (Cons x xs y ys)
  have "0 \<le> (x - y) * (x - y)" by simp
  then have "2 * (x * y) \<le> x * x + y * y" by (simp add: algebra_simps)
  with Cons.IH show ?case by simp
qed

lemma two_dot_ge:
  "length a = length b \<Longrightarrow> - (dot a a + dot b b) \<le> 2 * dot a b"
proof (induction a b rule: list_induct2)
  case Nil
  then show ?case by simp
next
  case (Cons x xs y ys)
  have "0 \<le> (x + y) * (x + y)" by simp
  then have "- (x * x + y * y) \<le> 2 * (x * y)" by (simp add: algebra_simps)
  with Cons.IH show ?case by simp
qed

lemma dot_scale: "dot (map (\<lambda>x. x / c) u) (map (\<lambda>x. x / c) u) = dot u u / c\<^sup>2"
  by (induction u) (simp_all add: power2_eq_square add_divide_distrib)

lemma length_normalize_row [simp]: "length (normalize_row u) = length u"
  by (simp add: normalize_row_def Let_def)

lemma normalize_row_unit: "dot (normalize_row u) (normalize_row u) \<le> 1"
proof (cases "row_norm u = 0")
  case True
  then show ?thesis
    by (simp add: normalize_row_def dot_scale row_norm_def)
next
  case False
  have "(row_norm u)\<^sup>2 = dot u u"
    by (simp add: row_norm_def dot_self_nonneg)
  with False show ?thesis
    by (simp add: normalize_row_def dot_scale)
qed

lemma dot_uminus_left: "dot (map uminus a) b = - dot a b"
  by (induction a b rule: list_induct2') simp_all

lemma dot_uminus_self: "dot (map uminus a) (map uminus a) = dot a a"
  by (induction a) simp_all

lemma normalize_row_uminus: "normalize_row (map uminus u) = map uminus (normalize_row u)"
  by (simp add: normalize_row_def row_norm_def dot_uminus_self Let_def)

subsection \<open>Metric sanity\<close>

lemma cosine_bounds:
  assumes "length u = length v"
  shows "- 1 \<le> cosine u v \<and> cosine u v \<le> 1"
proof -
  let ?a = "normalize_row u" and ?b = "normalize_row v"
  have len: "length ?a = length ?b" using assms by simp
  have sq: "dot ?a ?a + dot ?b ?b \<le> 2"
    using normalize_row_unit [of u] normalize_row_unit [of v] by simp
  have "2 * dot ?a ?b \<le> 2" using two_dot_le [OF len] sq by linarith
  moreover have "- 2 \<le> 2 * dot ?a ?b" using two_dot_ge [OF len] sq by linarith
  ultimately show ?thesis by (simp add: cosine_def)
qed

lemma cosine_self: "row_norm u \<noteq> 0 \<Longrightarrow> cosine u u = 1"
proof -
  assume nz: "row_norm u \<noteq> 0"
  have "(row_norm u)\<^sup>2 = dot u u"
    by (simp add: row_norm_def dot_self_nonneg)
  moreover have "dot u u \<noteq> 0" using nz by (simp add: row_norm_def)
  ultimately show ?thesis
    using nz by (simp add: cosine_def normalize_row_def dot_scale)
qed

lemma cosine_uminus_self: "row_norm u \<noteq> 0 \<Longrightarrow> cosine (map uminus u) u = - 1"
  using cosine_self [of u] by (simp add: cosine_def normalize_row_uminus dot_uminus_left)

lemma sum_squares_nonneg:
  fixes u v :: vec
  shows "0 \<le> sum_list (map2 (\<lambda>a b. (a - b)\<^sup>2) u v)"
  by (induction u v rule: list_induct2') simp_all

lemma sum_squares_zero_iff:
  fixes u v :: vec
  shows "length u = length v \<Longrightarrow> sum_list (map2 (\<lambda>a b. (a - b)\<^sup>2) u v) = 0 \<longleftrightarrow> u = v"
proof (induction u v rule: list_induct2)
  case Nil
  then show ?case by simp
next
  case (Cons x xs y ys)
  have "0 \<le> sum_list (map2 (\<lambda>a b. (a - b)\<^sup>2) xs ys)" by (rule sum_squares_nonneg)
  moreover have "0 \<le> (x - y)\<^sup>2" by simp
  ultimately have "(x - y)\<^sup>2 + sum_list (map2 (\<lambda>a b. (a - b)\<^sup>2) xs ys) = 0 \<longleftrightarrow>
      (x - y)\<^sup>2 = 0 \<and> sum_list (map2 (\<lambda>a b. (a - b)\<^sup>2) xs ys) = 0"
    by linarith
  with Cons.IH show ?case by simp
qed

lemma euclid_nonneg: "0 \<le> euclid u v"
  by (simp add: euclid_def sum_squares_nonneg)

lemma euclid_self [simp]: "euclid u u = 0"
  by (simp add: euclid_def sum_squares_zero_iff)

lemma euclid_eq_0_iff: "length u = length v \<Longrightarrow> euclid u v = 0 \<longleftrightarrow> u = v"
  by (simp add: euclid_def sum_squares_nonneg sum_squares_zero_iff)

lemma exp_neg_euclid_bounds: "0 < exp (- euclid u v) \<and> exp (- euclid u v) \<le> 1"
  by (simp add: euclid_nonneg)

lemma exp_neg_euclid_eq_1_iff:
  "length u = length v \<Longrightarrow> exp (- euclid u v) = 1 \<longleftrightarrow> u = v"
  by (simp add: euclid_eq_0_iff)

lemma exp_neg_euclid_less_1:
  "length u = length v \<Longrightarrow> u \<noteq> v \<Longrightarrow> exp (- euclid u v) < 1"
  using exp_neg_euclid_bounds [of u v] exp_neg_euclid_eq_1_iff [of u v] by linarith

subsection \<open>argmax and argsort\<close>

text \<open>
  The loop invariant of numpy's argmax: the kept index is below the scan
  position, its value bounds every value seen so far, and every earlier index
  has a strictly smaller value.
\<close>

lemma argmax_scan_spec:
  "b < i \<Longrightarrow> i \<le> length xs \<Longrightarrow> (\<forall>j < i. xs ! j \<le> xs ! b) \<Longrightarrow> (\<forall>j < b. xs ! j < xs ! b) \<Longrightarrow>
   argmax_scan xs i b < length xs \<and>
   (\<forall>j < length xs. xs ! j \<le> xs ! argmax_scan xs i b) \<and>
   (\<forall>j < argmax_scan xs i b. xs ! j < xs ! argmax_scan xs i b)"
proof (induction xs i b rule: argmax_scan.induct)
  case (1 xs i b)
  show ?case
  proof (cases "i < length xs")
    case False
    then have "argmax_scan xs i b = b" by (simp add: argmax_scan.simps [of xs i b])
    moreover have "i = length xs" using False "1.prems"(2) by simp
    ultimately show ?thesis using "1.prems" by simp
  next
    case True
    let ?b' = "if xs ! b < xs ! i then i else b"
    have "?b' < Suc i" "Suc i \<le> length xs" using "1.prems"(1) True by auto
    moreover have "\<forall>j < Suc i. xs ! j \<le> xs ! ?b'"
      using "1.prems"(3) by (auto simp: less_Suc_eq)
    moreover have "\<forall>j < ?b'. xs ! j < xs ! ?b'"
      using "1.prems"(3,4) by (auto simp: le_less_trans)
    ultimately have "argmax_scan xs (Suc i) ?b' < length xs \<and>
        (\<forall>j < length xs. xs ! j \<le> xs ! argmax_scan xs (Suc i) ?b') \<and>
        (\<forall>j < argmax_scan xs (Suc i) ?b'. xs ! j < xs ! argmax_scan xs (Suc i) ?b')"
      using "1.IH" True by blast
    with True show ?thesis by (simp add: argmax_scan.simps [of xs i b])
  qed
qed

lemma argmax_first_max:
  assumes "xs \<noteq> []"
  shows "argmax_scan xs 1 0 < length xs \<and>
    (\<forall>j < length xs. xs ! j \<le> xs ! argmax_scan xs 1 0) \<and>
    (\<forall>j < argmax_scan xs 1 0. xs ! j < xs ! argmax_scan xs 1 0)"
  using assms by (intro argmax_scan_spec) (auto simp: Suc_le_eq)

lemma length_argsort [simp]: "length (argsort xs) = length xs"
  by (simp add: argsort_def)

lemma set_argsort [simp]: "set (argsort xs) = {0..<length xs}"
  by (simp add: argsort_def)

lemma argsort_last_less: "xs \<noteq> [] \<Longrightarrow> last (argsort xs) < length xs"
  unfolding argsort_def by (rule last_sort_key_upt_less) simp

lemma argsort_last_max: "j < length xs \<Longrightarrow> xs ! j \<le> xs ! last (argsort xs)"
  unfolding argsort_def by (rule last_sort_key_upt_max)

subsection \<open>Shapes\<close>

lemma cosine_similarity_shape [shape_simps]:
  "cosine_similarity X Y = Inr S \<Longrightarrow> wf_mat (length X) (length Y) S"
  by (auto simp: cosine_similarity_def wf_mat_def split: if_splits)

lemma euclidean_distances_shape [shape_simps]:
  "euclidean_distances X Y = Inr S \<Longrightarrow> wf_mat (length X) (length Y) S"
  by (auto simp: euclidean_distances_def wf_mat_def split: if_splits)

lemma exp_neg_shape [shape_simps]: "wf_mat r c D \<Longrightarrow> wf_mat r c (exp_neg D)"
  by (auto simp: exp_neg_def wf_mat_def)

lemma mat_dot_shape [shape_simps]:
  "mat_dot X W = Inr Y \<Longrightarrow> wf_mat (length X) (length (transpose W)) Y"
  by (auto simp: mat_dot_def wf_mat_def split: if_splits)

lemma one_hot_rows_Inr:
  "one_hot_rows C = Inr M \<longleftrightarrow> (\<forall>row \<in> set C. row \<noteq> []) \<and>
     M = map (\<lambda>row. map (\<lambda>j. if j = argmax_scan row 1 0 then 1 else 0) [0..<length row]) C"
  by (auto simp: one_hot_rows_def)

lemma pairwise_ok_rows:
  assumes "pairwise_ok X Y" and "i < length Y"
  shows "\<forall>y \<in> set Y. length y = length (Y ! i)"
proof -
  have all: "\<forall>r \<in> set Y. length r = length (hd X)" using assms(1) unfolding pairwise_ok_def by blast
  have "Y ! i \<in> set Y" using assms(2) by (rule nth_mem)
  then have "length (Y ! i) = length (hd X)" using all by blast
  with all show ?thesis by (metis)
qed

text \<open>Among distinct rows of equal width, the only nearest row to row \<open>i\<close> is row \<open>i\<close>.\<close>

lemma nearest_is_self:
  assumes "distinct Y" and "\<forall>y \<in> set Y. length y = length (Y ! i)" and "i < length Y" and "c < length Y"
    and "euclid (Y ! i) (Y ! c) \<le> euclid (Y ! i) (Y ! i)"
  shows "c = i"
proof -
  have "euclid (Y ! i) (Y ! c) = 0" using assms(5) euclid_nonneg [of "Y ! i" "Y ! c"] by simp
  moreover have "length (Y ! i) = length (Y ! c)" using assms(2,4) by simp
  ultimately have "Y ! i = Y ! c" by (simp add: euclid_eq_0_iff)
  then show ?thesis using assms(1,3,4) by (simp add: nth_eq_iff_index_eq)
qed

subsection \<open>Metric sanity of the library calls\<close>

text \<open>Every entry of a matrix that \<open>cosine_similarity\<close> returns lies between -1 and 1.\<close>

lemma cosine_similarity_Inr:
  "cosine_similarity X Y = Inr S \<Longrightarrow> pairwise_ok X Y \<and> S = map (\<lambda>x. map (cosine x) Y) X"
  by (simp add: cosine_similarity_def split: if_splits)

lemma cosine_similarity_bounds:
  assumes "cosine_similarity X Y = Inr S" and "i < length X" and "j < length Y"
  shows "- 1 \<le> S ! i ! j \<and> S ! i ! j \<le> 1"
proof -
  have ok: "pairwise_ok X Y"
  proof (rule ccontr)
    assume "\<not> pairwise_ok X Y"
    with assms(1) show False by (simp add: cosine_similarity_def)
  qed
  with assms(1) have S: "S = map (\<lambda>x. map (cosine x) Y) X"
    by (simp add: cosine_similarity_def)
  have "length (X ! i) = length (Y ! j)"
    using ok assms(2,3) unfolding pairwise_ok_def by (metis UnI1 UnI2 nth_mem)
  then have "- 1 \<le> cosine (X ! i) (Y ! j) \<and> cosine (X ! i) (Y ! j) \<le> 1"
    by (rule cosine_bounds)
  with S assms(2,3) show ?thesis by simp
qed

text \<open>
  Every entry of \<open>np.exp(-euclidean_distances(X, Y))\<close> is positive and at
  most 1, and it is 1 exactly where the two rows are equal.
\<close>

lemma exp_neg_euclidean_bounds:
  assumes "euclidean_distances X Y = Inr D" and "i < length X" and "j < length Y"
  shows "0 < exp_neg D ! i ! j \<and> exp_neg D ! i ! j \<le> 1 \<and> (exp_neg D ! i ! j = 1 \<longleftrightarrow> X ! i = Y ! j)"
proof -
  have ok: "pairwise_ok X Y"
  proof (rule ccontr)
    assume "\<not> pairwise_ok X Y"
    with assms(1) show False by (simp add: euclidean_distances_def)
  qed
  with assms(1) have D: "D = map (\<lambda>x. map (euclid x) Y) X"
    by (simp add: euclidean_distances_def)
  have len: "length (X ! i) = length (Y ! j)"
    using ok assms(2,3) unfolding pairwise_ok_def by (metis UnI1 UnI2 nth_mem)
  have e: "exp_neg D ! i ! j = exp (- euclid (X ! i) (Y ! j))"
    using D assms(2,3) by (simp add: exp_neg_def)
  show ?thesis
    unfolding e using exp_neg_euclid_bounds exp_neg_euclid_eq_1_iff [OF len] by blast
qed

text \<open>
  The argmax scan (the loop of \<open>np.argmax\<close>) agrees with its reference
  definition: on a non-empty row it returns the least index of a maximum.
\<close>

lemma argmax_least_max:
  assumes "xs \<noteq> []"
  shows "argmax xs = Inr (LEAST i. i < length xs \<and> (\<forall>j < length xs. xs ! j \<le> xs ! i))"
proof -
  let ?a = "argmax_scan xs 1 0"
  have a: "?a < length xs" and mx: "\<forall>j < length xs. xs ! j \<le> xs ! ?a"
    and first: "\<forall>j < ?a. xs ! j < xs ! ?a"
    using argmax_first_max [OF assms] by blast+
  have "(LEAST i. i < length xs \<and> (\<forall>j < length xs. xs ! j \<le> xs ! i)) = ?a"
  proof (rule Least_equality)
    show "?a < length xs \<and> (\<forall>j < length xs. xs ! j \<le> xs ! ?a)" using a mx by blast
  next
    fix y assume y: "y < length xs \<and> (\<forall>j < length xs. xs ! j \<le> xs ! y)"
    show "?a \<le> y"
    proof (rule ccontr)
      assume "\<not> ?a \<le> y"
      then have "xs ! y < xs ! ?a" using first by simp
      moreover have "xs ! ?a \<le> xs ! y" using y a by blast
      ultimately show False by simp
    qed
  qed
  then show ?thesis using assms by (simp add: argmax_def)
qed

subsection \<open>The one-hot projection\<close>

text \<open>
  Claim C26. The one-hot projection of lines 72--75 against a reference
  definition: row \<open>i\<close> of the result has its single 1 at the least index of a
  maximum of row \<open>i\<close> of the similarity matrix (the first maximum wins ties),
  and 0 everywhere else.
\<close>

theorem one_hot_rows_least_max:
  assumes "one_hot_rows C = Inr M" and "i < length C"
  shows "M ! i = map (\<lambda>j. if j = (LEAST k. k < length (C ! i) \<and> (\<forall>j < length (C ! i). C ! i ! j \<le> C ! i ! k))
                          then 1 else 0) [0..<length (C ! i)]"
proof -
  from assms(1) have ne: "\<forall>row \<in> set C. row \<noteq> []"
    and M: "M = map (\<lambda>row. map (\<lambda>j. if j = argmax_scan row 1 0 then 1 else 0) [0..<length row]) C"
    by (simp_all add: one_hot_rows_Inr)
  have "C ! i \<noteq> []" using ne assms(2) by simp
  then have "argmax_scan (C ! i) 1 0 = (LEAST k. k < length (C ! i) \<and> (\<forall>j < length (C ! i). C ! i ! j \<le> C ! i ! k))"
    using argmax_least_max [of "C ! i"] by (simp add: argmax_def)
  then show ?thesis using M assms(2) by simp
qed

theorem one_hot_rows_least_max_witness:
  "one_hot_rows [[1, 3, 3]] = Inr [[0, 1, 0]] \<and>
   [[0, 1, 0 :: real]] ! 0 = map (\<lambda>j. if j = (LEAST k. k < length ([[1, 3, 3 :: real]] ! 0) \<and>
       (\<forall>j < length ([[1, 3, 3 :: real]] ! 0). [[1, 3, 3 :: real]] ! 0 ! j \<le> [[1, 3, 3]] ! 0 ! k)) then 1 else 0)
     [0..<length ([[1, 3, 3 :: real]] ! 0)]"
proof -
  have r: "one_hot_rows [[1, 3, 3]] = Inr [[0, 1, 0]]"
    by (simp add: one_hot_rows_def argmax_scan.simps)
  have "(0 :: nat) < length [[1, 3, 3 :: real]]" by simp
  with r show ?thesis using one_hot_rows_least_max [OF r] by blast
qed

end
