(* ===== verification/Sparse.thy ===== *)
theory Sparse
  imports Prelude
begin

text \<open>
  The scipy.sparse operations the program relies on. A CSR matrix is kept by
  its shape and, per row, the stored \<open>(column, value)\<close> entries in ascending
  column order (the canonical format that \<open>tocsr()\<close> produces; it abstracts
  \<open>indptr\<close>/\<open>indices\<close>/\<open>data\<close>). Modelled: \<open>coo_matrix((data, (row, col)),
  shape).tocsr()\<close> of \<open>kd_align\<close> (index checks, duplicates summed, explicit
  zeros kept), \<open>sps.csr_matrix(dense)\<close> of \<open>main\<close> and \<open>align_embeddings\<close>
  (only non-zeros stored), \<open>sps.find\<close> on one row as used by
  \<open>get_counterpart\<close> (stored non-zero entries in column order) and
  \<open>todense\<close>. The lemmas show that canonical form is an invariant of every
  constructor and that densifying the CSR form of a dense matrix gives it
  back.
\<close>

record csr =
  csr_nrows :: nat
  csr_ncols :: nat
  csr_rows :: "(nat \<times> real) list list"

definition csr_wf :: "csr \<Rightarrow> bool" where
  "csr_wf S \<longleftrightarrow> length (csr_rows S) = csr_nrows S \<and>
     (\<forall>row \<in> set (csr_rows S). sorted_wrt (<) (map fst row) \<and> (\<forall>e \<in> set row. fst e < csr_ncols S))"

text \<open>The entries of one row of a COO triple list, duplicates summed, columns sorted.\<close>

definition coo_row :: "(nat \<times> nat \<times> real) list \<Rightarrow> nat \<Rightarrow> (nat \<times> real) list" where
  "coo_row ts r =
     (let es = map snd (filter (\<lambda>t. fst t = r) ts) in
      map (\<lambda>c. (c, sum_list (map snd (filter (\<lambda>e. fst e = c) es)))) (sort (remdups (map fst es))))"

text \<open>
  \<open>coo_matrix((data, (row, col)), shape=(m, n)).tocsr()\<close>: the three arrays must
  have one length and every index must lie inside the shape, else \<open>ValueError\<close>.
\<close>

definition coo_tocsr :: "nat \<times> nat \<Rightarrow> real list \<Rightarrow> nat list \<Rightarrow> nat list \<Rightarrow> py_error + csr" where
  "coo_tocsr sh data row col =
     (if length row \<noteq> length data \<or> length col \<noteq> length data then Inl ValueError
      else if (\<exists>r \<in> set row. fst sh \<le> r) \<or> (\<exists>c \<in> set col. snd sh \<le> c) then Inl ValueError
      else Inr \<lparr>csr_nrows = fst sh, csr_ncols = snd sh,
                csr_rows = map (coo_row (zip row (zip col data))) [0..<fst sh]\<rparr>)"

definition dense_ncols :: "mat \<Rightarrow> nat" where
  "dense_ncols A = (case A of [] \<Rightarrow> 0 | r # _ \<Rightarrow> length r)"

text \<open>\<open>sps.csr_matrix(A)\<close> for a dense \<open>A\<close>: the non-zero entries of each row.\<close>

definition csr_of_dense :: "mat \<Rightarrow> csr" where
  "csr_of_dense A =
     \<lparr>csr_nrows = length A, csr_ncols = dense_ncols A,
      csr_rows = map (\<lambda>r. filter (\<lambda>e. snd e \<noteq> 0) (enumerate 0 r)) A\<rparr>"

text \<open>\<open>sps.find(S[i])\<close>: the stored entries of row \<open>i\<close> whose value is non-zero.\<close>

definition csr_find_row :: "csr \<Rightarrow> nat \<Rightarrow> (nat \<times> real) list" where
  "csr_find_row S i = filter (\<lambda>e. snd e \<noteq> 0) (csr_rows S ! i)"

definition csr_to_dense :: "csr \<Rightarrow> mat" where
  "csr_to_dense S =
     map (\<lambda>row. map (\<lambda>j. case map_of row j of None \<Rightarrow> 0 | Some v \<Rightarrow> v) [0..<csr_ncols S]) (csr_rows S)"

subsection \<open>Canonical form\<close>

lemma coo_row_sorted: "sorted_wrt (<) (map fst (coo_row ts r))"
  by (simp add: coo_row_def Let_def o_def strict_sorted_iff)

lemma coo_row_cols: "set (map fst (coo_row ts r)) = {c. \<exists>v. (r, c, v) \<in> set ts}"
  by (force simp: coo_row_def Let_def image_iff)

lemma coo_tocsr_wf:
  assumes "coo_tocsr sh data row col = Inr S"
  shows "csr_wf S"
proof -
  let ?ts = "zip row (zip col data)"
  have ok: "\<forall>c \<in> set col. c < snd sh" and S: "S = \<lparr>csr_nrows = fst sh, csr_ncols = snd sh,
      csr_rows = map (coo_row ?ts) [0..<fst sh]\<rparr>"
    using assms by (auto simp: coo_tocsr_def not_le split: if_splits)
  have "\<forall>r. \<forall>e \<in> set (coo_row ?ts r). fst e < snd sh"
  proof (intro allI ballI)
    fix r e assume "e \<in> set (coo_row ?ts r)"
    then have "fst e \<in> set (map fst (coo_row ?ts r))" by simp
    then have "\<exists>v. (r, fst e, v) \<in> set ?ts" by (simp only: coo_row_cols) simp
    then obtain v where "(r, fst e, v) \<in> set ?ts" ..
    then have "fst e \<in> set col" by (auto dest: set_zip_rightD set_zip_leftD)
    with ok show "fst e < snd sh" by blast
  qed
  with S show ?thesis by (auto simp: csr_wf_def coo_row_sorted)
qed

lemma sorted_fst_filter_enumerate: "sorted_wrt (<) (map fst (filter P (enumerate n r)))"
proof -
  have "sorted_wrt (\<lambda>x y. fst x < fst y) (enumerate n r)"
    using sorted_wrt_upt [of n "n + length r"] by (simp add: sorted_wrt_map [symmetric])
  then have "sorted_wrt (\<lambda>x y. fst x < fst y) (filter P (enumerate n r))"
    by (rule sorted_wrt_filter)
  then show ?thesis by (simp add: sorted_wrt_map)
qed

lemma enumerate_fst_less: "e \<in> set (enumerate 0 r) \<Longrightarrow> fst e < length r"
  by (auto simp: in_set_enumerate_eq)

lemma csr_of_dense_wf: "wf_mat m c A \<Longrightarrow> csr_wf (csr_of_dense A)"
proof -
  assume wf: "wf_mat m c A"
  have "\<forall>row \<in> set A. length row = dense_ncols A"
    using wf by (cases A) (auto simp: wf_mat_def dense_ncols_def)
  then show ?thesis
    by (auto simp: csr_wf_def csr_of_dense_def sorted_fst_filter_enumerate dest!: enumerate_fst_less)
qed

subsection \<open>Round trip and row queries\<close>

lemma map_of_filter_enumerate:
  "map_of (filter (\<lambda>e. snd e \<noteq> 0) (enumerate k r)) j =
     (if k \<le> j \<and> j < k + length r \<and> r ! (j - k) \<noteq> 0 then Some (r ! (j - k)) else None)"
proof (induction r arbitrary: k)
  case Nil
  then show ?case by simp
next
  case (Cons x r)
  show ?case
  proof (cases "j = k")
    case True
    with Cons.IH [of "Suc k"] show ?thesis by simp
  next
    case False
    with Cons.IH [of "Suc k"] show ?thesis
      by (auto simp: nth_Cons' Suc_diff_Suc not_le)
  qed
qed

lemma densify_row:
  "map (\<lambda>j. case map_of (filter (\<lambda>e. snd e \<noteq> 0) (enumerate 0 r)) j of None \<Rightarrow> 0 | Some v \<Rightarrow> v)
     [0..<length r] = r"
  by (rule nth_equalityI) (simp_all add: map_of_filter_enumerate)

lemma csr_to_dense_of_dense:
  assumes "wf_mat m c A"
  shows "csr_to_dense (csr_of_dense A) = A"
proof -
  have "\<forall>row \<in> set A. length row = dense_ncols A"
    using assms by (cases A) (auto simp: wf_mat_def dense_ncols_def)
  then have "\<forall>row \<in> set A. map (\<lambda>j. case map_of (filter (\<lambda>e. snd e \<noteq> 0) (enumerate 0 row)) j of
      None \<Rightarrow> 0 | Some v \<Rightarrow> v) [0..<dense_ncols A] = row"
    using densify_row by metis
  then show ?thesis
    by (simp add: csr_to_dense_def csr_of_dense_def map_idI)
qed

lemma csr_find_row_of_dense:
  "i < length A \<Longrightarrow> csr_find_row (csr_of_dense A) i = filter (\<lambda>e. snd e \<noteq> 0) (enumerate 0 (A ! i))"
  by (simp add: csr_find_row_def csr_of_dense_def)

lemma csr_find_row_sorted:
  "csr_wf S \<Longrightarrow> i < csr_nrows S \<Longrightarrow> sorted_wrt (<) (map fst (csr_find_row S i))"
proof -
  assume wf: "csr_wf S" and i: "i < csr_nrows S"
  then have "sorted_wrt (\<lambda>x y. fst x < fst y) (csr_rows S ! i)"
    by (auto simp: csr_wf_def sorted_wrt_map)
  then have "sorted_wrt (\<lambda>x y. fst x < fst y) (csr_find_row S i)"
    unfolding csr_find_row_def by (rule sorted_wrt_filter)
  then show ?thesis by (simp add: sorted_wrt_map)
qed

lemma csr_find_row_cols:
  "csr_wf S \<Longrightarrow> i < csr_nrows S \<Longrightarrow> e \<in> set (csr_find_row S i) \<Longrightarrow> fst e < csr_ncols S"
  by (auto simp: csr_wf_def csr_find_row_def)

lemma csr_find_row_nonzero: "e \<in> set (csr_find_row S i) \<Longrightarrow> snd e \<noteq> 0"
  by (simp add: csr_find_row_def)

end
