(* ===== verification/Counterpart.thy ===== *)
theory Counterpart
  imports Similarity Sparse
begin

text \<open>
  The evaluator, \<open>get_counterpart\<close> of \<open>src/conealign.py\<close> (lines 110--133).
  The alignment matrix is dense or sparse (\<open>sps.issparse\<close>); for each node
  \<open>i\<close> of the first graph the candidate columns are sorted by score
  (\<open>np.argsort\<close> of the dense row, or the stored non-zero entries of the sparse
  row ordered by value), the counterpart is the last of them and the node is
  correct when its target (the ground truth, or \<open>i\<close> itself when no ground
  truth is given) equals it. The loop is a recursion over \<open>range(n_nodes)\<close>
  threading the two accumulators \<open>correct_nodes\<close> and \<open>counterpart_dict\<close>;
  the \<open>KeyError\<close> of a missing ground-truth entry and the \<open>IndexError\<close> of
  an empty candidate list are error values. The ground truth is the unpickled
  mapping, modelled as a partial map from node to target.
\<close>

datatype align_mat = Dense mat | Sparse csr

definition n_rows :: "align_mat \<Rightarrow> nat" where
  "n_rows M = (case M of Dense A \<Rightarrow> length A | Sparse S \<Rightarrow> csr_nrows S)"

text \<open>\<open>node_sorted_indices\<close>, lines 116--127.\<close>

definition node_sorted_indices :: "align_mat \<Rightarrow> nat \<Rightarrow> nat list" where
  "node_sorted_indices M i =
     (case M of
       Dense A \<Rightarrow> argsort (A ! i)
     | Sparse S \<Rightarrow> map fst (sort_key snd (csr_find_row S i)))"

text \<open>\<open>target_alignment\<close>, lines 120--122.\<close>

definition target_of :: "(nat \<rightharpoonup> int) option \<Rightarrow> nat \<Rightarrow> py_error + int" where
  "target_of ta i =
     (case ta of
       None \<Rightarrow> Inr (int i)
     | Some t \<Rightarrow> (case t i of None \<Rightarrow> Inl KeyError | Some v \<Rightarrow> Inr v))"

text \<open>One iteration of the loop body, lines 120--131.\<close>

definition counterpart_step ::
  "align_mat \<Rightarrow> (nat \<rightharpoonup> int) option \<Rightarrow> nat list \<times> (nat \<rightharpoonup> nat) \<Rightarrow> nat \<Rightarrow>
   py_error + (nat list \<times> (nat \<rightharpoonup> nat))" where
  "counterpart_step M ta acc i =
     bind_err (target_of ta i) (\<lambda>target.
       let idxs = node_sorted_indices M i;
           correct = (if target \<in> int ` set (drop (length idxs - 1) idxs)
                      then fst acc @ [i] else fst acc)
       in if idxs = [] then Inl IndexError
          else Inr (correct, (snd acc)(i \<mapsto> last idxs)))"

fun counterpart_loop ::
  "align_mat \<Rightarrow> (nat \<rightharpoonup> int) option \<Rightarrow> nat list \<Rightarrow> nat list \<times> (nat \<rightharpoonup> nat) \<Rightarrow>
   py_error + (nat list \<times> (nat \<rightharpoonup> nat))" where
  "counterpart_loop M ta [] acc = Inr acc"
| "counterpart_loop M ta (i # is) acc =
     bind_err (counterpart_step M ta acc i) (counterpart_loop M ta is)"

definition get_counterpart ::
  "align_mat \<Rightarrow> (nat \<rightharpoonup> int) option \<Rightarrow> py_error + (nat list \<times> (nat \<rightharpoonup> nat))" where
  "get_counterpart M ta = counterpart_loop M ta [0..<n_rows M] ([], Map.empty)"

text \<open>Vocabulary of the lemmas (not program code): the target a run compares with.\<close>

definition targets_ok :: "(nat \<rightharpoonup> int) option \<Rightarrow> nat \<Rightarrow> bool" where
  "targets_ok ta n \<longleftrightarrow> (case ta of None \<Rightarrow> True | Some t \<Rightarrow> \<forall>i < n. t i \<noteq> None)"

definition target :: "(nat \<rightharpoonup> int) option \<Rightarrow> nat \<Rightarrow> int" where
  "target ta i = (case ta of None \<Rightarrow> int i | Some t \<Rightarrow> (case t i of None \<Rightarrow> 0 | Some v \<Rightarrow> v))"

definition rows_nonempty :: "align_mat \<Rightarrow> bool" where
  "rows_nonempty M \<longleftrightarrow> (\<forall>i < n_rows M. node_sorted_indices M i \<noteq> [])"

subsection \<open>The loop\<close>

lemma target_of_ok: "targets_ok ta n \<Longrightarrow> i < n \<Longrightarrow> target_of ta i = Inr (target ta i)"
  by (auto simp: targets_ok_def target_of_def target_def split: option.splits)

lemma drop_length_minus_one: "xs \<noteq> [] \<Longrightarrow> drop (length xs - 1) xs = [last xs]"
  by (induction xs rule: rev_induct) auto

lemma drop_last_member:
  "xs \<noteq> [] \<Longrightarrow> (t \<in> int ` set (drop (length xs - 1) xs)) \<longleftrightarrow> t = int (last xs)"
proof -
  assume "xs \<noteq> []"
  then have "drop (length xs - 1) xs = [last xs]" by (rule drop_length_minus_one)
  then show ?thesis by simp
qed

lemma counterpart_step_ok:
  assumes "target_of ta i = Inr t" and "node_sorted_indices M i \<noteq> []"
  shows "counterpart_step M ta (c, d) i =
     Inr (if t = int (last (node_sorted_indices M i)) then c @ [i] else c,
          d(i \<mapsto> last (node_sorted_indices M i)))"
  using assms by (simp add: counterpart_step_def Let_def drop_last_member [simplified])

text \<open>Functional behaviour of the loop when no iteration raises.\<close>

lemma counterpart_loop_ok:
  assumes "\<forall>i \<in> set is. target_of ta i = Inr (target ta i) \<and> node_sorted_indices M i \<noteq> []"
  shows "counterpart_loop M ta is (c, d) =
     Inr (c @ filter (\<lambda>i. target ta i = int (last (node_sorted_indices M i))) is,
          \<lambda>j. if j \<in> set is then Some (last (node_sorted_indices M j)) else d j)"
  using assms
proof (induction "is" arbitrary: c d)
  case Nil
  then show ?case by simp
next
  case (Cons i "is")
  then show ?case
    by (simp add: counterpart_step_ok fun_upd_def) (auto intro!: ext)
qed

text \<open>The first iteration that raises decides the error.\<close>

lemma counterpart_loop_err:
  assumes "\<forall>j \<in> set pre. target_of ta j = Inr (target ta j) \<and> node_sorted_indices M j \<noteq> []"
    and "\<And>acc'. counterpart_step M ta acc' i = Inl e"
  shows "counterpart_loop M ta (pre @ i # post) acc = Inl e"
  using assms(1)
proof (induction pre arbitrary: acc)
  case Nil
  with assms(2) show ?case by simp
next
  case (Cons j pre)
  obtain c d where acc: "acc = (c, d)" by (cases acc)
  from Cons.prems have "target_of ta j = Inr (target ta j)" "node_sorted_indices M j \<noteq> []"
    by auto
  then have "\<exists>acc''. counterpart_step M ta acc j = Inr acc''"
    by (simp add: acc counterpart_step_ok)
  with Cons show ?case by auto
qed

text \<open>Rows that produce the same candidate order give the same run.\<close>

lemma counterpart_loop_cong:
  "\<forall>i \<in> set is. node_sorted_indices M i = node_sorted_indices M' i \<Longrightarrow>
   counterpart_loop M ta is acc = counterpart_loop M' ta is acc"
proof (induction "is" arbitrary: acc)
  case Nil
  then show ?case by simp
next
  case (Cons i "is")
  then have "counterpart_step M ta acc i = counterpart_step M' ta acc i"
    by (simp add: counterpart_step_def)
  with Cons show ?case by (simp add: bind_err_def split: sum.split)
qed

lemma upt_split_at: "i < n \<Longrightarrow> [0..<n] = [0..<i] @ i # [Suc i..<n]"
proof -
  assume i: "i < n"
  have "[0..<i + (n - i)] = [0..<i] @ [i..<i + (n - i)]" by (rule upt_add_eq_append) simp
  with i have "[0..<n] = [0..<i] @ [i..<n]" by simp
  also have "[i..<n] = i # [Suc i..<n]" using i by (rule upt_conv_Cons)
  finally show ?thesis .
qed

lemma get_counterpart_ok:
  assumes "targets_ok ta (n_rows M)" and "rows_nonempty M"
  shows "get_counterpart M ta =
     Inr (filter (\<lambda>i. target ta i = int (last (node_sorted_indices M i))) [0..<n_rows M],
          \<lambda>j. if j < n_rows M then Some (last (node_sorted_indices M j)) else None)"
proof -
  have "\<forall>i \<in> set [0..<n_rows M]. target_of ta i = Inr (target ta i) \<and> node_sorted_indices M i \<noteq> []"
    using assms by (auto simp: rows_nonempty_def target_of_ok)
  then show ?thesis
    by (simp add: get_counterpart_def counterpart_loop_ok)
qed

lemma get_counterpart_err:
  assumes "i < n_rows M" and "\<And>acc. counterpart_step M ta acc i = Inl e"
    and "\<forall>j < i. target_of ta j = Inr (target ta j) \<and> node_sorted_indices M j \<noteq> []"
  shows "get_counterpart M ta = Inl e"
proof -
  have "counterpart_loop M ta ([0..<i] @ i # [Suc i..<n_rows M]) ([], Map.empty) = Inl e"
    using assms(2,3) by (intro counterpart_loop_err) auto
  moreover have "[0..<n_rows M] = [0..<i] @ i # [Suc i..<n_rows M]"
    using assms(1) by (rule upt_split_at)
  ultimately show ?thesis by (simp only: get_counterpart_def)
qed

text \<open>A run that returns has met a target and a candidate in every row.\<close>

lemma counterpart_step_Inr:
  "counterpart_step M ta acc i = Inr acc' \<Longrightarrow>
   (\<exists>t. target_of ta i = Inr t) \<and> node_sorted_indices M i \<noteq> []"
  by (cases "target_of ta i") (auto simp: counterpart_step_def Let_def split: if_splits)

lemma counterpart_loop_Inr:
  "counterpart_loop M ta is acc = Inr r \<Longrightarrow>
   \<forall>i \<in> set is. (\<exists>t. target_of ta i = Inr t) \<and> node_sorted_indices M i \<noteq> []"
proof (induction "is" arbitrary: acc)
  case Nil
  then show ?case by simp
next
  case (Cons i "is")
  then obtain acc' where s: "counterpart_step M ta acc i = Inr acc'"
    and l: "counterpart_loop M ta is acc' = Inr r"
    by (auto simp: bind_err_eq_Inr)
  show ?case using counterpart_step_Inr [OF s] Cons.IH [OF l] by simp
qed

lemma get_counterpart_Inr:
  assumes "get_counterpart M ta = Inr r"
  shows "targets_ok ta (n_rows M) \<and> rows_nonempty M \<and>
    r = (filter (\<lambda>i. target ta i = int (last (node_sorted_indices M i))) [0..<n_rows M],
         \<lambda>j. if j < n_rows M then Some (last (node_sorted_indices M j)) else None)"
proof -
  have all: "\<forall>i \<in> set [0..<n_rows M]. (\<exists>t. target_of ta i = Inr t) \<and> node_sorted_indices M i \<noteq> []"
    using assms unfolding get_counterpart_def by (rule counterpart_loop_Inr)
  have t: "targets_ok ta (n_rows M)"
  proof (cases ta)
    case (Some f)
    have "f i \<noteq> None" if "i < n_rows M" for i
      using all that by (auto simp: Some target_of_def split: option.splits)
    then show ?thesis by (simp add: targets_ok_def Some)
  qed (simp add: targets_ok_def)
  moreover have ne: "rows_nonempty M" using all by (simp add: rows_nonempty_def)
  moreover have "get_counterpart M ta = Inr (filter (\<lambda>i. target ta i = int (last (node_sorted_indices M i))) [0..<n_rows M],
         \<lambda>j. if j < n_rows M then Some (last (node_sorted_indices M j)) else None)"
    using t ne by (rule get_counterpart_ok)
  ultimately show ?thesis using assms by simp
qed

text \<open>A run in which every node is its own counterpart and its own target.\<close>

lemma get_counterpart_all_correct:
  assumes "get_counterpart M ta = Inr (c, cd)" and "\<forall>i < n_rows M. cd i = Some i"
    and "\<forall>i < n_rows M. target ta i = int i"
  shows "c = [0..<n_rows M] \<and> cd = (\<lambda>j. if j < n_rows M then Some j else None)"
proof -
  from get_counterpart_Inr [OF assms(1)]
  have c: "c = filter (\<lambda>i. target ta i = int (last (node_sorted_indices M i))) [0..<n_rows M]"
    and cd: "cd = (\<lambda>j. if j < n_rows M then Some (last (node_sorted_indices M j)) else None)"
    by simp_all
  have last: "last (node_sorted_indices M i) = i" if "i < n_rows M" for i
    using assms(2) that by (simp add: cd)
  have "c = [0..<n_rows M]" unfolding c using assms(3) last by (simp add: filter_id_conv)
  moreover have "cd = (\<lambda>j. if j < n_rows M then Some j else None)"
    using last by (auto simp: cd)
  ultimately show ?thesis ..
qed

lemma node_sorted_indices_Dense [simp]: "node_sorted_indices (Dense A) i = argsort (A ! i)"
  by (simp add: node_sorted_indices_def)

lemma n_rows_Dense [simp]: "n_rows (Dense A) = length A"
  by (simp add: n_rows_def)

lemma n_rows_Sparse [simp]: "n_rows (Sparse S) = csr_nrows S"
  by (simp add: n_rows_def)

lemma dense_rows_nonempty:
  assumes "wf_mat n m A" and "0 < m"
  shows "rows_nonempty (Dense A)"
proof -
  have "argsort (A ! i) \<noteq> []" if "i < length A" for i
  proof -
    have "length (A ! i) = m" using assms(1) that by (simp add: wf_mat_def)
    then have "[0..<length (A ! i)] \<noteq> []" using assms(2) by simp
    then show ?thesis unfolding argsort_def by (rule sort_key_nonempty)
  qed
  then show ?thesis by (simp add: rows_nonempty_def)
qed

lemma sparse_indices_last:
  "csr_find_row S i \<noteq> [] \<Longrightarrow>
   last (node_sorted_indices (Sparse S) i) = fst (last (sort_key snd (csr_find_row S i)))"
  by (simp add: node_sorted_indices_def last_map sort_key_nonempty)

lemma sparse_rows_nonempty:
  "\<forall>i < csr_nrows S. csr_find_row S i \<noteq> [] \<Longrightarrow> rows_nonempty (Sparse S)"
  by (simp add: rows_nonempty_def node_sorted_indices_def sort_key_nonempty)

lemma enumerate_nth_map: "enumerate 0 r = map (\<lambda>j. (j, r ! j)) [0..<length r]"
  by (rule nth_equalityI) (simp_all add: nth_enumerate_eq)

text \<open>On a row without zeros, ranking the stored entries is the dense argsort.\<close>

lemma csr_of_dense_indices:
  assumes "i < length A" and "0 \<notin> set (A ! i)"
  shows "node_sorted_indices (Sparse (csr_of_dense A)) i = argsort (A ! i)"
proof -
  have "filter (\<lambda>e. snd e \<noteq> 0) (enumerate 0 (A ! i)) = enumerate 0 (A ! i)"
    using assms(2) by (auto simp: filter_id_conv in_set_enumerate_eq) (metis nth_mem)
  then have "csr_find_row (csr_of_dense A) i = map (\<lambda>j. (j, A ! i ! j)) [0..<length (A ! i)]"
    using assms(1) by (simp add: csr_find_row_of_dense enumerate_nth_map)
  then show ?thesis
    by (simp add: node_sorted_indices_def sort_key_map argsort_def o_def)
qed

lemma dense_counterpart_spec:
  assumes "wf_mat n m A" and "0 < m" and "targets_ok ta n"
  shows "\<exists>correct cd. get_counterpart (Dense A) ta = Inr (correct, cd) \<and>
     (\<forall>i < n. \<exists>c. cd i = Some c \<and> c < m \<and> (\<forall>j < m. A ! i ! j \<le> A ! i ! c) \<and>
        (i \<in> set correct \<longleftrightarrow> target ta i = int c))"
proof -
  have n: "length A = n" using assms(1) by (simp add: wf_mat_def)
  have ok: "get_counterpart (Dense A) ta =
     Inr (filter (\<lambda>i. target ta i = int (last (argsort (A ! i)))) [0..<n],
          \<lambda>j. if j < n then Some (last (argsort (A ! j))) else None)"
    using get_counterpart_ok [of ta "Dense A"] assms(3) dense_rows_nonempty [OF assms(1,2)]
    by (simp add: n cong: if_cong)
  have "\<forall>i < n. last (argsort (A ! i)) < m \<and>
      (\<forall>j < m. A ! i ! j \<le> A ! i ! last (argsort (A ! i)))"
  proof (intro allI impI conjI)
    fix i j assume i: "i < n"
    have len: "length (A ! i) = m" using assms(1) i by (rule wf_mat_nth)
    then show "last (argsort (A ! i)) < m" using assms(2) argsort_last_less [of "A ! i"] by auto
    show "j < m \<Longrightarrow> A ! i ! j \<le> A ! i ! last (argsort (A ! i))"
      using len by (intro argsort_last_max) simp
  qed
  with ok show ?thesis by auto
qed

text \<open>
  Claim C1. On a dense alignment matrix with at least one column the evaluator
  returns, and for every node the counterpart is a column of maximal score,
  and the node is counted correct exactly when its target is that column.
  Which of several columns of equal maximal score is taken is left open, as
  numpy's argsort leaves it.
\<close>

theorem get_counterpart_dense_argmax:
  assumes "wf_mat n m A" and "0 < m" and "targets_ok ta n"
  shows "\<exists>correct cd. get_counterpart (Dense A) ta = Inr (correct, cd) \<and>
     (\<forall>i < n. \<exists>c. cd i = Some c \<and> c < m \<and> (\<forall>j < m. A ! i ! j \<le> A ! i ! c) \<and>
        (i \<in> set correct \<longleftrightarrow> target ta i = int c))"
  using assms by (rule dense_counterpart_spec)

text \<open>
  Witness of C1: on the rows \<open>[1, 3]\<close> and \<open>[4, 2]\<close> the theorem forces
  node 0 to column 1 and node 1 to column 0, so without ground truth neither
  is correct.
\<close>

theorem get_counterpart_dense_argmax_witness:
  "wf_mat 2 2 [[1, 3], [4, 2]] \<and> targets_ok None 2 \<and>
   (\<exists>correct cd. get_counterpart (Dense [[1, 3], [4, 2]]) None = Inr (correct, cd) \<and>
      cd 0 = Some 1 \<and> cd 1 = Some 0 \<and> 0 \<notin> set correct \<and> 1 \<notin> set correct)"
proof -
  let ?A = "[[1, 3], [4, 2]] :: mat"
  have h: "wf_mat 2 2 ?A" by (simp add: wf_mat_def)
  have t: "targets_ok None 2" by (simp add: targets_ok_def)
  obtain correct cd where r: "get_counterpart (Dense ?A) None = Inr (correct, cd)"
    and p: "\<forall>i < 2. \<exists>c. cd i = Some c \<and> c < 2 \<and> (\<forall>j < 2. ?A ! i ! j \<le> ?A ! i ! c) \<and>
        (i \<in> set correct \<longleftrightarrow> target None i = int c)"
    using get_counterpart_dense_argmax [OF h _ t] by auto
  have i0: "(0 :: nat) < 2" and i1: "(1 :: nat) < 2" by simp_all
  obtain c0 where c0: "cd 0 = Some c0" "c0 < 2" "\<forall>j < 2. ?A ! 0 ! j \<le> ?A ! 0 ! c0"
    and k0: "0 \<in> set correct \<longleftrightarrow> target None 0 = int c0"
    using p [rule_format, OF i0] by blast
  obtain c1 where c1: "cd 1 = Some c1" "c1 < 2" "\<forall>j < 2. ?A ! 1 ! j \<le> ?A ! 1 ! c1"
    and k1: "1 \<in> set correct \<longleftrightarrow> target None 1 = int c1"
    using p [rule_format, OF i1] by blast
  have "c0 = 1" using c0(2) c0(3) [rule_format, of 1] by (cases c0) auto
  moreover have "c1 = 0" using c1(2) c1(3) [rule_format, of 0] by (cases c1) (auto simp: less_Suc_eq)
  ultimately show ?thesis using r h t c0(1) c1(1) k0 k1 by (auto simp: target_def)
qed

lemma sparse_counterpart_spec:
  assumes "csr_wf S" and "targets_ok ta (csr_nrows S)" and "\<forall>i < csr_nrows S. csr_find_row S i \<noteq> []"
  shows "\<exists>correct cd. get_counterpart (Sparse S) ta = Inr (correct, cd) \<and>
     (\<forall>i < csr_nrows S. \<exists>c v. cd i = Some c \<and> (c, v) \<in> set (csr_find_row S i) \<and>
        (\<forall>e \<in> set (csr_find_row S i). snd e \<le> v) \<and>
        (i \<in> set correct \<longleftrightarrow> target ta i = int c))"
proof -
  let ?w = "\<lambda>i. last (sort_key snd (csr_find_row S i))"
  have ok: "get_counterpart (Sparse S) ta =
     Inr (filter (\<lambda>i. target ta i = int (last (node_sorted_indices (Sparse S) i))) [0..<csr_nrows S],
          \<lambda>j. if j < csr_nrows S then Some (last (node_sorted_indices (Sparse S) j)) else None)"
    using get_counterpart_ok [of ta "Sparse S"] assms(2) sparse_rows_nonempty [OF assms(3)]
    by simp
  have row: "?w i \<in> set (csr_find_row S i) \<and>
      (\<forall>e \<in> set (csr_find_row S i). snd e \<le> snd (?w i)) \<and>
      last (node_sorted_indices (Sparse S) i) = fst (?w i)"
    if i: "i < csr_nrows S" for i
  proof (intro conjI ballI impI)
    have ne: "csr_find_row S i \<noteq> []" using assms(3) i by blast
    show "?w i \<in> set (csr_find_row S i)" using ne by (rule last_sort_key_mem)
    show "last (node_sorted_indices (Sparse S) i) = fst (?w i)" using ne by (rule sparse_indices_last)
    fix e assume e: "e \<in> set (csr_find_row S i)"
    then show "snd e \<le> snd (?w i)" by (rule last_sort_key_max)
  qed
  let ?correct = "filter (\<lambda>i. target ta i = int (last (node_sorted_indices (Sparse S) i))) [0..<csr_nrows S]"
  let ?cd = "\<lambda>j. if j < csr_nrows S then Some (last (node_sorted_indices (Sparse S) j)) else None"
  have "\<forall>i < csr_nrows S. \<exists>c v. ?cd i = Some c \<and> (c, v) \<in> set (csr_find_row S i) \<and>
      (\<forall>e \<in> set (csr_find_row S i). snd e \<le> v) \<and>
      (i \<in> set ?correct \<longleftrightarrow> target ta i = int c)"
  proof (intro allI impI)
    fix i assume i: "i < csr_nrows S"
    show "\<exists>c v. ?cd i = Some c \<and> (c, v) \<in> set (csr_find_row S i) \<and>
      (\<forall>e \<in> set (csr_find_row S i). snd e \<le> v) \<and>
      (i \<in> set ?correct \<longleftrightarrow> target ta i = int c)"
      using row [OF i] i by (intro exI [of _ "fst (?w i)"] exI [of _ "snd (?w i)"]) auto
  qed
  with ok show ?thesis by blast
qed

text \<open>
  Claim C2. On a canonical sparse matrix whose rows all keep a non-zero entry,
  the evaluator returns, and each node's counterpart is a stored column whose
  score is maximal among the stored non-zero scores of its row, and the node
  is correct exactly when its target is that column (which of several equal
  maximal entries is taken is left open, as numpy's argsort leaves it).
\<close>

theorem get_counterpart_sparse_argmax:
  assumes "csr_wf S" and "targets_ok ta (csr_nrows S)" and "\<forall>i < csr_nrows S. csr_find_row S i \<noteq> []"
  shows "\<exists>correct cd. get_counterpart (Sparse S) ta = Inr (correct, cd) \<and>
     (\<forall>i < csr_nrows S. \<exists>c v. cd i = Some c \<and> (c, v) \<in> set (csr_find_row S i) \<and>
        (\<forall>e \<in> set (csr_find_row S i). snd e \<le> v) \<and>
        (i \<in> set correct \<longleftrightarrow> target ta i = int c))"
  using assms by (rule sparse_counterpart_spec)

theorem get_counterpart_sparse_argmax_witness:
  "csr_wf \<lparr>csr_nrows = 2, csr_ncols = 3, csr_rows = [[(0, 1 / 2), (2, 1 / 2)], [(1, 1 / 4)]]\<rparr> \<and>
   targets_ok None 2 \<and>
   csr_find_row \<lparr>csr_nrows = 2, csr_ncols = 3, csr_rows = [[(0, 1 / 2), (2, 1 / 2)], [(1, 1 / 4)]]\<rparr> 0 \<noteq> [] \<and>
   csr_find_row \<lparr>csr_nrows = 2, csr_ncols = 3, csr_rows = [[(0, 1 / 2), (2, 1 / 2)], [(1, 1 / 4)]]\<rparr> 1 \<noteq> [] \<and>
   (\<exists>correct cd. get_counterpart (Sparse \<lparr>csr_nrows = 2, csr_ncols = 3,
       csr_rows = [[(0, 1 / 2), (2, 1 / 2)], [(1, 1 / 4)]]\<rparr>) None = Inr (correct, cd))"
proof -
  let ?S = "\<lparr>csr_nrows = 2, csr_ncols = 3, csr_rows = [[(0, 1 / 2), (2, 1 / 2)], [(1, 1 / 4)]]\<rparr>"
  have h1: "csr_wf ?S" by (simp add: csr_wf_def)
  have h2: "targets_ok None (csr_nrows ?S)" by (simp add: targets_ok_def)
  have h3: "\<forall>i < csr_nrows ?S. csr_find_row ?S i \<noteq> []"
    by (simp add: csr_find_row_def less_Suc_eq numeral_2_eq_2)
  show ?thesis using get_counterpart_sparse_argmax [OF h1 h2 h3] h1 h2 h3
    by (auto simp: csr_find_row_def)
qed

text \<open>
  Claim C3. Handing the evaluator the CSR form of a dense matrix without zero
  scores gives exactly the dense result, errors included: the sparse path
  (stored entries ranked by value) and the dense path (\<open>np.argsort\<close> of the
  row) agree.
\<close>

theorem get_counterpart_csr_of_dense:
  assumes "\<forall>row \<in> set A. 0 \<notin> set row"
  shows "get_counterpart (Sparse (csr_of_dense A)) ta = get_counterpart (Dense A) ta"
proof -
  have "\<forall>i \<in> set [0..<length A].
      node_sorted_indices (Sparse (csr_of_dense A)) i = node_sorted_indices (Dense A) i"
    using assms by (auto simp: csr_of_dense_indices)
  then show ?thesis
    unfolding get_counterpart_def by (simp add: csr_of_dense_def counterpart_loop_cong)
qed

theorem get_counterpart_csr_of_dense_witness:
  "get_counterpart (Sparse (csr_of_dense [[1, 3], [2, 2]])) None =
   get_counterpart (Dense [[1, 3], [2, 2]]) None"
  by (rule get_counterpart_csr_of_dense) simp

text \<open>
  Claim C4. A sparse row whose stored entries are all zero (or absent) makes
  \<open>node_sorted_indices[-1]\<close> raise: when it is the first such row and the
  ground truth covers the nodes up to it, the evaluator fails with
  \<open>IndexError\<close> instead of recording a counterpart.
\<close>

theorem get_counterpart_empty_sparse_row:
  assumes "i < csr_nrows S" and "csr_find_row S i = []"
    and "targets_ok ta (Suc i)" and "\<forall>j < i. csr_find_row S j \<noteq> []"
  shows "get_counterpart (Sparse S) ta = Inl IndexError"
proof (rule get_counterpart_err)
  show "i < n_rows (Sparse S)" using assms(1) by simp
  show "counterpart_step (Sparse S) ta acc i = Inl IndexError" for acc
    using assms(2) target_of_ok [OF assms(3), of i]
    by (simp add: counterpart_step_def node_sorted_indices_def)
  show "\<forall>j < i. target_of ta j = Inr (target ta j) \<and> node_sorted_indices (Sparse S) j \<noteq> []"
    using assms(3,4) by (auto simp: target_of_ok node_sorted_indices_def sort_key_nonempty)
qed

theorem get_counterpart_empty_sparse_row_witness:
  "get_counterpart (Sparse \<lparr>csr_nrows = 1, csr_ncols = 1, csr_rows = [[(0, 0)]]\<rparr>) None = Inl IndexError"
  by (rule get_counterpart_empty_sparse_row [of 0]) (simp_all add: csr_find_row_def targets_ok_def)

text \<open>
  Claim C5. Ground truth that lacks the first node it is asked for raises
  \<open>KeyError\<close> (line 122), whatever the matrix holds for that node.
\<close>

theorem get_counterpart_missing_truth:
  assumes "i < n_rows M" and "t i = None"
    and "\<forall>j < i. t j \<noteq> None \<and> node_sorted_indices M j \<noteq> []"
  shows "get_counterpart M (Some t) = Inl KeyError"
proof (rule get_counterpart_err)
  show "i < n_rows M" by (rule assms(1))
  show "counterpart_step M (Some t) acc i = Inl KeyError" for acc
    using assms(2) by (simp add: counterpart_step_def target_of_def)
  show "\<forall>j < i. target_of (Some t) j = Inr (target (Some t) j) \<and> node_sorted_indices M j \<noteq> []"
    using assms(3) by (auto simp: target_of_def target_def)
qed

theorem get_counterpart_missing_truth_witness:
  "get_counterpart (Dense [[1]]) (Some Map.empty) = Inl KeyError"
  by (rule get_counterpart_missing_truth [of 0]) simp_all

end
