(* ===== verification/KdAlign.thy ===== *)
theory KdAlign
  imports Counterpart
begin

text \<open>
  The top-k matcher, \<open>kd_align\<close> of \<open>src/conealign.py\<close> (lines 136--151):
  a scikit-learn \<open>KDTree\<close> over the rows of \<open>emb2\<close> is queried with every row
  of \<open>emb1\<close> for its \<open>num_top\<close> nearest rows; the distances become scores
  \<open>exp(-dist)\<close>, and the three flattened arrays \<open>row\<close>, \<open>col\<close>, \<open>data\<close> are
  assembled into a COO matrix and converted to CSR. The query is modelled by
  its contract: the indices of \<open>emb2\<close> sorted by distance, the first \<open>k\<close>
  of them (equal distances in index order, a choice the library leaves open
  and no property depends on). The tree itself is not
  modelled; the KD_Tree development of the AFP proves that a k-d tree search
  meets this contract. \<open>KDTree\<close> accepts the metrics of
  \<open>KDTree.valid_metrics\<close> only (\<open>cosine\<close> is not one of them) and raises
  \<open>ValueError\<close> for an empty or featureless input, for query rows of another
  width, and for \<open>k\<close> larger than the number of rows. A negative \<open>k\<close>
  raises \<open>ValueError\<close> when the query allocates its \<open>(n, k)\<close> heap (numpy
  refuses negative dimensions). Nothing checks \<open>k = 0\<close>: the query then
  reads past a heap of width zero, so the library defines no result; the
  model gives it the value of the contract (no neighbours), and no lemma
  about a run relies on it.
\<close>

definition manhattan :: "vec \<Rightarrow> vec \<Rightarrow> real" where
  "manhattan u v = sum_list (map2 (\<lambda>a b. \<bar>a - b\<bar>) u v)"

definition chebyshev :: "vec \<Rightarrow> vec \<Rightarrow> real" where
  "chebyshev u v = foldr max (map2 (\<lambda>a b. \<bar>a - b\<bar>) u v) 0"

text \<open>\<open>KDTree(emb2, metric=distance_metric)\<close>: the metric by its name.\<close>

definition kd_metric :: "string \<Rightarrow> py_error + (vec \<Rightarrow> vec \<Rightarrow> real)" where
  "kd_metric s =
     (if s \<in> {''euclidean'', ''l2'', ''minkowski'', ''p''} then Inr euclid
      else if s \<in> {''manhattan'', ''cityblock'', ''l1''} then Inr manhattan
      else if s \<in> {''chebyshev'', ''infinity''} then Inr chebyshev
      else Inl ValueError)"

text \<open>One row of \<open>kd_tree.query(emb1, k)\<close>: the indices of the \<open>k\<close> nearest rows.\<close>

definition kd_query :: "(vec \<Rightarrow> vec \<Rightarrow> real) \<Rightarrow> mat \<Rightarrow> vec \<Rightarrow> nat \<Rightarrow> nat list" where
  "kd_query d Y q k = take k (sort_key (\<lambda>j. d q (Y ! j)) [0..<length Y])"

definition kd_align :: "mat \<Rightarrow> mat \<Rightarrow> string \<Rightarrow> int \<Rightarrow> py_error + csr" where
  "kd_align emb1 emb2 distance_metric num_top =
     bind_err (kd_metric distance_metric) (\<lambda>d.
       if \<not> pairwise_ok emb1 emb2 \<or> num_top < 0 \<or> int (length emb2) < num_top then Inl ValueError
       else
         let k = nat num_top;
             ind = map (\<lambda>i. kd_query d emb2 (emb1 ! i) k) [0..<length emb1];
             dist = map (\<lambda>i. map (\<lambda>j. d (emb1 ! i) (emb2 ! j)) (ind ! i)) [0..<length emb1];
             row = concat (map (\<lambda>i. replicate k i) [0..<length emb1]);
             col = concat ind;
             data = map (\<lambda>x. exp (- x)) (concat dist)
         in coo_tocsr (length emb1, length emb2) data row col)"

subsection \<open>The query contract\<close>

lemma kd_query_length: "k \<le> length Y \<Longrightarrow> length (kd_query d Y q k) = k"
  by (simp add: kd_query_def)

lemma kd_query_distinct: "distinct (kd_query d Y q k)"
  by (simp add: kd_query_def distinct_sort)

lemma kd_query_bound: "j \<in> set (kd_query d Y q k) \<Longrightarrow> j < length Y"
proof -
  assume "j \<in> set (kd_query d Y q k)"
  then have "j \<in> set (sort_key (\<lambda>j. d q (Y ! j)) [0..<length Y])"
    unfolding kd_query_def by (rule in_set_takeD)
  then show ?thesis by (simp only: set_sort set_upt atLeastLessThan_iff)
qed

text \<open>Every returned row is at most as far as every row that is not returned.\<close>

lemma kd_query_nearest:
  assumes "j \<in> set (kd_query d Y q k)" and "j' < length Y" and "j' \<notin> set (kd_query d Y q k)"
  shows "d q (Y ! j) \<le> d q (Y ! j')"
proof -
  let ?f = "\<lambda>j. d q (Y ! j)"
  let ?s = "sort_key ?f [0..<length Y]"
  have "j' \<in> set ?s" using assms(2) by (simp add: set_sort)
  then have "j' \<in> set (take k ?s) \<or> j' \<in> set (drop k ?s)"
    by (metis append_take_drop_id Un_iff set_append)
  then have drop: "j' \<in> set (drop k ?s)" using assms(3) by (simp add: kd_query_def)
  have "sorted (map ?f (take k ?s) @ map ?f (drop k ?s))"
    using sorted_sort_key [of ?f "[0..<length Y]"] by (simp flip: map_append)
  then have "\<forall>x \<in> set (map ?f (take k ?s)). \<forall>y \<in> set (map ?f (drop k ?s)). x \<le> y"
    by (simp add: sorted_append)
  with assms(1) drop show ?thesis by (simp add: kd_query_def)
qed

lemma kd_query_all: "set (kd_query d Y q (length Y)) = {0..<length Y}"
  by (simp add: kd_query_def set_sort)

lemma sort_kd_query_all: "sort (kd_query d Y q (length Y)) = [0..<length Y]"
proof -
  have "sort (kd_query d Y q (length Y)) = sorted_list_of_set (set (kd_query d Y q (length Y)))"
    using kd_query_distinct [of d Y q "length Y"]
    by (simp add: sorted_list_of_set_sort_remdups distinct_remdups_id)
  then show ?thesis by (simp add: kd_query_all)
qed

subsection \<open>Assembling the COO arrays\<close>

lemma zip_concat_blocks:
  "\<forall>x \<in> set xs. length (f x) = k \<Longrightarrow>
   zip (concat (map (\<lambda>x. replicate k x) xs)) (zip (concat (map f xs)) (concat (map (\<lambda>x. map (w x) (f x)) xs))) =
   concat (map (\<lambda>x. map (\<lambda>j. (x, j, w x j)) (f x)) xs)"
proof (induction xs)
  case Nil
  then show ?case by simp
next
  case (Cons x xs)
  have "zip (f x @ concat (map f xs)) (map (w x) (f x) @ concat (map (\<lambda>x. map (w x) (f x)) xs)) =
      zip (f x) (map (w x) (f x)) @ zip (concat (map f xs)) (concat (map (\<lambda>x. map (w x) (f x)) xs))"
    by (simp add: zip_append)
  moreover have "zip (replicate k x) (zip (f x) (map (w x) (f x))) = map (\<lambda>j. (x, j, w x j)) (f x)"
    using Cons.prems by (simp add: zip_replicate1 zip_map2 zip_same_conv_map)
  ultimately show ?case using Cons by (simp add: zip_append)
qed

lemma filter_fst_blocks:
  "r < n \<Longrightarrow>
   filter (\<lambda>t. fst t = r) (concat (map (\<lambda>x. map (\<lambda>j. (x, j, w x j)) (f x)) [0..<n])) =
   map (\<lambda>j. (r, j, w r j)) (f r)"
proof -
  assume r: "r < n"
  have blk: "filter (\<lambda>t. fst t = r) (map (\<lambda>j. (x, j, w x j)) (f x)) =
      (if x = r then map (\<lambda>j. (r, j, w r j)) (f r) else [])" for x
    by (auto simp: filter_id_conv filter_empty_conv)
  have lo: "concat (map (\<lambda>x. if x = r then map (\<lambda>j. (r, j, w r j)) (f r) else []) [0..<r]) = []"
    by (simp add: concat_eq_Nil_conv)
  have hi: "concat (map (\<lambda>x. if x = r then map (\<lambda>j. (r, j, w r j)) (f r) else []) [Suc r..<n]) = []"
    by (simp add: concat_eq_Nil_conv)
  have "[0..<n] = [0..<r] @ r # [Suc r..<n]" using r by (rule upt_split_at)
  then show ?thesis by (simp add: filter_concat blk o_def lo hi)
qed

lemma filter_key_distinct:
  "distinct js \<Longrightarrow> c \<in> set js \<Longrightarrow> filter (\<lambda>e. fst e = c) (map (\<lambda>j. (j, w j)) js) = [(c, w c)]"
  by (induction js) (auto simp: filter_empty_conv)

lemma coo_row_blocks:
  assumes "r < n" and "distinct (f r)"
  shows "coo_row (concat (map (\<lambda>x. map (\<lambda>j. (x, j, w x j)) (f x)) [0..<n])) r =
         map (\<lambda>c. (c, w r c)) (sort (f r))"
proof -
  have es: "map snd (filter (\<lambda>t. fst t = r) (concat (map (\<lambda>x. map (\<lambda>j. (x, j, w x j)) (f x)) [0..<n]))) =
      map (\<lambda>j. (j, w r j)) (f r)"
    using assms(1) by (simp add: filter_fst_blocks o_def)
  have "sort (remdups (f r)) = sort (f r)" using assms(2) by (simp add: distinct_remdups_id)
  moreover have "sum_list (map snd (filter (\<lambda>e. fst e = c) (map (\<lambda>j. (j, w r j)) (f r)))) = w r c"
    if "c \<in> set (sort (f r))" for c
    using that assms(2) by (simp add: filter_key_distinct)
  ultimately show ?thesis by (simp add: coo_row_def es o_def)
qed

lemma length_concat_blocks:
  "\<forall>x \<in> set xs. length (f x) = k \<Longrightarrow> length (concat (map f xs)) = length xs * k"
  by (induction xs) auto

subsection \<open>The rows kd_align stores\<close>

text \<open>
  When the checks pass, row \<open>i\<close> of the result holds, in column order, the
  \<open>k\<close> nearest rows of \<open>emb2\<close> with the score \<open>exp(-dist)\<close>.
\<close>

lemma kd_align_eq:
  assumes "kd_metric m = Inr d" and "pairwise_ok X Y" and "0 \<le> k" and "k \<le> int (length Y)"
  shows "kd_align X Y m k = Inr \<lparr>csr_nrows = length X, csr_ncols = length Y,
     csr_rows = map (\<lambda>i. map (\<lambda>c. (c, exp (- d (X ! i) (Y ! c)))) (sort (kd_query d Y (X ! i) (nat k))))
                 [0..<length X]\<rparr>"
proof -
  let ?n = "length X"
  let ?k = "nat k"
  let ?ind = "\<lambda>i. kd_query d Y (X ! i) ?k"
  let ?w = "\<lambda>i j. exp (- d (X ! i) (Y ! j))"
  let ?row = "concat (map (\<lambda>i. replicate ?k i) [0..<?n])"
  let ?col = "concat (map ?ind [0..<?n])"
  let ?data = "concat (map (\<lambda>i. map (?w i) (?ind i)) [0..<?n])"
  have kle: "?k \<le> length Y" using assms(4) by linarith
  have len: "\<forall>i \<in> set [0..<?n]. length (?ind i) = ?k" using kle by (simp add: kd_query_length)
  have dist: "map (\<lambda>i. map (\<lambda>j. d (X ! i) (Y ! j)) (map ?ind [0..<?n] ! i)) [0..<?n] =
      map (\<lambda>i. map (\<lambda>j. d (X ! i) (Y ! j)) (?ind i)) [0..<?n]"
    by (rule map_cong) simp_all
  have data: "map (\<lambda>x. exp (- x)) (concat (map (\<lambda>i. map (\<lambda>j. d (X ! i) (Y ! j)) (?ind i)) [0..<?n])) = ?data"
    by (simp add: map_concat o_def)
  have ts: "zip ?row (zip ?col ?data) = concat (map (\<lambda>i. map (\<lambda>j. (i, j, ?w i j)) (?ind i)) [0..<?n])"
    using len by (rule zip_concat_blocks)
  have lrow: "length ?row = ?n * ?k"
    using length_concat_blocks [of "[0..<?n]" "\<lambda>i. replicate ?k i" ?k] by simp
  have lcol: "length ?col = ?n * ?k"
    using length_concat_blocks [of "[0..<?n]" ?ind ?k] len by simp
  have ldata: "length ?data = ?n * ?k"
    using length_concat_blocks [of "[0..<?n]" "\<lambda>i. map (?w i) (?ind i)" ?k] len by simp
  have irow: "\<forall>r \<in> set ?row. r < ?n" by auto
  have icol: "\<forall>c \<in> set ?col. c < length Y" by (auto dest: kd_query_bound)
  have rows: "map (coo_row (zip ?row (zip ?col ?data))) [0..<?n] =
      map (\<lambda>i. map (\<lambda>c. (c, ?w i c)) (sort (?ind i))) [0..<?n]"
    unfolding ts by (rule map_cong) (simp_all add: coo_row_blocks kd_query_distinct)
  have "coo_tocsr (?n, length Y) ?data ?row ?col = Inr \<lparr>csr_nrows = ?n, csr_ncols = length Y,
      csr_rows = map (\<lambda>i. map (\<lambda>c. (c, ?w i c)) (sort (?ind i))) [0..<?n]\<rparr>"
    using lrow lcol ldata irow icol rows by (simp add: coo_tocsr_def not_le)
  then show ?thesis
    using assms(1,2,3,4) by (simp add: kd_align_def Let_def dist data)
qed

lemma kd_align_Inr:
  assumes "kd_align X Y m k = Inr S"
  shows "\<exists>d. kd_metric m = Inr d \<and> pairwise_ok X Y \<and> 0 \<le> k \<and> k \<le> int (length Y) \<and>
    S = \<lparr>csr_nrows = length X, csr_ncols = length Y,
     csr_rows = map (\<lambda>i. map (\<lambda>c. (c, exp (- d (X ! i) (Y ! c)))) (sort (kd_query d Y (X ! i) (nat k))))
                 [0..<length X]\<rparr>"
proof (cases "kd_metric m")
  case (Inl e)
  with assms show ?thesis by (simp add: kd_align_def)
next
  case (Inr d)
  have guard: "pairwise_ok X Y \<and> 0 \<le> k \<and> k \<le> int (length Y)"
  proof (rule ccontr)
    assume "\<not> (pairwise_ok X Y \<and> 0 \<le> k \<and> k \<le> int (length Y))"
    with Inr assms show False by (auto simp: kd_align_def)
  qed
  then have "kd_align X Y m k = Inr \<lparr>csr_nrows = length X, csr_ncols = length Y,
     csr_rows = map (\<lambda>i. map (\<lambda>c. (c, exp (- d (X ! i) (Y ! c)))) (sort (kd_query d Y (X ! i) (nat k))))
                 [0..<length X]\<rparr>"
    using Inr by (intro kd_align_eq) auto
  with assms guard Inr show ?thesis by simp
qed

lemma kd_align_find_row:
  assumes "kd_align X Y m k = Inr S" and "kd_metric m = Inr d" and "i < length X"
  shows "csr_find_row S i = map (\<lambda>c. (c, exp (- d (X ! i) (Y ! c)))) (sort (kd_query d Y (X ! i) (nat k)))"
    and "csr_nrows S = length X" and "csr_ncols S = length Y"
  using kd_align_Inr [OF assms(1)] assms(2,3) by (auto simp: csr_find_row_def filter_id_conv)

lemma kd_align_wf: "kd_align X Y m k = Inr S \<Longrightarrow> csr_wf S"
  by (auto simp: csr_wf_def o_def strict_sorted_iff kd_query_distinct dest!: kd_align_Inr kd_query_bound)

lemma map_of_pairs: "map_of (map (\<lambda>c. (c, w c)) xs) j = (if j \<in> set xs then Some (w j) else None)"
  by (induction xs) auto

lemma insort_key_cong:
  "\<forall>y \<in> set (x # ys). f y = g y \<Longrightarrow> insort_key f x ys = insort_key g x ys"
  by (induction ys) auto

lemma sort_key_cong: "\<forall>x \<in> set xs. f x = g x \<Longrightarrow> sort_key f xs = sort_key g xs"
proof (induction xs)
  case Nil
  then show ?case by simp
next
  case (Cons x xs)
  then have "insort_key f x (sort_key g xs) = insort_key g x (sort_key g xs)"
    by (intro insort_key_cong) (simp add: set_sort)
  with Cons show ?case by simp
qed

text \<open>With \<open>k\<close> equal to the number of rows of \<open>emb2\<close> every column is stored.\<close>

lemma kd_align_all_rows:
  assumes "pairwise_ok X Y"
  shows "kd_align X Y ''euclidean'' (int (length Y)) = Inr \<lparr>csr_nrows = length X, csr_ncols = length Y,
     csr_rows = map (\<lambda>i. map (\<lambda>c. (c, exp (- euclid (X ! i) (Y ! c)))) [0..<length Y]) [0..<length X]\<rparr>"
proof -
  have "Y \<noteq> []" using assms by (simp add: pairwise_ok_def)
  then have "1 \<le> int (length Y)" by (cases Y) auto
  moreover have "kd_metric ''euclidean'' = Inr euclid" by (simp add: kd_metric_def)
  ultimately show ?thesis using assms by (simp add: kd_align_eq sort_kd_query_all)
qed

lemma euclidean_distances_ok:
  "pairwise_ok X Y \<Longrightarrow> euclidean_distances X Y = Inr (map (\<lambda>x. map (euclid x) Y) X)"
  by (simp add: euclidean_distances_def)

lemma exp_neg_row:
  "exp_neg (map (\<lambda>x. map (euclid x) Y) X) ! i = map (\<lambda>c. exp (- euclid (X ! i) (Y ! c))) [0..<length Y]"
  if "i < length X"
  using that by (simp add: exp_neg_def) (rule nth_equalityI; simp)

lemma exp_neg_mono_iff: "exp (- a) \<le> exp (- b) \<longleftrightarrow> b \<le> (a :: real)"
  by simp

lemma kd_align_knn_row:
  assumes "kd_align X Y m k = Inr S" and "kd_metric m = Inr d" and "i < length X"
  shows "distinct (map fst (csr_find_row S i)) \<and> length (csr_find_row S i) = nat k \<and>
    (\<forall>e \<in> set (csr_find_row S i). fst e < length Y \<and> snd e = exp (- d (X ! i) (Y ! fst e)) \<and>
       (\<forall>j < length Y. j \<notin> fst ` set (csr_find_row S i) \<longrightarrow> d (X ! i) (Y ! fst e) \<le> d (X ! i) (Y ! j)))"
proof -
  obtain d' where g: "kd_metric m = Inr d'" "0 \<le> k" "k \<le> int (length Y)"
    using kd_align_Inr [OF assms(1)] by blast
  have dd: "d' = d" using g(1) assms(2) by simp
  have row: "csr_find_row S i = map (\<lambda>c. (c, exp (- d (X ! i) (Y ! c)))) (sort (kd_query d Y (X ! i) (nat k)))"
    using kd_align_find_row(1) [OF assms] .
  have len: "length (kd_query d Y (X ! i) (nat k)) = nat k"
    using g(3) by (intro kd_query_length) linarith
  show ?thesis
    using row len kd_query_distinct [of d Y "X ! i" "nat k"]
    by (auto simp: o_def image_iff intro: kd_query_nearest dest: kd_query_bound)
qed

lemma kd_all_indices:
  assumes "pairwise_ok X Y" and "i < length X"
  shows "node_sorted_indices (Sparse \<lparr>csr_nrows = length X, csr_ncols = length Y,
     csr_rows = map (\<lambda>i. map (\<lambda>c. (c, exp (- euclid (X ! i) (Y ! c)))) [0..<length Y]) [0..<length X]\<rparr>) i =
   node_sorted_indices (Dense (exp_neg (map (\<lambda>x. map (euclid x) Y) X))) i"
proof -
  let ?w = "\<lambda>c. exp (- euclid (X ! i) (Y ! c))"
  have "sort_key (\<lambda>c. ?w c) [0..<length Y] = argsort (map ?w [0..<length Y])"
    unfolding argsort_def length_map length_upt diff_zero by (rule sort_key_cong) simp
  then show ?thesis
    using assms(2) by (simp add: node_sorted_indices_def csr_find_row_def filter_id_conv sort_key_map
      exp_neg_row o_def)
qed

lemma kd_counterpart_spec:
  assumes "pairwise_ok X Y" and "1 \<le> k" and "k \<le> int (length Y)" and "targets_ok ta (length X)"
  shows "\<exists>S correct cd. kd_align X Y ''euclidean'' k = Inr S \<and> get_counterpart (Sparse S) ta = Inr (correct, cd) \<and>
     (\<forall>i < length X. \<exists>c. cd i = Some c \<and> c < length Y \<and>
        (\<forall>j < length Y. euclid (X ! i) (Y ! c) \<le> euclid (X ! i) (Y ! j)))"
proof -
  have m: "kd_metric ''euclidean'' = Inr euclid" by (simp add: kd_metric_def)
  obtain S where S: "kd_align X Y ''euclidean'' k = Inr S"
    using kd_align_eq [OF m assms(1) _ assms(3)] assms(2) by fastforce
  have nr: "csr_nrows S = length X" and nc: "csr_ncols S = length Y"
    using kd_align_Inr [OF S] by auto
  have len: "length (csr_find_row S i) = nat k" if "i < length X" for i
    using kd_align_knn_row [OF S m that] by simp
  have ne: "\<forall>i < csr_nrows S. csr_find_row S i \<noteq> []"
  proof (intro allI impI)
    fix i assume "i < csr_nrows S"
    then have "length (csr_find_row S i) = nat k" using nr len by simp
    moreover have "0 < nat k" using assms(2) by simp
    ultimately show "csr_find_row S i \<noteq> []" by auto
  qed
  obtain correct cd where r: "get_counterpart (Sparse S) ta = Inr (correct, cd)"
    and p: "\<forall>i < csr_nrows S. \<exists>c v. cd i = Some c \<and> (c, v) \<in> set (csr_find_row S i) \<and>
        (\<forall>e \<in> set (csr_find_row S i). snd e \<le> v) \<and>
        (i \<in> set correct \<longleftrightarrow> target ta i = int c)"
    using sparse_counterpart_spec [OF kd_align_wf [OF S]] assms(4) ne nr by metis
  have "\<forall>i < length X. \<exists>c. cd i = Some c \<and> c < length Y \<and>
      (\<forall>j < length Y. euclid (X ! i) (Y ! c) \<le> euclid (X ! i) (Y ! j))"
  proof (intro allI impI)
    fix i assume i: "i < length X"
    from p i nr have "\<exists>c v. cd i = Some c \<and> (c, v) \<in> set (csr_find_row S i) \<and>
        (\<forall>e \<in> set (csr_find_row S i). snd e \<le> v) \<and>
        (i \<in> set correct \<longleftrightarrow> target ta i = int c)" by simp
    then obtain c v where c: "cd i = Some c" "(c, v) \<in> set (csr_find_row S i)"
      and top: "\<forall>e \<in> set (csr_find_row S i). snd e \<le> v"
      by blast
    have knn: "\<forall>e \<in> set (csr_find_row S i). fst e < length Y \<and> snd e = exp (- euclid (X ! i) (Y ! fst e)) \<and>
       (\<forall>j < length Y. j \<notin> fst ` set (csr_find_row S i) \<longrightarrow> euclid (X ! i) (Y ! fst e) \<le> euclid (X ! i) (Y ! j))"
      using kd_align_knn_row [OF S m i] by blast
    have v: "v = exp (- euclid (X ! i) (Y ! c))" and cY: "c < length Y" using knn c(2) by auto
    have "euclid (X ! i) (Y ! c) \<le> euclid (X ! i) (Y ! j)" if j: "j < length Y" for j
    proof (cases "j \<in> fst ` set (csr_find_row S i)")
      case True
      then obtain e where e: "e \<in> set (csr_find_row S i)" "fst e = j" by blast
      with knn top have "exp (- euclid (X ! i) (Y ! j)) \<le> exp (- euclid (X ! i) (Y ! c))"
        using v by auto
      then show ?thesis by simp
    next
      case False
      with knn c(2) j show ?thesis by fastforce
    qed
    with c(1) cY show "\<exists>c. cd i = Some c \<and> c < length Y \<and>
        (\<forall>j < length Y. euclid (X ! i) (Y ! c) \<le> euclid (X ! i) (Y ! j))" by blast
  qed
  with S r show ?thesis by blast
qed

text \<open>
  Claim C6. When \<open>kd_align\<close> returns, row \<open>i\<close> of its CSR result stores
  exactly \<open>num_top\<close> distinct columns of \<open>emb2\<close>, each with the score
  \<open>exp(-dist)\<close> of that column, and every stored column is at most as far from
  \<open>emb1[i]\<close> as every column that is not stored: the row holds the
  \<open>num_top\<close> nearest neighbours.
\<close>

theorem kd_align_knn:
  assumes "kd_align X Y m k = Inr S" and "kd_metric m = Inr d" and "i < length X"
  shows "distinct (map fst (csr_find_row S i)) \<and> length (csr_find_row S i) = nat k \<and>
    (\<forall>e \<in> set (csr_find_row S i). fst e < length Y \<and> snd e = exp (- d (X ! i) (Y ! fst e)) \<and>
       (\<forall>j < length Y. j \<notin> fst ` set (csr_find_row S i) \<longrightarrow> d (X ! i) (Y ! fst e) \<le> d (X ! i) (Y ! j)))"
  using assms by (rule kd_align_knn_row)

theorem kd_align_knn_witness:
  "kd_align [[0]] [[0], [3], [1]] ''euclidean'' 2 = Inr \<lparr>csr_nrows = 1, csr_ncols = 3,
      csr_rows = [[(0, 1), (2, exp (- 1))]]\<rparr> \<and>
   kd_metric ''euclidean'' = Inr euclid \<and>
   distinct (map fst (csr_find_row \<lparr>csr_nrows = 1, csr_ncols = 3, csr_rows = [[(0, 1), (2, exp (- 1))]]\<rparr> 0)) \<and>
   length (csr_find_row \<lparr>csr_nrows = 1, csr_ncols = 3, csr_rows = [[(0, 1), (2, exp (- 1))]]\<rparr> 0) = 2"
proof -
  have m: "kd_metric ''euclidean'' = Inr euclid" by (simp add: kd_metric_def)
  have p: "pairwise_ok [[0]] [[0], [3], [1 :: real]]" by (simp add: pairwise_ok_def)
  have q: "kd_query euclid [[0], [3], [1]] [0] 2 = [0, 2]"
    by (simp add: kd_query_def euclid_def upt_rec)
  have r: "kd_align [[0]] [[0], [3], [1]] ''euclidean'' 2 = Inr \<lparr>csr_nrows = 1, csr_ncols = 3,
      csr_rows = [[(0, 1), (2, exp (- 1))]]\<rparr>"
    using kd_align_eq [OF m p, of 2] q by (simp add: euclid_def)
  show ?thesis using kd_align_knn [OF r m, of 0] r m by simp
qed

text \<open>
  Claim C7. With \<open>num_top\<close> equal to the number of rows of \<open>emb2\<close> and the
  Euclidean metric, \<open>kd_align\<close> returns, and densifying its sparse result
  gives exactly \<open>np.exp(-euclidean_distances(emb1, emb2))\<close>, the matrix of
  the full pairwise branch of \<open>align_embeddings\<close>.
\<close>

theorem kd_align_all_dense:
  assumes "pairwise_ok X Y"
  shows "\<exists>S D. kd_align X Y ''euclidean'' (int (length Y)) = Inr S \<and>
     euclidean_distances X Y = Inr D \<and> csr_to_dense S = exp_neg D"
proof -
  have "csr_to_dense \<lparr>csr_nrows = length X, csr_ncols = length Y,
      csr_rows = map (\<lambda>i. map (\<lambda>c. (c, exp (- euclid (X ! i) (Y ! c)))) [0..<length Y]) [0..<length X]\<rparr> =
      exp_neg (map (\<lambda>x. map (euclid x) Y) X)"
    by (rule nth_equalityI) (simp_all add: csr_to_dense_def exp_neg_row map_of_pairs, simp add: exp_neg_def)
  then show ?thesis
    using kd_align_all_rows [OF assms] euclidean_distances_ok [OF assms] by blast
qed

theorem kd_align_all_dense_witness:
  "pairwise_ok [[0]] [[0], [1]] \<and>
   (\<exists>S D. kd_align [[0]] [[0], [1]] ''euclidean'' (int (length [[0 :: real], [1]])) = Inr S \<and>
      euclidean_distances [[0]] [[0], [1]] = Inr D \<and> csr_to_dense S = exp_neg D)"
proof -
  have p: "pairwise_ok [[0]] [[0], [1 :: real]]" by (simp add: pairwise_ok_def)
  show ?thesis using kd_align_all_dense [OF p] p by blast
qed

lemma kd_all_counterpart_eq:
  assumes "pairwise_ok X Y"
  shows "get_counterpart (Sparse \<lparr>csr_nrows = length X, csr_ncols = length Y,
     csr_rows = map (\<lambda>i. map (\<lambda>c. (c, exp (- euclid (X ! i) (Y ! c)))) [0..<length Y]) [0..<length X]\<rparr>) ta =
   get_counterpart (Dense (exp_neg (map (\<lambda>x. map (euclid x) Y) X))) ta"
proof -
  let ?S = "\<lparr>csr_nrows = length X, csr_ncols = length Y,
     csr_rows = map (\<lambda>i. map (\<lambda>c. (c, exp (- euclid (X ! i) (Y ! c)))) [0..<length Y]) [0..<length X]\<rparr>"
  let ?D = "map (\<lambda>x. map (euclid x) Y) X"
  have n1: "n_rows (Sparse ?S) = length X" by simp
  have n2: "n_rows (Dense (exp_neg ?D)) = length X" by (simp add: exp_neg_def)
  have "\<forall>i \<in> set [0..<length X].
      node_sorted_indices (Sparse ?S) i = node_sorted_indices (Dense (exp_neg ?D)) i"
    using assms kd_all_indices by auto
  then show ?thesis unfolding get_counterpart_def n1 n2 by (rule counterpart_loop_cong)
qed

text \<open>
  Claim C8. The top-k versus full check of the spec: with \<open>num_top\<close> equal to
  the number of rows of \<open>emb2\<close>, the evaluator gives the same result on the
  sparse \<open>kd_align\<close> matrix as on the dense \<open>np.exp(-euclidean_distances)\<close>
  matrix: the same counterparts, the same correct nodes, the same errors.
\<close>

theorem kd_align_all_counterpart:
  assumes "pairwise_ok X Y"
  shows "\<exists>S D. kd_align X Y ''euclidean'' (int (length Y)) = Inr S \<and> euclidean_distances X Y = Inr D \<and>
     get_counterpart (Sparse S) ta = get_counterpart (Dense (exp_neg D)) ta"
  using kd_align_all_rows [OF assms] euclidean_distances_ok [OF assms] kd_all_counterpart_eq [OF assms] by blast

theorem kd_align_all_counterpart_witness:
  "pairwise_ok [[0]] [[0], [1]] \<and>
   (\<exists>S D. kd_align [[0]] [[0], [1]] ''euclidean'' (int (length [[0 :: real], [1]])) = Inr S \<and>
      euclidean_distances [[0]] [[0], [1]] = Inr D \<and>
      get_counterpart (Sparse S) None = get_counterpart (Dense (exp_neg D)) None)"
proof -
  have p: "pairwise_ok [[0]] [[0], [1 :: real]]" by (simp add: pairwise_ok_def)
  show ?thesis using kd_align_all_counterpart [OF p] p by blast
qed

text \<open>
  Claim C9. For any \<open>1 \<le> num_top \<le> rows(emb2)\<close> and the Euclidean metric,
  the top-k pipeline returns and every node's counterpart is a nearest row of
  \<open>emb2\<close> overall: restricting the candidates to the k-d tree's neighbours
  never loses the row argmax of the full similarity.
\<close>

theorem kd_align_counterpart_nearest:
  assumes "pairwise_ok X Y" and "1 \<le> k" and "k \<le> int (length Y)" and "targets_ok ta (length X)"
  shows "\<exists>S correct cd. kd_align X Y ''euclidean'' k = Inr S \<and> get_counterpart (Sparse S) ta = Inr (correct, cd) \<and>
     (\<forall>i < length X. \<exists>c. cd i = Some c \<and> c < length Y \<and>
        (\<forall>j < length Y. euclid (X ! i) (Y ! c) \<le> euclid (X ! i) (Y ! j)))"
  using assms by (rule kd_counterpart_spec)

theorem kd_align_counterpart_nearest_witness:
  "pairwise_ok [[0]] [[2], [1], [5]] \<and> (1::int) \<le> 1 \<and> 1 \<le> int (length [[2 :: real], [1], [5]]) \<and>
   targets_ok None (length [[0 :: real]]) \<and>
   (\<exists>S correct cd. kd_align [[0]] [[2], [1], [5]] ''euclidean'' 1 = Inr S \<and>
      get_counterpart (Sparse S) None = Inr (correct, cd))"
proof -
  have p: "pairwise_ok [[0]] [[2], [1], [5 :: real]]" by (simp add: pairwise_ok_def)
  have t: "targets_ok None (length [[0 :: real]])" by (simp add: targets_ok_def)
  have k: "(1::int) \<le> 1" "1 \<le> int (length [[2 :: real], [1], [5]])" by simp_all
  show ?thesis using kd_align_counterpart_nearest [OF p k t] p k t by blast
qed

text \<open>
  Claim C10. \<open>KDTree\<close> does not accept the \<open>cosine\<close> metric, so the top-k
  branch of \<open>align_embeddings\<close> with \<open>--embsim cosine\<close> always raises
  \<open>ValueError\<close>, whatever the embeddings and \<open>num_top\<close>.
\<close>

theorem kd_align_cosine_error: "kd_align X Y ''cosine'' k = Inl ValueError"
  by (simp add: kd_align_def kd_metric_def)

text \<open>
  Claim C11. A \<open>num_top\<close> that is negative or larger than the number of
  rows of \<open>emb2\<close> makes \<open>kd_align\<close> raise \<open>ValueError\<close>; it is never
  clamped.
\<close>

theorem kd_align_num_top_error:
  assumes "k < 0 \<or> int (length Y) < k"
  shows "kd_align X Y m k = Inl ValueError"
proof (cases "kd_metric m")
  case (Inl e)
  then have "e = ValueError" by (auto simp: kd_metric_def split: if_splits)
  with Inl show ?thesis by (simp add: kd_align_def)
next
  case (Inr d)
  with assms show ?thesis by (auto simp: kd_align_def)
qed

theorem kd_align_num_top_error_witness:
  "kd_align [[0]] [[0], [1]] ''euclidean'' 3 = Inl ValueError"
  by (rule kd_align_num_top_error) simp

end
