(* ===== verification/Graph.thy ===== *)
theory Graph
  imports Prelude
begin

text \<open>
  Graph loading in \<open>main\<close> (lines 162--167 of \<open>src/conealign.py\<close>):
  \<open>nx.read_edgelist(..., nodetype=int)\<close> builds an undirected graph whose nodes
  are ordered by first appearance in the edge list (\<open>add_edge(u, v)\<close> adds
  \<open>u\<close>, then \<open>v\<close>); \<open>nx.adjacency_matrix(graph).todense()\<close> indexes rows and
  columns in that order, with a 1 for every edge in either direction (a
  self-loop gives a 1 on the diagonal); \<open>node_num = int(adj.shape[0] / 2)\<close>;
  and the two graphs are the blocks \<open>adj[:node_num, :node_num]\<close> and
  \<open>adj[node_num:, node_num:]\<close>. The edge list is modelled after parsing, as
  the list of its integer pairs; reading and parsing the file is not
  modelled. The node order is built as networkx builds it, one
  \<open>add_edge\<close> at a time, and shown to be the order of first appearance; the
  lemmas give the shapes of the blocks and say exactly which nodes each
  block holds: the first and the remaining nodes in order of appearance,
  which are the ids \<open>0..n-1\<close> and \<open>n..2n-1\<close> only when the ids first appear
  in increasing order.
\<close>

type_synonym edge = "int \<times> int"

text \<open>
  \<open>Graph.add_node\<close> as \<open>add_edge\<close> uses it: a node not yet in the graph
  is appended to the node dictionary, a known node leaves it unchanged.
\<close>

definition add_node :: "int list \<Rightarrow> int \<Rightarrow> int list" where
  "add_node ns u = (if u \<in> set ns then ns else ns @ [u])"

text \<open>
  The node order of \<open>nx.read_edgelist\<close>: one \<open>add_edge(u, v)\<close> per line,
  which adds \<open>u\<close> and then \<open>v\<close>.
\<close>

definition graph_nodes :: "edge list \<Rightarrow> int list" where
  "graph_nodes es = fold (\<lambda>e ns. add_node (add_node ns (fst e)) (snd e)) es []"

definition has_edge :: "edge list \<Rightarrow> int \<Rightarrow> int \<Rightarrow> bool" where
  "has_edge es u v \<longleftrightarrow> (u, v) \<in> set es \<or> (v, u) \<in> set es"

definition adjacency :: "edge list \<Rightarrow> mat" where
  "adjacency es =
     (let ns = graph_nodes es in map (\<lambda>u. map (\<lambda>v. if has_edge es u v then 1 else 0) ns) ns)"

text \<open>\<open>node_num\<close>, \<open>adjA\<close>, \<open>adjB\<close> of lines 165--167.\<close>

definition split_blocks :: "mat \<Rightarrow> nat \<times> mat \<times> mat" where
  "split_blocks adj =
     (let n = length adj div 2 in (n, map (take n) (take n adj), map (drop n) (drop n adj)))"

subsection \<open>The adjacency matrix\<close>

lemma adjacency_entry:
  "i < length (graph_nodes es) \<Longrightarrow> j < length (graph_nodes es) \<Longrightarrow>
   adjacency es ! i ! j = (if has_edge es (graph_nodes es ! i) (graph_nodes es ! j) then 1 else 0)"
  by (simp add: adjacency_def Let_def)

lemma adjacency_shape [shape_simps]:
  "wf_mat (length (graph_nodes es)) (length (graph_nodes es)) (adjacency es)"
  by (simp add: adjacency_def wf_mat_def Let_def)

text \<open>The insertion loop keeps the first occurrence of every node.\<close>

lemma remdups_append_mem: "x \<in> set B \<Longrightarrow> remdups (A @ x # B) = remdups (A @ B)"
  by (induction A) auto

lemma fold_add_node:
  "distinct ns \<Longrightarrow> fold (\<lambda>u ns. add_node ns u) xs ns = rev (remdups (rev (ns @ xs)))"
proof (induction xs arbitrary: ns)
  case Nil
  then show ?case by (simp add: distinct_remdups_id)
next
  case (Cons x xs)
  have d: "distinct (add_node ns x)" using Cons.prems by (simp add: add_node_def)
  show ?case
  proof (cases "x \<in> set ns")
    case True
    then have "remdups (rev xs @ x # rev ns) = remdups (rev xs @ rev ns)"
      by (intro remdups_append_mem) simp
    then show ?thesis using Cons.IH [OF d] True by (simp add: add_node_def)
  next
    case False
    then show ?thesis using Cons.IH [OF d] by (simp add: add_node_def)
  qed
qed

lemma graph_nodes_first_occurrence:
  "graph_nodes es = rev (remdups (rev (concat (map (\<lambda>e. [fst e, snd e]) es))))"
proof -
  have "fold (\<lambda>e ns. add_node (add_node ns (fst e)) (snd e)) es ns =
      fold (\<lambda>u ns. add_node ns u) (concat (map (\<lambda>e. [fst e, snd e]) es)) ns" for ns
    by (induction es arbitrary: ns) simp_all
  then show ?thesis by (simp add: graph_nodes_def fold_add_node)
qed

lemma graph_nodes_empty: "graph_nodes es = [] \<longleftrightarrow> es = []"
  by (cases es) (simp_all add: graph_nodes_first_occurrence)

subsection \<open>The blocks\<close>

lemma split_blocks_shape:
  assumes "wf_mat N N adj" and "split_blocks adj = (n, A, B)"
  shows "n = N div 2 \<and> wf_mat n n A \<and> wf_mat (N - n) (N - n) B"
  using assms by (auto simp: split_blocks_def wf_mat_def Let_def dest!: in_set_takeD in_set_dropD)

lemma split_blocks_A:
  assumes "wf_mat N N adj" and "split_blocks adj = (n, A, B)" and "i < n" and "j < n"
  shows "A ! i ! j = adj ! i ! j"
  using assms by (auto simp: split_blocks_def wf_mat_def Let_def)

lemma split_blocks_B:
  assumes "wf_mat N N adj" and "split_blocks adj = (n, A, B)" and "i < N - n" and "j < N - n"
  shows "B ! i ! j = adj ! (n + i) ! (n + j)"
  using assms by (auto simp: split_blocks_def wf_mat_def Let_def)

text \<open>
  Claim C14. The node order of \<open>nx.read_edgelist\<close>, which fixes the rows of
  the adjacency matrix and so the blocks: the insertion loop gives the nodes
  in order of their first appearance in the edge list (first endpoint before
  second), i.e. the reference \<open>rev (remdups (rev xs))\<close> of the flattened
  edge list.
\<close>

theorem graph_nodes_first_appearance:
  "graph_nodes es = rev (remdups (rev (concat (map (\<lambda>e. [fst e, snd e]) es))))"
  by (rule graph_nodes_first_occurrence)

text \<open>
  Claim C15. The block split of \<open>main\<close>: \<open>node_num\<close> is half the node count
  rounded down, block A is \<open>node_num\<close> square and holds the edges among the
  first \<open>node_num\<close> nodes in order of appearance, and block B is the square
  of the remaining size (one larger than A when the node count is odd) and
  holds the edges among the remaining nodes.
\<close>

theorem split_blocks_graphs:
  assumes "split_blocks (adjacency es) = (n, A, B)"
  shows "n = length (graph_nodes es) div 2 \<and> wf_mat n n A \<and>
    wf_mat (length (graph_nodes es) - n) (length (graph_nodes es) - n) B \<and>
    (\<forall>i < n. \<forall>j < n. A ! i ! j = 1 \<longleftrightarrow> has_edge es (graph_nodes es ! i) (graph_nodes es ! j)) \<and>
    (\<forall>i < length (graph_nodes es) - n. \<forall>j < length (graph_nodes es) - n.
       B ! i ! j = 1 \<longleftrightarrow> has_edge es (graph_nodes es ! (n + i)) (graph_nodes es ! (n + j)))"
proof -
  let ?N = "length (graph_nodes es)"
  have wf: "wf_mat ?N ?N (adjacency es)" by (rule adjacency_shape)
  have sh: "n = ?N div 2 \<and> wf_mat n n A \<and> wf_mat (?N - n) (?N - n) B"
    using split_blocks_shape [OF wf assms] .
  have "A ! i ! j = 1 \<longleftrightarrow> has_edge es (graph_nodes es ! i) (graph_nodes es ! j)" if "i < n" "j < n" for i j
  proof -
    have "i < ?N" "j < ?N" using sh that by auto
    then show ?thesis using split_blocks_A [OF wf assms that] by (simp add: adjacency_entry)
  qed
  moreover have "B ! i ! j = 1 \<longleftrightarrow> has_edge es (graph_nodes es ! (n + i)) (graph_nodes es ! (n + j))"
    if "i < ?N - n" "j < ?N - n" for i j
  proof -
    have "n + i < ?N" "n + j < ?N" using that by auto
    then show ?thesis using split_blocks_B [OF wf assms that] by (simp add: adjacency_entry)
  qed
  ultimately show ?thesis using sh by blast
qed

theorem split_blocks_graphs_witness:
  "split_blocks (adjacency [(0, 1), (2, 3), (3, 4)]) =
     (2, [[0, 1], [1, 0]], [[0, 1, 0], [1, 0, 1], [0, 1, 0]]) \<and>
   2 = length (graph_nodes [(0, 1), (2, 3), (3, 4)]) div 2"
proof -
  have r: "split_blocks (adjacency [(0, 1), (2, 3), (3, 4)]) =
     (2, [[0, 1], [1, 0]], [[0, 1, 0], [1, 0, 1], [0, 1, 0]])"
    by (simp add: split_blocks_def adjacency_def graph_nodes_def add_node_def has_edge_def)
  show ?thesis using split_blocks_graphs [OF r] r by simp
qed

text \<open>
  Claim C16. When the node ids first appear in the edge list in increasing
  order \<open>0, 1, ..., 2n - 1\<close>, the blocks are the graphs the spec describes:
  block A holds the edges among ids \<open>0..n-1\<close> and block B the edges among
  ids \<open>n..2n-1\<close>, shifted by \<open>n\<close>.
\<close>

theorem split_blocks_ordered_ids:
  assumes "graph_nodes es = map int [0..<2 * n]" and "split_blocks (adjacency es) = (m, A, B)"
  shows "m = n \<and> (\<forall>i < n. \<forall>j < n. A ! i ! j = 1 \<longleftrightarrow> has_edge es (int i) (int j)) \<and>
    (\<forall>i < n. \<forall>j < n. B ! i ! j = 1 \<longleftrightarrow> has_edge es (int (n + i)) (int (n + j)))"
proof -
  have len: "length (graph_nodes es) = 2 * n" using assms(1) by simp
  have g: "m = length (graph_nodes es) div 2 \<and>
    (\<forall>i < m. \<forall>j < m. A ! i ! j = 1 \<longleftrightarrow> has_edge es (graph_nodes es ! i) (graph_nodes es ! j)) \<and>
    (\<forall>i < length (graph_nodes es) - m. \<forall>j < length (graph_nodes es) - m.
       B ! i ! j = 1 \<longleftrightarrow> has_edge es (graph_nodes es ! (m + i)) (graph_nodes es ! (m + j)))"
    using split_blocks_graphs [OF assms(2)] by blast
  then have m: "m = n" using len by simp
  have "\<forall>i < n. \<forall>j < n. A ! i ! j = 1 \<longleftrightarrow> has_edge es (int i) (int j)"
    using g m len assms(1) by auto
  moreover have "\<forall>i < n. \<forall>j < n. B ! i ! j = 1 \<longleftrightarrow> has_edge es (int (n + i)) (int (n + j))"
    using g m len assms(1) by auto
  ultimately show ?thesis using m by blast
qed

theorem split_blocks_ordered_ids_witness:
  "graph_nodes [(0, 1), (2, 3)] = map int [0..<2 * 2] \<and>
   split_blocks (adjacency [(0, 1), (2, 3)]) = (2, [[0, 1], [1, 0]], [[0, 1], [1, 0]]) \<and>
   has_edge [(0, 1), (2, 3)] (int (2 + 0)) (int (2 + 1))"
proof -
  have n: "graph_nodes [(0, 1), (2, 3)] = map int [0..<2 * 2]"
    by (simp add: graph_nodes_def add_node_def upt_rec)
  have r: "split_blocks (adjacency [(0, 1), (2, 3)]) = (2, [[0, 1], [1, 0]], [[0, 1], [1, 0]])"
    by (simp add: split_blocks_def adjacency_def graph_nodes_def add_node_def has_edge_def)
  have B: "\<forall>i < 2. \<forall>j < 2. [[0, 1], [1, 0 :: real]] ! i ! j = 1 \<longleftrightarrow>
      has_edge [(0, 1), (2, 3)] (int (2 + i)) (int (2 + j))"
    using split_blocks_ordered_ids [OF n r] by blast
  have "[[0, 1], [1, 0 :: real]] ! 0 ! 1 = 1 \<longleftrightarrow> has_edge [(0, 1), (2, 3)] (int (2 + 0)) (int (2 + 1))"
    using B [rule_format, of 0 1] by simp
  then have "has_edge [(0, 1), (2, 3)] (int (2 + 0)) (int (2 + 1))" by simp
  with n r show ?thesis by simp
qed

end
