(* ===== verification/Pipeline.thy ===== *)
theory Pipeline
  imports KdAlign Graph
begin

text \<open>
  The orchestration of \<open>src/conealign.py\<close>: the configuration of
  \<open>parse_args\<close> (lines 18--60) as a record passed explicitly instead of the
  global \<open>args\<close>, the collaborators outside \<open>src/\<close> (\<open>embedding.netmf\<close>,
  \<open>unsup_align.convex_init\<close>, \<open>convex_init_sparse\<close> and \<open>align\<close>) as a record
  of functions that the lemmas quantify over, \<open>align_embeddings\<close> (lines
  62--107), the one-hot alignment matrix that \<open>main\<close> stores (lines 195--199)
  and \<open>main\<close> itself (lines 154--199) without its file and clock effects.
  Each collaborator returns an error value or its pair of matrices; what
  \<open>align_embeddings\<close> does with them is modelled line by line, including the
  \<open>UnboundLocalError\<close> when \<open>alignmethod\<close> is not \<open>greedy\<close>, the
  \<open>UnboundLocalError\<close> of \<open>main\<close> when \<open>embmethod\<close> is not \<open>netMF\<close>, the
  \<open>ValueError\<close> of the prints \<open>np.max(corr_mat, axis=0/1)\<close> (lines
  85--86) on a zero-size \<open>corr_mat\<close>, and the \<open>NetworkXError\<close> of
  \<open>nx.adjacency_matrix\<close> (line 164) on a graph without nodes. The prints
  themselves have no other effect and are not modelled.
\<close>

record args =
  true_align :: string
  combined_graph :: string
  output_stats :: string
  store_align :: bool
  output_alignment :: string
  embmethod :: string
  rank :: int
  dim :: int
  window :: int
  negative :: real
  store_emb :: bool
  embeddingA :: string
  embeddingB :: string
  niter_init :: int
  reg_init :: real
  nepoch :: int
  niter_align :: int
  reg_align :: real
  bsz :: int
  lr :: real
  embsim :: string
  alignmethod :: string
  numtop :: "int option"

text \<open>The defaults of \<open>parse_args\<close>.\<close>

definition default_args :: args where
  "default_args =
     \<lparr>true_align = ''data/synthetic-combined/arenas/arenas950-1/arenas_edges-mapping-permutation.txt'',
      combined_graph = ''data/synthetic-combined/arenas/arenas950-1/arenas_combined_edges.txt'',
      output_stats = ''output/stats/arenas/arenas950-1.log'',
      store_align = False,
      output_alignment = ''output/alignment_matrix/arenas/arenas950-1'',
      embmethod = ''netMF'', rank = 256, dim = 128, window = 10, negative = 1,
      store_emb = False,
      embeddingA = ''emb/netMF/arenas/arenas950-1.graph1.npy'',
      embeddingB = ''emb/netMF/arenas/arenas950-1.graph2.npy'',
      niter_init = 10, reg_init = 1, nepoch = 5, niter_align = 10, reg_align = 5 / 100,
      bsz = 10, lr = 1, embsim = ''euclidean'', alignmethod = ''greedy'', numtop = Some 10\<rparr>"

text \<open>
  The collaborators outside \<open>src/\<close>, by the interfaces of the spec (section 6
  and 4.1--4.2): the embedding of an adjacency block, the convex
  initialisation (dense and sparse-adjacency variants) returning
  \<open>(init_sim, corr_mat)\<close>, and the alternating optimisation returning
  \<open>(dim_align_matrix, corr_mat)\<close>.
\<close>

record backend =
  netmf :: "mat \<Rightarrow> int \<Rightarrow> int \<Rightarrow> real \<Rightarrow> bool \<Rightarrow> mat"
  convex_init :: "mat \<Rightarrow> mat \<Rightarrow> bool \<Rightarrow> int \<Rightarrow> real \<Rightarrow> mat option \<Rightarrow> py_error + mat \<times> mat"
  convex_init_sparse ::
    "mat \<Rightarrow> mat \<Rightarrow> csr \<Rightarrow> csr \<Rightarrow> bool \<Rightarrow> int \<Rightarrow> real \<Rightarrow> mat option \<Rightarrow> py_error + mat \<times> mat"
  align :: "mat \<Rightarrow> mat \<Rightarrow> mat \<Rightarrow> real \<Rightarrow> int \<Rightarrow> int \<Rightarrow> int \<Rightarrow> real \<Rightarrow> py_error + mat \<times> mat"

text \<open>Lines 79--80: a dense adjacency is converted with \<open>sps.csr_matrix\<close>.\<close>

definition as_csr :: "align_mat \<Rightarrow> csr" where
  "as_csr M = (case M of Dense A \<Rightarrow> csr_of_dense A | Sparse S \<Rightarrow> S)"

text \<open>Lines 64--75: the optional one-hot prior.\<close>

definition top_prior :: "args \<Rightarrow> mat \<Rightarrow> mat \<Rightarrow> mat option \<Rightarrow> mat option \<Rightarrow> py_error + mat option" where
  "top_prior a embed1 embed2 struc_embed struc_embed2 =
     (if struc_embed \<noteq> None \<and> struc_embed2 \<noteq> None then
        bind_err
          (if embsim a = ''cosine'' then cosine_similarity embed1 embed2
           else bind_err (euclidean_distances embed1 embed2) (\<lambda>D. Inr (exp_neg D)))
          (\<lambda>corr. bind_err (one_hot_rows corr) (\<lambda>m. Inr (Some m)))
      else Inr None)"

text \<open>Lines 92--107: matching the aligned embeddings.\<close>

definition match_nodes :: "args \<Rightarrow> mat \<Rightarrow> mat \<Rightarrow> py_error + align_mat" where
  "match_nodes a aligned_embed1 embed2 =
     (if alignmethod a = ''greedy'' then
        (case numtop a of
          Some k \<Rightarrow> bind_err (kd_align aligned_embed1 embed2 (embsim a) k) (\<lambda>S. Inr (Sparse S))
        | None \<Rightarrow>
            if embsim a = ''cosine'' then bind_err (cosine_similarity aligned_embed1 embed2) (\<lambda>C. Inr (Dense C))
            else bind_err (euclidean_distances aligned_embed1 embed2) (\<lambda>D. Inr (Dense (exp_neg D))))
      else Inl UnboundLocalError)"

text \<open>Lines 62--94: the prior, the convex initialisation, the prints of lines
  84--86 (\<open>np.max\<close> along an axis of length zero raises \<open>ValueError\<close>, so
  both fail on a \<open>corr_mat\<close> without rows or without columns), the
  alternating optimisation and the product \<open>embed1.dot(dim_align_matrix)\<close>.\<close>

definition align_spaces ::
  "args \<Rightarrow> backend \<Rightarrow> mat \<Rightarrow> mat \<Rightarrow> align_mat option \<Rightarrow> align_mat option \<Rightarrow> mat option \<Rightarrow> mat option \<Rightarrow>
   py_error + mat" where
  "align_spaces a B embed1 embed2 adj1 adj2 struc_embed struc_embed2 =
     bind_err (top_prior a embed1 embed2 struc_embed struc_embed2) (\<lambda>corr.
     bind_err
       (case (adj1, adj2) of
          (Some A1, Some A2) \<Rightarrow>
            convex_init_sparse B embed1 embed2 (as_csr A1) (as_csr A2) False (niter_init a) (reg_init a) corr
        | _ \<Rightarrow> convex_init B embed1 embed2 False (niter_init a) (reg_init a) corr)
       (\<lambda>(init_sim, corr_mat).
     if corr_mat = [] \<or> [] \<in> set corr_mat then Inl ValueError
     else bind_err (align B embed1 embed2 init_sim (lr a) (bsz a) (nepoch a) (niter_align a) (reg_align a))
       (\<lambda>(dim_align_matrix, corr_mat'). mat_dot embed1 dim_align_matrix)))"

definition align_embeddings ::
  "args \<Rightarrow> backend \<Rightarrow> mat \<Rightarrow> mat \<Rightarrow> align_mat option \<Rightarrow> align_mat option \<Rightarrow> mat option \<Rightarrow> mat option \<Rightarrow>
   py_error + align_mat" where
  "align_embeddings a B embed1 embed2 adj1 adj2 struc_embed struc_embed2 =
     bind_err (align_spaces a B embed1 embed2 adj1 adj2 struc_embed struc_embed2) (\<lambda>aligned_embed1.
       match_nodes a aligned_embed1 embed2)"

text \<open>Lines 196--198: \<open>binary_sim[j, counter_dict[j]] = 1\<close> for each node.\<close>

fun binary_sim_loop :: "nat \<Rightarrow> (nat \<rightharpoonup> nat) \<Rightarrow> nat list \<Rightarrow> mat \<Rightarrow> py_error + mat" where
  "binary_sim_loop n cd [] M = Inr M"
| "binary_sim_loop n cd (j # js) M =
     (case cd j of
       None \<Rightarrow> Inl KeyError
     | Some c \<Rightarrow> if c < n then binary_sim_loop n cd js (M[j := (M ! j)[c := 1]]) else Inl IndexError)"

definition store_binary_sim :: "nat \<Rightarrow> (nat \<rightharpoonup> nat) \<Rightarrow> py_error + mat" where
  "store_binary_sim n cd = binary_sim_loop n cd [0..<n] (replicate n (replicate n 0))"

record run_result =
  run_score :: real
  run_correct :: "nat list"
  run_counterparts :: "nat \<rightharpoonup> nat"
  run_binary_sim :: "mat option"

text \<open>
  \<open>main\<close>, after the ground truth is unpickled and the edge list parsed: the
  adjacency matrix (\<open>NetworkXError\<close> for a graph without nodes), the
  blocks, the embeddings (\<open>emb_matrixA\<close> is unbound unless \<open>embmethod\<close>
  is \<open>netMF\<close>), the alignment, the evaluation, the score and the optional
  one-hot matrix.
\<close>

definition main :: "args \<Rightarrow> backend \<Rightarrow> (nat \<rightharpoonup> int) \<Rightarrow> edge list \<Rightarrow> py_error + run_result" where
  "main a B true_align_map es =
     (if graph_nodes es = [] then Inl NetworkXError
      else case split_blocks (adjacency es) of (node_num, adjA, adjB) \<Rightarrow>
       if embmethod a \<noteq> ''netMF'' then Inl UnboundLocalError
       else
         let emb_matrixA = netmf B adjA (dim a) (window a) (negative a) True;
             emb_matrixB = netmf B adjB (dim a) (window a) (negative a) True
         in bind_err
              (align_embeddings a B emb_matrixA emb_matrixB
                 (Some (Sparse (csr_of_dense adjA))) (Some (Sparse (csr_of_dense adjB))) None None)
              (\<lambda>alignment_matrix.
            bind_err (get_counterpart alignment_matrix (Some true_align_map)) (\<lambda>(correct_nodes, counter_dict).
              if node_num = 0 then Inl ZeroDivisionError
              else
                let score = real (length correct_nodes) / real node_num in
                if store_align a then
                  bind_err (store_binary_sim node_num counter_dict) (\<lambda>bs.
                    Inr \<lparr>run_score = score, run_correct = correct_nodes,
                         run_counterparts = counter_dict, run_binary_sim = Some bs\<rparr>)
                else Inr \<lparr>run_score = score, run_correct = correct_nodes,
                          run_counterparts = counter_dict, run_binary_sim = None\<rparr>)))"

text \<open>Lines 203--205: the script run without command-line flags.\<close>

definition script_main :: "backend \<Rightarrow> (nat \<rightharpoonup> int) \<Rightarrow> edge list \<Rightarrow> py_error + run_result" where
  "script_main B true_align_map es = main default_args B true_align_map es"

text \<open>
  An example collaborator, used by the example runs below: a one-column
  embedding that gives node \<open>i\<close> of an \<open>n\<close>-node block the value \<open>n - i\<close>,
  and an initialiser and optimiser that return the \<open>1 \<times> 1\<close> identity (and
  a \<open>1 \<times> 1\<close> \<open>corr_mat\<close>).
\<close>

definition example_backend :: backend where
  "example_backend =
     \<lparr>netmf = (\<lambda>A d w b nm. map (\<lambda>i. [real (length A - i)]) [0..<length A]),
      convex_init = (\<lambda>X Y sq it r P. Inr ([[1]], [[1]])),
      convex_init_sparse = (\<lambda>X Y KX KY sq it r P. Inr ([[1]], [[1]])),
      align = (\<lambda>X Y init l bs ne it r. Inr ([[1]], []))\<rparr>"

subsection \<open>Shapes through the pipeline\<close>

lemma align_spaces_length:
  assumes "align_spaces a B e1 e2 adj1 adj2 s1 s2 = Inr X"
  shows "length X = length e1"
proof -
  obtain W where "mat_dot e1 W = Inr X"
    using assms by (auto simp: align_spaces_def bind_err_eq_Inr split: prod.splits if_splits)
  then show ?thesis by (auto dest: mat_dot_shape simp: wf_mat_def)
qed

lemma match_nodes_shape:
  assumes "match_nodes a X Y = Inr M"
  shows "n_rows M = length X \<and>
    (case M of Dense C \<Rightarrow> wf_mat (length X) (length Y) C
     | Sparse S \<Rightarrow> csr_wf S \<and> csr_nrows S = length X \<and> csr_ncols S = length Y)"
proof (cases "numtop a")
  case None
  then obtain C where M: "M = Dense C" and C: "wf_mat (length X) (length Y) C"
    using assms by (auto simp: match_nodes_def bind_err_eq_Inr intro: exp_neg_shape
        dest: cosine_similarity_shape euclidean_distances_shape split: if_splits)
  then show ?thesis by (simp add: wf_mat_def)
next
  case (Some k)
  then obtain S where M: "M = Sparse S" and S: "kd_align X Y (embsim a) k = Inr S"
    using assms by (auto simp: match_nodes_def bind_err_eq_Inr split: if_splits)
  then show ?thesis using kd_align_wf [OF S] kd_align_Inr [OF S] by auto
qed

lemma align_embeddings_parts:
  "align_embeddings a B e1 e2 adj1 adj2 s1 s2 = Inr M \<longleftrightarrow>
   (\<exists>X. align_spaces a B e1 e2 adj1 adj2 s1 s2 = Inr X \<and> match_nodes a X e2 = Inr M)"
  by (simp add: align_embeddings_def bind_err_eq_Inr)

text \<open>The alignment stage does not read \<open>numtop\<close>.\<close>

lemma align_spaces_numtop: "align_spaces (a\<lparr>numtop := v\<rparr>) = align_spaces a"
proof -
  have s: "embsim (a\<lparr>numtop := v\<rparr>) = embsim a" "niter_init (a\<lparr>numtop := v\<rparr>) = niter_init a"
    "reg_init (a\<lparr>numtop := v\<rparr>) = reg_init a" "lr (a\<lparr>numtop := v\<rparr>) = lr a"
    "bsz (a\<lparr>numtop := v\<rparr>) = bsz a" "nepoch (a\<lparr>numtop := v\<rparr>) = nepoch a"
    "niter_align (a\<lparr>numtop := v\<rparr>) = niter_align a" "reg_align (a\<lparr>numtop := v\<rparr>) = reg_align a"
    by simp_all
  show ?thesis unfolding align_spaces_def top_prior_def s ..
qed

lemma align_embeddings_rows:
  "align_embeddings a B e1 e2 adj1 adj2 s1 s2 = Inr M \<Longrightarrow> n_rows M = length e1"
  by (auto simp: align_embeddings_parts dest!: match_nodes_shape align_spaces_length)

subsection \<open>The one-hot output of \<open>main\<close>\<close>

lemma binary_sim_loop_Inr:
  assumes "binary_sim_loop n cd js M = Inr M'" and "distinct js"
  shows "(\<forall>j \<in> set js. \<exists>c < n. cd j = Some c) \<and> length M' = length M \<and>
    (\<forall>i < length M. M' ! i = (if i \<in> set js then (M ! i)[the (cd i) := 1] else M ! i))"
  using assms
proof (induction js arbitrary: M)
  case Nil
  then show ?case by simp
next
  case (Cons j js)
  then obtain c where c: "cd j = Some c" "c < n"
    and r: "binary_sim_loop n cd js (M[j := (M ! j)[c := 1]]) = Inr M'"
    by (auto split: option.splits if_splits)
  have d: "distinct js" and ne: "\<forall>i \<in> set js. j \<noteq> i" using Cons.prems(2) by auto
  have IH: "(\<forall>j \<in> set js. \<exists>c < n. cd j = Some c) \<and> length M' = length M \<and>
    (\<forall>i < length M. M' ! i = (if i \<in> set js then (M[j := (M ! j)[c := 1]] ! i)[the (cd i) := 1]
                                 else M[j := (M ! j)[c := 1]] ! i))"
    using Cons.IH [OF r d] by simp
  have "M' ! i = (if i \<in> set (j # js) then (M ! i)[the (cd i) := 1] else M ! i)"
    if i: "i < length M" for i
  proof (cases "i \<in> set js")
    case True
    then have "j \<noteq> i" using ne by blast
    with IH i True show ?thesis by simp
  next
    case False
    with IH i c show ?thesis by (auto simp: nth_list_update)
  qed
  with IH c show ?case by auto
qed

lemma binary_sim_loop_err:
  assumes "\<forall>j \<in> set pre. \<exists>c < n. cd j = Some c" and "cd i = Some c" and "n \<le> c"
  shows "binary_sim_loop n cd (pre @ i # post) M = Inl IndexError"
  using assms(1)
proof (induction pre arbitrary: M)
  case Nil
  with assms(2,3) show ?case by simp
next
  case (Cons j pre)
  then obtain c' where "cd j = Some c'" "c' < n" by auto
  with Cons show ?case by simp
qed

lemma one_hot_update:
  "c < n \<Longrightarrow> (replicate n (0::real))[c := 1] = map (\<lambda>k. if k = c then 1 else 0) [0..<n]"
  by (rule nth_equalityI) (auto simp: nth_list_update)

subsection \<open>The score of \<open>main\<close>\<close>

lemma main_Inr:
  assumes "main a B t es = Inr r"
  obtains n adjA adjB M c cd where "split_blocks (adjacency es) = (n, adjA, adjB)"
    and "embmethod a = ''netMF''"
    and "align_embeddings a B (netmf B adjA (dim a) (window a) (negative a) True)
           (netmf B adjB (dim a) (window a) (negative a) True)
           (Some (Sparse (csr_of_dense adjA))) (Some (Sparse (csr_of_dense adjB))) None None = Inr M"
    and "get_counterpart M (Some t) = Inr (c, cd)" and "0 < n"
    and "run_score r = real (length c) / real n" and "run_correct r = c" and "run_counterparts r = cd"
    and "run_binary_sim r = None \<and> \<not> store_align a \<or>
         store_align a \<and> (\<exists>bs. store_binary_sim n cd = Inr bs \<and> run_binary_sim r = Some bs)"
proof -
  obtain n adjA adjB where sp: "split_blocks (adjacency es) = (n, adjA, adjB)"
    by (cases "split_blocks (adjacency es)") auto
  show ?thesis
    using assms sp that
    by (auto simp: main_def Let_def bind_err_eq_Inr split: if_splits prod.splits)
qed

lemma main_nodes:
  assumes "split_blocks (adjacency es) = (n, adjA, adjB)"
  shows "length adjA = n"
  using split_blocks_shape [OF adjacency_shape assms] by (simp add: wf_mat_def)

lemma main_graph_nonempty:
  assumes "split_blocks (adjacency es) = (n, adjA, adjB)" and "0 < n"
  shows "graph_nodes es \<noteq> []"
  using split_blocks_shape [OF adjacency_shape assms(1)] assms(2) by auto

lemma exp_neg_one_less: "exp (- 1) < (1 :: real)"
  by simp

subsection \<open>The example runs\<close>

lemma example_align_spaces:
  "align_spaces a example_backend X Y adj1 adj2 None None = mat_dot X [[1]]"
  by (simp add: align_spaces_def top_prior_def example_backend_def split: option.splits prod.splits)

lemma example_netmf:
  "netmf example_backend A d w b nm = map (\<lambda>i. [real (length A - i)]) [0..<length A]"
  by (simp add: example_backend_def)

lemma example_graph4:
  "split_blocks (adjacency [(0, 1), (2, 3)]) = (2, [[0, 1], [1, 0]], [[0, 1], [1, 0]])"
proof -
  have g: "graph_nodes [(0, 1), (2, 3)] = [0, 1, 2, 3]" by (simp add: graph_nodes_def add_node_def)
  show ?thesis by (simp add: adjacency_def g split_blocks_def has_edge_def Let_def)
qed

lemma example_embedding2: "netmf example_backend [[0, 1], [1, 0]] d w b nm = [[2], [1]]"
  by (simp add: example_netmf numeral_2_eq_2 upt_rec)

lemma example_run_dense:
  "main (default_args\<lparr>numtop := None\<rparr>) example_backend [0 \<mapsto> 0, 1 \<mapsto> 1] [(0, 1), (2, 3)] =
     Inr \<lparr>run_score = 1, run_correct = [0, 1], run_counterparts = [0 \<mapsto> 0, 1 \<mapsto> 1], run_binary_sim = None\<rparr>"
proof -
  have al: "align_embeddings (default_args\<lparr>numtop := None\<rparr>) example_backend [[2], [1]] [[2], [1]]
      (Some (Sparse (csr_of_dense [[0, 1], [1, 0]]))) (Some (Sparse (csr_of_dense [[0, 1], [1, 0]]))) None None =
     Inr (Dense [[1, exp (- 1)], [exp (- 1), 1]])"
    by (simp add: align_embeddings_def example_align_spaces mat_dot_def dot_def
      match_nodes_def default_args_def euclidean_distances_def pairwise_ok_def exp_neg_def euclid_def)
  have gc: "get_counterpart (Dense [[1, exp (- 1)], [exp (- 1), 1]]) (Some [0 \<mapsto> 0, 1 \<mapsto> 1]) =
      Inr ([0, 1], [0 \<mapsto> 0, 1 \<mapsto> 1])"
    using exp_neg_one_less
    by (simp add: get_counterpart_def counterpart_step_def target_of_def argsort_def numeral_2_eq_2 Let_def)
  show ?thesis using example_graph4 al gc by (simp add: main_def graph_nodes_empty example_embedding2 default_args_def)
qed

subsection \<open>Properties of the pipeline\<close>

text \<open>
  Claim C12. The dense matcher with \<open>--embsim cosine\<close> (lines 102--103):
  every entry of the alignment matrix it returns lies between -1 and 1; it is
  1 where the aligned row equals the row of the second embedding and -1
  where it is its negation (for a row of non-zero norm).
\<close>

theorem match_nodes_cosine_bounds:
  assumes "match_nodes a X Y = Inr (Dense C)" and "embsim a = ''cosine''"
    and "i < length X" and "j < length Y"
  shows "- 1 \<le> C ! i ! j \<and> C ! i ! j \<le> 1 \<and>
    (X ! i = Y ! j \<and> row_norm (Y ! j) \<noteq> 0 \<longrightarrow> C ! i ! j = 1) \<and>
    (X ! i = map uminus (Y ! j) \<and> row_norm (Y ! j) \<noteq> 0 \<longrightarrow> C ! i ! j = - 1)"
proof -
  have cs: "cosine_similarity X Y = Inr C"
    using assms(1,2) by (auto simp: match_nodes_def bind_err_eq_Inr split: if_splits option.splits)
  have b: "- 1 \<le> C ! i ! j \<and> C ! i ! j \<le> 1" using cs assms(3,4) by (rule cosine_similarity_bounds)
  have "C ! i ! j = cosine (X ! i) (Y ! j)" using cosine_similarity_Inr [OF cs] assms(3,4) by simp
  then show ?thesis using b cosine_self [of "Y ! j"] cosine_uminus_self [of "Y ! j"] by auto
qed

theorem match_nodes_cosine_bounds_witness:
  "match_nodes (default_args\<lparr>numtop := None, embsim := ''cosine''\<rparr>) [[1, 0]] [[1, 0], [- 1, 0]] =
     Inr (Dense [[1, - 1]]) \<and>
   [[1, 0]] ! 0 = map uminus ([[1, 0], [- 1, 0 :: real]] ! 1) \<and> row_norm ([[1, 0], [- 1, 0]] ! 1) \<noteq> 0 \<and>
   [[1, - 1 :: real]] ! 0 ! 1 = - 1"
proof -
  let ?a = "default_args\<lparr>numtop := None, embsim := ''cosine''\<rparr>"
  have r: "match_nodes ?a [[1, 0]] [[1, 0], [- 1, 0]] = Inr (Dense [[1, - 1]])"
    by (simp add: match_nodes_def default_args_def cosine_similarity_def pairwise_ok_def cosine_def
        normalize_row_def row_norm_def dot_def Let_def)
  have e: "embsim ?a = ''cosine''" by simp
  have h: "[[1, 0]] ! 0 = map uminus ([[1, 0], [- 1, 0 :: real]] ! 1)" "row_norm ([[1, 0], [- 1, 0 :: real]] ! 1) \<noteq> 0"
    by (simp_all add: row_norm_def dot_def)
  show ?thesis using match_nodes_cosine_bounds [OF r e, of 0 1] r h by simp
qed

text \<open>
  Claim C13. The dense matcher with any other \<open>--embsim\<close> (lines 105--106):
  every entry of the alignment matrix \<open>np.exp(-euclidean_distances(...))\<close> is
  positive and at most 1, and it is 1 exactly where the aligned row of the
  first graph equals the row of the second.
\<close>

theorem match_nodes_euclid_bounds:
  assumes "match_nodes a X Y = Inr (Dense C)" and "embsim a \<noteq> ''cosine''"
    and "i < length X" and "j < length Y"
  shows "0 < C ! i ! j \<and> C ! i ! j \<le> 1 \<and> (C ! i ! j = 1 \<longleftrightarrow> X ! i = Y ! j)"
proof -
  obtain D where D: "euclidean_distances X Y = Inr D" and C: "C = exp_neg D"
    using assms(1,2) by (auto simp: match_nodes_def bind_err_eq_Inr split: if_splits option.splits)
  show ?thesis using exp_neg_euclidean_bounds [OF D assms(3,4)] C by simp
qed

theorem match_nodes_euclid_bounds_witness:
  "match_nodes (default_args\<lparr>numtop := None\<rparr>) [[0, 0]] [[0, 0], [3, 4]] = Inr (Dense [[1, exp (- 5 :: real)]]) \<and>
   0 < [[1, exp (- 5 :: real)]] ! 0 ! 1 \<and> [[1, exp (- 5 :: real)]] ! 0 ! 1 \<le> (1 :: real) \<and>
   ([[1, exp (- 5 :: real)]] ! 0 ! 1 = (1 :: real) \<longleftrightarrow> [[0, 0]] ! 0 = [[0 :: real, 0], [3, 4]] ! 1)"
proof -
  let ?a = "default_args\<lparr>numtop := None\<rparr>"
  have s: "sqrt (25 :: real) = 5" by (simp add: real_sqrt_unique)
  have r: "match_nodes ?a [[0, 0]] [[0, 0], [3, 4]] = Inr (Dense [[1, exp (- 5)]])"
    by (simp add: match_nodes_def default_args_def euclidean_distances_def pairwise_ok_def euclid_def s exp_neg_def)
  have e: "embsim ?a \<noteq> ''cosine''" by (simp add: default_args_def)
  show ?thesis using match_nodes_euclid_bounds [OF r e, of 0 1] r by simp
qed

text \<open>Claim C17. Shape through the pipeline: whatever the collaborators return, an
  alignment matrix that \<open>align_embeddings\<close> returns has one row per node of the
  first graph and one column per node of the second; a sparse result is a
  canonical CSR matrix.\<close>

theorem align_embeddings_shape:
  assumes "align_embeddings a B e1 e2 adj1 adj2 s1 s2 = Inr M"
  shows "n_rows M = length e1 \<and>
    (case M of Dense C \<Rightarrow> wf_mat (length e1) (length e2) C
     | Sparse S \<Rightarrow> csr_wf S \<and> csr_nrows S = length e1 \<and> csr_ncols S = length e2)"
proof -
  obtain X where x: "align_spaces a B e1 e2 adj1 adj2 s1 s2 = Inr X" and m: "match_nodes a X e2 = Inr M"
    using assms by (auto simp: align_embeddings_parts)
  show ?thesis using match_nodes_shape [OF m] align_spaces_length [OF x] by (cases M) simp_all
qed

theorem align_embeddings_shape_witness:
  "align_embeddings (default_args\<lparr>numtop := None\<rparr>) example_backend [[2], [1]] [[2], [1]] None None None None =
     Inr (Dense [[1, exp (- 1)], [exp (- 1), 1]]) \<and>
   n_rows (Dense [[1, exp (- 1)], [exp (- 1), 1]]) = length [[2 :: real], [1]] \<and>
   wf_mat (length [[2 :: real], [1]]) (length [[2 :: real], [1]]) [[1, exp (- 1)], [exp (- 1), 1]]"
proof -
  have r: "align_embeddings (default_args\<lparr>numtop := None\<rparr>) example_backend [[2], [1]] [[2], [1]] None None None None =
     Inr (Dense [[1, exp (- 1)], [exp (- 1), 1]])"
    by (simp add: align_embeddings_def align_spaces_def top_prior_def example_backend_def mat_dot_def dot_def
      match_nodes_def default_args_def euclidean_distances_def pairwise_ok_def exp_neg_def euclid_def)
  show ?thesis using align_embeddings_shape [OF r] r by simp
qed

text \<open>Claim C22. With an \<open>alignmethod\<close> other than \<open>greedy\<close>, \<open>align_embeddings\<close> never
  returns a matrix: after a successful alignment it raises \<open>UnboundLocalError\<close>
  (line 107 reads \<open>alignment_matrix\<close>, which no branch assigned), otherwise the
  earlier error.\<close>

theorem align_embeddings_not_greedy:
  assumes "alignmethod a \<noteq> ''greedy''"
  shows "align_embeddings a B e1 e2 adj1 adj2 s1 s2 =
    (case align_spaces a B e1 e2 adj1 adj2 s1 s2 of Inl e \<Rightarrow> Inl e | Inr _ \<Rightarrow> Inl UnboundLocalError)"
  using assms by (simp add: align_embeddings_def match_nodes_def bind_err_def split: sum.split)

theorem align_embeddings_not_greedy_witness:
  "alignmethod (default_args\<lparr>alignmethod := ''hungarian''\<rparr>) \<noteq> ''greedy'' \<and>
   align_spaces (default_args\<lparr>alignmethod := ''hungarian''\<rparr>) example_backend [[2], [1]] [[2], [1]] None None None None =
     Inr [[2], [1]] \<and>
   align_embeddings (default_args\<lparr>alignmethod := ''hungarian''\<rparr>) example_backend [[2], [1]] [[2], [1]] None None None None =
     Inl UnboundLocalError"
proof -
  let ?a = "default_args\<lparr>alignmethod := ''hungarian''\<rparr>"
  have g: "alignmethod ?a \<noteq> ''greedy''" by (simp add: default_args_def)
  have s: "align_spaces ?a example_backend [[2], [1]] [[2], [1]] None None None None = Inr [[2], [1]]"
    by (simp add: align_spaces_def top_prior_def example_backend_def mat_dot_def dot_def)
  show ?thesis using align_embeddings_not_greedy [OF g, of example_backend "[[2], [1]]" "[[2], [1]]" None None None None] g s
    by simp
qed

text \<open>Claim C19. The prior of lines 64--75 (Euclidean metric): each row of the one-hot
  prior has its single 1 at the first column that minimises the distance
  between the rows of \<open>embed1\<close> and \<open>embed2\<close>; the structural embeddings are only
  tested for presence, their values are never read.\<close>

theorem top_prior_first_max:
  assumes "top_prior a e1 e2 (Some s1) (Some s2) = Inr (Some P)" and "embsim a \<noteq> ''cosine''"
    and "i < length e1"
  shows "\<exists>c < length e2. P ! i = map (\<lambda>j. if j = c then 1 else 0) [0..<length e2] \<and>
     (\<forall>j < length e2. euclid (e1 ! i) (e2 ! c) \<le> euclid (e1 ! i) (e2 ! j)) \<and>
     (\<forall>j < c. euclid (e1 ! i) (e2 ! c) < euclid (e1 ! i) (e2 ! j))"
proof -
  obtain D where D: "euclidean_distances e1 e2 = Inr D" and oh: "one_hot_rows (exp_neg D) = Inr P"
    using assms(1,2) by (auto simp: top_prior_def bind_err_eq_Inr)
  have p: "pairwise_ok e1 e2" and D': "D = map (\<lambda>x. map (euclid x) e2) e1"
    using D by (auto simp: euclidean_distances_def split: if_splits)
  let ?row = "map (\<lambda>c. exp (- euclid (e1 ! i) (e2 ! c))) [0..<length e2]"
  have row: "exp_neg D ! i = ?row" using assms(3) by (simp add: D' exp_neg_row)
  have len: "length (exp_neg D) = length e1" by (simp add: D' exp_neg_def)
  have Pi: "P ! i = map (\<lambda>j. if j = argmax_scan ?row 1 0 then 1 else 0) [0..<length e2]"
    using oh assms(3) len row by (simp add: one_hot_rows_Inr)
  have "?row \<noteq> []" using p by (simp add: pairwise_ok_def)
  then have am: "argmax_scan ?row 1 0 < length ?row \<and> (\<forall>j < length ?row. ?row ! j \<le> ?row ! argmax_scan ?row 1 0) \<and>
      (\<forall>j < argmax_scan ?row 1 0. ?row ! j < ?row ! argmax_scan ?row 1 0)"
    by (rule argmax_first_max)
  show ?thesis
  proof (intro exI conjI allI impI)
    show "argmax_scan ?row 1 0 < length e2" using am by simp
    show "P ! i = map (\<lambda>j. if j = argmax_scan ?row 1 0 then 1 else 0) [0..<length e2]" by (rule Pi)
  next
    fix j assume "j < length e2"
    then show "euclid (e1 ! i) (e2 ! argmax_scan ?row 1 0) \<le> euclid (e1 ! i) (e2 ! j)" using am by auto
  next
    fix j assume "j < argmax_scan ?row 1 0"
    then show "euclid (e1 ! i) (e2 ! argmax_scan ?row 1 0) < euclid (e1 ! i) (e2 ! j)" using am by auto
  qed
qed

theorem top_prior_first_max_witness:
  "top_prior default_args [[0]] [[1], [0], [0]] (Some [[5]]) (Some [[7]]) = Inr (Some [[0, 1, 0]]) \<and>
   (\<exists>c < length [[1], [0], [0 :: real]]. [[0, 1, 0 :: real]] ! 0 = map (\<lambda>j. if j = c then 1 else 0) [0..<length [[1], [0], [0 :: real]]] \<and>
     (\<forall>j < length [[1], [0], [0 :: real]]. euclid ([[0]] ! 0) ([[1], [0], [0]] ! c) \<le> euclid ([[0]] ! 0) ([[1], [0], [0]] ! j)) \<and>
     (\<forall>j < c. euclid ([[0]] ! 0) ([[1], [0], [0]] ! c) < euclid ([[0]] ! 0) ([[1], [0], [0]] ! j)))"
proof -
  have r: "top_prior default_args [[0]] [[1], [0], [0]] (Some [[5]]) (Some [[7]]) = Inr (Some [[0, 1, 0]])"
    using exp_neg_one_less
    by (simp add: top_prior_def default_args_def euclidean_distances_def pairwise_ok_def euclid_def exp_neg_def
        one_hot_rows_def argmax_scan.simps)
  have e: "embsim default_args \<noteq> ''cosine''" by (simp add: default_args_def)
  show ?thesis
  proof (rule conjI [OF r])
    show "\<exists>c < length [[1], [0], [0 :: real]]. [[0, 1, 0 :: real]] ! 0 = map (\<lambda>j. if j = c then 1 else 0) [0..<length [[1], [0], [0 :: real]]] \<and>
     (\<forall>j < length [[1], [0], [0 :: real]]. euclid ([[0]] ! 0) ([[1], [0], [0]] ! c) \<le> euclid ([[0]] ! 0) ([[1], [0], [0]] ! j)) \<and>
     (\<forall>j < c. euclid ([[0]] ! 0) ([[1], [0], [0]] ! c) < euclid ([[0]] ! 0) ([[1], [0], [0]] ! j))"
      by (rule top_prior_first_max [OF r e]) simp
  qed
qed

text \<open>Claim C20. The stored alignment (lines 195--198): when it is built, it is an
  \<open>n \<times> n\<close> matrix whose row \<open>j\<close> is the indicator of node \<open>j\<close>'s counterpart.\<close>

theorem store_binary_sim_one_hot:
  assumes "store_binary_sim n cd = Inr M"
  shows "wf_mat n n M \<and> (\<forall>j < n. \<exists>c < n. cd j = Some c \<and> M ! j = map (\<lambda>k. if k = c then 1 else 0) [0..<n])"
proof -
  have l: "(\<forall>j < n. \<exists>c < n. cd j = Some c) \<and> length M = n \<and>
    (\<forall>i < n. M ! i = (replicate n 0)[the (cd i) := 1])"
    using binary_sim_loop_Inr [OF assms [unfolded store_binary_sim_def]] by auto
  have rows: "\<forall>j < n. \<exists>c < n. cd j = Some c \<and> M ! j = map (\<lambda>k. if k = c then 1 else 0) [0..<n]"
  proof (intro allI impI)
    fix j assume j: "j < n"
    from l j have "\<exists>c < n. cd j = Some c" by blast
    then obtain c where c: "cd j = Some c" "c < n" by blast
    then have "M ! j = map (\<lambda>k. if k = c then 1 else 0) [0..<n]" using l j by (simp add: one_hot_update)
    with c show "\<exists>c < n. cd j = Some c \<and> M ! j = map (\<lambda>k. if k = c then 1 else 0) [0..<n]" by blast
  qed
  have "\<forall>row \<in> set M. length row = n" using l by (auto simp: in_set_conv_nth)
  with l rows show ?thesis by (simp add: wf_mat_def)
qed

theorem store_binary_sim_one_hot_witness:
  "store_binary_sim 2 [0 \<mapsto> 1, 1 \<mapsto> 0] = Inr [[0, 1], [1, 0]] \<and>
   wf_mat 2 2 [[0, 1], [1, 0 :: real]] \<and>
   (\<exists>c < 2. [0 \<mapsto> 1, 1 \<mapsto> 0] (1 :: nat) = Some c \<and> [1, 0 :: real] = map (\<lambda>k. if k = c then 1 else 0) [0..<2])"
proof -
  have r: "store_binary_sim 2 [0 \<mapsto> 1, 1 \<mapsto> 0] = Inr [[0, 1], [1, 0]]"
    by (simp add: store_binary_sim_def numeral_2_eq_2 upt_rec)
  show ?thesis using store_binary_sim_one_hot [OF r] r by (auto dest: spec [of _ 1])
qed

text \<open>Claim C21. The stored alignment is \<open>node_num \<times> node_num\<close>, but counterparts range
  over the columns of the second graph: the first node whose counterpart is
  not below \<open>node_num\<close> raises \<open>IndexError\<close>.\<close>

theorem store_binary_sim_index_error:
  assumes "i < n" and "\<forall>j < i. \<exists>c < n. cd j = Some c" and "cd i = Some c" and "n \<le> c"
  shows "store_binary_sim n cd = Inl IndexError"
proof -
  have "binary_sim_loop n cd ([0..<i] @ i # [Suc i..<n]) (replicate n (replicate n 0)) = Inl IndexError"
    using assms(2-4) by (intro binary_sim_loop_err) auto
  then show ?thesis using upt_split_at [OF assms(1)] by (simp add: store_binary_sim_def)
qed

theorem store_binary_sim_index_error_witness:
  "(1 :: nat) < 2 \<and> [0 \<mapsto> 1, 1 \<mapsto> 2] (1 :: nat) = Some (2 :: nat) \<and>
   store_binary_sim 2 [0 \<mapsto> 1, 1 \<mapsto> 2] = Inl IndexError"
proof -
  have "store_binary_sim 2 [0 \<mapsto> 1, 1 \<mapsto> 2] = Inl IndexError"
    by (rule store_binary_sim_index_error [of 1 2 _ 2]) simp_all
  then show ?thesis by simp
qed

text \<open>Claim C23. \<open>main\<close> on a non-empty edge list with an \<open>embmethod\<close> other
  than \<open>netMF\<close> raises \<open>UnboundLocalError\<close> (a \<open>NameError\<close>):
  \<open>emb_matrixA\<close> is only assigned in the \<open>netMF\<close> branch.\<close>

theorem main_name_error:
  "embmethod a \<noteq> ''netMF'' \<Longrightarrow> es \<noteq> [] \<Longrightarrow> main a B t es = Inl UnboundLocalError"
  by (simp add: main_def graph_nodes_empty split: prod.split)

theorem main_name_error_witness:
  "embmethod (default_args\<lparr>embmethod := ''DeepWalk''\<rparr>) \<noteq> ''netMF'' \<and> [(0 :: int, 1 :: int)] \<noteq> [] \<and>
   main (default_args\<lparr>embmethod := ''DeepWalk''\<rparr>) example_backend Map.empty [(0, 1)] = Inl UnboundLocalError"
proof -
  have e: "embmethod (default_args\<lparr>embmethod := ''DeepWalk''\<rparr>) \<noteq> ''netMF''" by (simp add: default_args_def)
  have n: "[(0 :: int, 1 :: int)] \<noteq> []" by simp
  show ?thesis using main_name_error [OF e n] e n by simp
qed

text \<open>Claim C18. The score of \<open>main\<close> lies in [0, 1], for every collaborator whose
  embedding has one row per node of its block.\<close>

theorem main_score_bounds:
  assumes "main a B t es = Inr r" and "\<forall>A d w b nm. length (netmf B A d w b nm) = length A"
  shows "0 \<le> run_score r \<and> run_score r \<le> 1"
proof -
  obtain n adjA adjB M c cd where sp: "split_blocks (adjacency es) = (n, adjA, adjB)"
    and al: "align_embeddings a B (netmf B adjA (dim a) (window a) (negative a) True)
           (netmf B adjB (dim a) (window a) (negative a) True)
           (Some (Sparse (csr_of_dense adjA))) (Some (Sparse (csr_of_dense adjB))) None None = Inr M"
    and gc: "get_counterpart M (Some t) = Inr (c, cd)" and n: "0 < n"
    and sc: "run_score r = real (length c) / real n"
    using main_Inr [OF assms(1)] by metis
  have "n_rows M = n"
    using align_embeddings_rows [OF al] assms(2) main_nodes [OF sp] by simp
  then have "length c \<le> n"
    using get_counterpart_Inr [OF gc] by (auto intro: order_trans [OF length_filter_le])
  with n sc show ?thesis by simp
qed

theorem main_score_bounds_witness:
  "main (default_args\<lparr>numtop := None\<rparr>) example_backend [0 \<mapsto> 0, 1 \<mapsto> 1] [(0, 1), (2, 3)] =
     Inr \<lparr>run_score = 1, run_correct = [0, 1], run_counterparts = [0 \<mapsto> 0, 1 \<mapsto> 1], run_binary_sim = None\<rparr> \<and>
   0 \<le> (1::real) \<and> (1::real) \<le> 1"
proof -
  have nm: "\<forall>A d w b nm. length (netmf example_backend A d w b nm) = length A"
    by (simp add: example_netmf)
  show ?thesis using main_score_bounds [OF example_run_dense nm] example_run_dense by simp
qed

text \<open>
  Claim C32. The prints of lines 85--86 are not inert: when the convex
  initialisation returns a \<open>corr_mat\<close> without rows or without columns,
  \<open>np.max(corr_mat, axis=0)\<close> or \<open>np.max(corr_mat, axis=1)\<close> raises
  \<open>ValueError\<close> and \<open>align_embeddings\<close> stops before the optimisation.
\<close>

theorem align_spaces_corr_mat_error:
  assumes "top_prior a e1 e2 s1 s2 = Inr corr"
    and "convex_init_sparse B e1 e2 (as_csr A1) (as_csr A2) False (niter_init a) (reg_init a) corr =
      Inr (init_sim, corr_mat)"
    and "corr_mat = [] \<or> [] \<in> set corr_mat"
  shows "align_spaces a B e1 e2 (Some A1) (Some A2) s1 s2 = Inl ValueError"
  using assms by (simp add: align_spaces_def)

theorem align_spaces_corr_mat_error_witness:
  "top_prior default_args [[1]] [[1]] None None = Inr None \<and>
   convex_init_sparse (example_backend\<lparr>convex_init_sparse := (\<lambda>X Y KX KY sq it r P. Inr ([[1]], []))\<rparr>)
     [[1]] [[1]] (as_csr (Dense [[0]])) (as_csr (Dense [[0]])) False (niter_init default_args) (reg_init default_args) None =
     Inr ([[1]], []) \<and>
   align_spaces default_args (example_backend\<lparr>convex_init_sparse := (\<lambda>X Y KX KY sq it r P. Inr ([[1]], []))\<rparr>)
     [[1]] [[1]] (Some (Dense [[0]])) (Some (Dense [[0]])) None None = Inl ValueError"
proof -
  let ?B = "example_backend\<lparr>convex_init_sparse := (\<lambda>X Y KX KY sq it r P. Inr ([[1]], []))\<rparr>"
  have t: "top_prior default_args [[1]] [[1]] None None = Inr None" by (simp add: top_prior_def)
  have ci: "convex_init_sparse ?B [[1]] [[1]] (as_csr (Dense [[0]])) (as_csr (Dense [[0]])) False
      (niter_init default_args) (reg_init default_args) None = Inr ([[1]], [])" by simp
  have e: "([] :: mat) = [] \<or> [] \<in> set ([] :: mat)" by simp
  show ?thesis using align_spaces_corr_mat_error [OF t ci e] t ci by simp
qed


end
