(* ===== verification/Run.thy ===== *)
theory Run
  imports Pipeline
begin

text \<open>
  Whole runs of \<open>main\<close>: when a run completes, which nodes it counts as
  correct, and the errors that end a run after the expensive stages
  (the stored one-hot matrix on unequal blocks, the unvalidated
  \<open>numtop\<close>).
\<close>

subsection \<open>Completion of the stages\<close>

lemma dense_candidates:
  assumes "wf_mat n m A" and "0 < m"
  shows "rows_nonempty (Dense A) \<and> (\<forall>i < n. \<forall>c \<in> set (node_sorted_indices (Dense A) i). c < m)"
  using dense_rows_nonempty [OF assms] assms(1) by (auto simp: wf_mat_def)

lemma match_nodes_ok:
  assumes g: "alignmethod a = ''greedy''" and p: "pairwise_ok X Y"
    and k: "numtop a = None \<or> (\<exists>k d. numtop a = Some k \<and> kd_metric (embsim a) = Inr d \<and> 1 \<le> k \<and> k \<le> int (length Y))"
  shows "\<exists>M. match_nodes a X Y = Inr M \<and> n_rows M = length X \<and> rows_nonempty M \<and>
     (\<forall>i < length X. \<forall>c \<in> set (node_sorted_indices M i). c < length Y)"
proof (cases "numtop a")
  case None
  have m0: "0 < length Y" using p by (simp add: pairwise_ok_def)
  show ?thesis
  proof (cases "embsim a = ''cosine''")
    case True
    let ?A = "map (\<lambda>x. map (cosine x) Y) X"
    have "match_nodes a X Y = Inr (Dense ?A)" using None True g p by (simp add: match_nodes_def cosine_similarity_def)
    moreover have "wf_mat (length X) (length Y) ?A" by (simp add: wf_mat_def)
    ultimately show ?thesis using dense_candidates [of "length X" "length Y" ?A] m0 by auto
  next
    case False
    let ?A = "exp_neg (map (\<lambda>x. map (euclid x) Y) X)"
    have "match_nodes a X Y = Inr (Dense ?A)" using None False g p by (simp add: match_nodes_def euclidean_distances_ok)
    moreover have "wf_mat (length X) (length Y) ?A" by (simp add: exp_neg_def wf_mat_def)
    ultimately show ?thesis using dense_candidates [of "length X" "length Y" ?A] m0 by (auto simp: exp_neg_def)
  qed
next
  case (Some k)
  with k obtain d where d: "kd_metric (embsim a) = Inr d" and k1: "1 \<le> k" and k2: "k \<le> int (length Y)" by auto
  have k0: "0 \<le> k" using k1 by simp
  obtain S where S: "kd_align X Y (embsim a) k = Inr S" using kd_align_eq [OF d p k0 k2] by blast
  have m: "match_nodes a X Y = Inr (Sparse S)" using Some g S by (simp add: match_nodes_def)
  have nr: "csr_nrows S = length X" using kd_align_Inr [OF S] by auto
  have row: "length (csr_find_row S i) = nat k \<and> (\<forall>e \<in> set (csr_find_row S i). fst e < length Y)"
    if "i < length X" for i
    using kd_align_knn_row [OF S d that] by blast
  have "rows_nonempty (Sparse S)"
    using row k1 nr by (intro sparse_rows_nonempty) (auto simp flip: length_greater_0_conv)
  moreover have "\<forall>i < length X. \<forall>c \<in> set (node_sorted_indices (Sparse S) i). c < length Y"
    using row by (auto simp: node_sorted_indices_def)
  ultimately show ?thesis using m nr by auto
qed

lemma binary_sim_loop_ok:
  "\<forall>j \<in> set js. \<exists>c < n. cd j = Some c \<Longrightarrow> \<exists>M'. binary_sim_loop n cd js M = Inr M'"
  by (induction js arbitrary: M) auto

lemma kd_metric_Inl: "kd_metric m = Inl e \<Longrightarrow> e = ValueError"
  by (simp add: kd_metric_def split: if_splits)

lemma kd_align_ValueError:
  "k < 0 \<or> int (length Y) < k \<Longrightarrow> kd_align X Y m k = Inl ValueError"
  by (cases "kd_metric m") (auto simp: kd_align_def dest: kd_metric_Inl)

lemma get_counterpart_targets:
  assumes "get_counterpart M (Some t) = Inr (c, cd)"
  shows "c = filter (\<lambda>i. map_option int (cd i) = t i) [0..<n_rows M] \<and>
    dom cd = {..<n_rows M} \<and> (\<forall>j < n_rows M. cd j = Some (last (node_sorted_indices M j)))"
proof -
  from get_counterpart_Inr [OF assms]
  have ok: "targets_ok (Some t) (n_rows M)"
    and c: "c = filter (\<lambda>i. target (Some t) i = int (last (node_sorted_indices M i))) [0..<n_rows M]"
    and cd: "cd = (\<lambda>j. if j < n_rows M then Some (last (node_sorted_indices M j)) else None)"
    by simp_all
  have "target (Some t) i = int (last (node_sorted_indices M i)) \<longleftrightarrow> map_option int (cd i) = t i"
    if "i < n_rows M" for i
    using ok that by (auto simp: targets_ok_def target_def cd split: option.splits)
  then have "c = filter (\<lambda>i. map_option int (cd i) = t i) [0..<n_rows M]"
    unfolding c by (intro filter_cong) auto
  moreover have "dom cd = {..<n_rows M}" by (auto simp: cd split: if_splits)
  ultimately show ?thesis by (simp add: cd)
qed

text \<open>The k-d tree path with \<open>numtop = |B|\<close> and the dense path feed the evaluator alike.\<close>

lemma match_all_eq_dense:
  assumes e: "embsim a = ''euclidean''" and k: "numtop a = Some (int (length Y))"
  shows "bind_err (match_nodes a X Y) (\<lambda>M. bind_err (get_counterpart M ta) g) =
    bind_err (match_nodes (a\<lparr>numtop := None\<rparr>) X Y) (\<lambda>M. bind_err (get_counterpart M ta) g)"
proof (cases "alignmethod a = ''greedy''")
  case False
  then show ?thesis by (simp add: match_nodes_def)
next
  case g: True
  show ?thesis
  proof (cases "pairwise_ok X Y")
    case True
    then show ?thesis
      using g e k by (simp add: match_nodes_def kd_align_all_rows euclidean_distances_ok kd_all_counterpart_eq)
  next
    case False
    then show ?thesis
      using g e k by (simp add: match_nodes_def kd_align_def kd_metric_def euclidean_distances_def)
  qed
qed

subsection \<open>Properties of whole runs\<close>

text \<open>
  Claim C27. A run of \<open>main\<close> completes and returns a score when the
  configuration is one the code handles: \<open>netMF\<close> embeddings, at least one
  node per block, an alignment that succeeds with rows as wide as those of
  the second embedding, greedy matching that is dense or a k-d tree query
  with a supported metric and \<open>1 \<le> numtop \<le> |B|\<close>, ground truth for every
  row, and, when the one-hot matrix is stored, at least \<open>node_num\<close> aligned
  rows and at most \<open>node_num\<close> nodes in the second block.
\<close>

theorem main_runs:
  assumes sp: "split_blocks (adjacency es) = (n, adjA, adjB)" and nm: "embmethod a = ''netMF''"
    and al: "align_spaces a B (netmf B adjA (dim a) (window a) (negative a) True)
        (netmf B adjB (dim a) (window a) (negative a) True)
        (Some (Sparse (csr_of_dense adjA))) (Some (Sparse (csr_of_dense adjB))) None None = Inr X"
    and g: "alignmethod a = ''greedy''"
    and p: "pairwise_ok X (netmf B adjB (dim a) (window a) (negative a) True)"
    and k: "numtop a = None \<or> (\<exists>k d. numtop a = Some k \<and> kd_metric (embsim a) = Inr d \<and> 1 \<le> k \<and>
              k \<le> int (length (netmf B adjB (dim a) (window a) (negative a) True)))"
    and t: "\<forall>i < length X. t i \<noteq> None" and n: "0 < n"
    and st: "store_align a \<longrightarrow> n \<le> length X \<and> length (netmf B adjB (dim a) (window a) (negative a) True) \<le> n"
  shows "\<exists>r. main a B t es = Inr r \<and> (run_binary_sim r \<noteq> None \<longleftrightarrow> store_align a)"
proof -
  let ?eB = "netmf B adjB (dim a) (window a) (negative a) True"
  obtain M where m: "match_nodes a X ?eB = Inr M" and nr: "n_rows M = length X"
    and ne: "rows_nonempty M" and cand: "\<forall>i < length X. \<forall>c \<in> set (node_sorted_indices M i). c < length ?eB"
    using match_nodes_ok [OF g p k] by blast
  have ae: "align_embeddings a B (netmf B adjA (dim a) (window a) (negative a) True) ?eB
      (Some (Sparse (csr_of_dense adjA))) (Some (Sparse (csr_of_dense adjB))) None None = Inr M"
    using al m by (simp add: align_embeddings_def)
  have "targets_ok (Some t) (n_rows M)" using t nr by (simp add: targets_ok_def)
  then obtain c cd where gc: "get_counterpart M (Some t) = Inr (c, cd)"
    using get_counterpart_ok [OF _ ne] by blast
  have cdj: "\<forall>j < n_rows M. cd j = Some (last (node_sorted_indices M j))"
    using get_counterpart_targets [OF gc] by blast
  show ?thesis
  proof (cases "store_align a")
    case True
    have "\<forall>j \<in> set [0..<n]. \<exists>c' < n. cd j = Some c'"
    proof
      fix j assume "j \<in> set [0..<n]"
      then have j: "j < length X" using st True by auto
      then have "node_sorted_indices M j \<noteq> []" using ne nr by (simp add: rows_nonempty_def)
      then have "last (node_sorted_indices M j) < length ?eB" using cand j by simp
      then show "\<exists>c' < n. cd j = Some c'" using cdj j nr st True by auto
    qed
    then obtain bs where "store_binary_sim n cd = Inr bs"
      using binary_sim_loop_ok unfolding store_binary_sim_def by blast
    then show ?thesis using sp nm ae gc n True main_graph_nonempty [OF sp n] by (simp add: main_def Let_def)
  next
    case False
    then show ?thesis using sp nm ae gc n main_graph_nonempty [OF sp n] by (simp add: main_def Let_def)
  qed
qed

theorem main_runs_witness:
  "\<exists>r. main (default_args\<lparr>numtop := Some 1, store_align := True\<rparr>) example_backend [0 \<mapsto> 0, 1 \<mapsto> 1] [(0, 1), (2, 3)] = Inr r \<and>
     (run_binary_sim r \<noteq> None \<longleftrightarrow> store_align (default_args\<lparr>numtop := Some 1, store_align := True\<rparr>))"
proof -
  let ?a = "default_args\<lparr>numtop := Some 1, store_align := True\<rparr>"
  have al: "align_spaces ?a example_backend (netmf example_backend [[0, 1], [1, 0]] (dim ?a) (window ?a) (negative ?a) True)
      (netmf example_backend [[0, 1], [1, 0]] (dim ?a) (window ?a) (negative ?a) True)
      (Some (Sparse (csr_of_dense [[0, 1], [1, 0]]))) (Some (Sparse (csr_of_dense [[0, 1], [1, 0]]))) None None =
      Inr [[2], [1]]"
    by (simp add: example_align_spaces example_embedding2 mat_dot_def dot_def)
  have nm: "embmethod ?a = ''netMF''" and g: "alignmethod ?a = ''greedy''" by (simp_all add: default_args_def)
  have p: "pairwise_ok [[2], [1]] (netmf example_backend [[0, 1], [1, 0]] (dim ?a) (window ?a) (negative ?a) True)"
    by (simp add: example_embedding2 pairwise_ok_def)
  have k: "numtop ?a = None \<or> (\<exists>k d. numtop ?a = Some k \<and> kd_metric (embsim ?a) = Inr d \<and> 1 \<le> k \<and>
      k \<le> int (length (netmf example_backend [[0, 1], [1, 0]] (dim ?a) (window ?a) (negative ?a) True)))"
    by (simp add: example_embedding2 kd_metric_def default_args_def)
  have t: "\<forall>i < length [[2], [1 :: real]]. [0 \<mapsto> 0, 1 \<mapsto> (1 :: int)] i \<noteq> None"
    by (simp add: less_Suc_eq numeral_2_eq_2)
  have st: "store_align ?a \<longrightarrow> 2 \<le> length [[2], [1 :: real]] \<and>
      length (netmf example_backend [[0, 1], [1, 0]] (dim ?a) (window ?a) (negative ?a) True) \<le> 2"
    by (simp add: example_embedding2)
  show ?thesis by (rule main_runs [OF example_graph4 nm al g p k t _ st]) simp
qed

text \<open>
  Claim C28. What a completed run reports, for every embedding with one row
  per node of its block: the correct nodes are, in increasing order, exactly
  the nodes of the first block whose ground-truth target is their
  counterpart; every node of the first block has a counterpart; the score
  is the share of correct nodes.
\<close>

theorem main_correct_nodes:
  assumes r: "main a B t es = Inr r" and rows: "\<forall>A d w b nm. length (netmf B A d w b nm) = length A"
  shows "run_correct r = filter (\<lambda>i. map_option int (run_counterparts r i) = t i) [0..<fst (split_blocks (adjacency es))] \<and>
    dom (run_counterparts r) = {..<fst (split_blocks (adjacency es))} \<and>
    run_score r = real (length (run_correct r)) / real (fst (split_blocks (adjacency es)))"
proof -
  obtain n adjA adjB M c cd where sp: "split_blocks (adjacency es) = (n, adjA, adjB)"
    and al: "align_embeddings a B (netmf B adjA (dim a) (window a) (negative a) True)
           (netmf B adjB (dim a) (window a) (negative a) True)
           (Some (Sparse (csr_of_dense adjA))) (Some (Sparse (csr_of_dense adjB))) None None = Inr M"
    and gc: "get_counterpart M (Some t) = Inr (c, cd)"
    and sc: "run_score r = real (length c) / real n" and rc: "run_correct r = c" and rd: "run_counterparts r = cd"
    using main_Inr [OF r] by metis
  have "n_rows M = n"
    using align_embeddings_rows [OF al] rows main_nodes [OF sp] by simp
  then show ?thesis using get_counterpart_targets [OF gc] sp sc rc rd by simp
qed

theorem main_correct_nodes_witness:
  "[0, 1] = filter (\<lambda>i. map_option int ([0 \<mapsto> 0, 1 \<mapsto> 1] i) = [0 \<mapsto> 0, 1 \<mapsto> (1 :: int)] i) [0..<2] \<and>
   dom [(0 :: nat) \<mapsto> (0 :: nat), 1 \<mapsto> 1] = {..<2} \<and> (1 :: real) = real (length [0 :: nat, 1]) / real (2 :: nat)"
proof -
  have rows: "\<forall>A d w b nm. length (netmf example_backend A d w b nm) = length A"
    by (simp add: example_netmf)
  show ?thesis using main_correct_nodes [OF example_run_dense rows] example_graph4 by simp
qed

text \<open>
  Claim C29. The stored one-hot matrix is \<open>node_num \<times> node_num\<close> while the
  counterparts index the second block: a run with \<open>--store_align\<close> that gets
  through the evaluation raises \<open>IndexError\<close> at the first node whose
  counterpart is not below \<open>node_num\<close>, after the score was computed.
\<close>

theorem main_store_index_error:
  assumes sp: "split_blocks (adjacency es) = (n, adjA, adjB)" and nm: "embmethod a = ''netMF''"
    and al: "align_embeddings a B (netmf B adjA (dim a) (window a) (negative a) True)
        (netmf B adjB (dim a) (window a) (negative a) True)
        (Some (Sparse (csr_of_dense adjA))) (Some (Sparse (csr_of_dense adjB))) None None = Inr M"
    and gc: "get_counterpart M (Some t) = Inr (c, cd)" and st: "store_align a"
    and i: "i < n" and before: "\<forall>j < i. \<exists>c' < n. cd j = Some c'" and ci: "cd i = Some c'" and big: "n \<le> c'"
  shows "main a B t es = Inl IndexError"
proof -
  have "binary_sim_loop n cd ([0..<i] @ i # [Suc i..<n]) (replicate n (replicate n 0)) = Inl IndexError"
    using before ci big by (intro binary_sim_loop_err) auto
  then have "store_binary_sim n cd = Inl IndexError"
    using upt_split_at [OF i] by (simp add: store_binary_sim_def)
  moreover have "graph_nodes es \<noteq> []" using main_graph_nonempty [OF sp] i by simp
  ultimately show ?thesis using sp nm al gc st i by (simp add: main_def Let_def)
qed

lemma example_graph5:
  "split_blocks (adjacency [(0, 1), (2, 3), (3, 4)]) = (2, [[0, 1], [1, 0]], [[0, 1, 0], [1, 0, 1], [0, 1, 0]])"
proof -
  have g: "graph_nodes [(0, 1), (2, 3), (3, 4)] = [0, 1, 2, 3, 4]" by (simp add: graph_nodes_def add_node_def)
  show ?thesis by (simp add: adjacency_def g split_blocks_def has_edge_def Let_def)
qed

theorem main_store_index_error_witness:
  "main (default_args\<lparr>numtop := None, store_align := True\<rparr>) example_backend [0 \<mapsto> 0, 1 \<mapsto> 1]
     [(0, 1), (2, 3), (3, 4)] = Inl IndexError"
proof -
  let ?a = "default_args\<lparr>numtop := None, store_align := True\<rparr>"
  let ?M = "Dense [[exp (- 1), 1, exp (- 1)], [exp (- 2), exp (- 1), 1]]"
  have e3: "netmf example_backend [[0, 1, 0], [1, 0, 1], [0, 1, 0]] d w b nm = [[3], [2], [1]]" for d w b nm
    by (simp add: example_netmf numeral_3_eq_3 upt_rec)
  have s4: "sqrt 4 = (2 :: real)" by (rule real_sqrt_unique) simp_all
  have al: "align_embeddings ?a example_backend (netmf example_backend [[0, 1], [1, 0]] (dim ?a) (window ?a) (negative ?a) True)
      (netmf example_backend [[0, 1, 0], [1, 0, 1], [0, 1, 0]] (dim ?a) (window ?a) (negative ?a) True)
      (Some (Sparse (csr_of_dense [[0, 1], [1, 0]]))) (Some (Sparse (csr_of_dense [[0, 1, 0], [1, 0, 1], [0, 1, 0]])))
      None None = Inr ?M"
    using s4 by (simp add: align_embeddings_def example_align_spaces example_embedding2 e3 mat_dot_def dot_def
      match_nodes_def default_args_def euclidean_distances_def pairwise_ok_def exp_neg_def euclid_def)
  have x1: "exp (- 1) < (1 :: real)" and x2: "exp (- 2) < exp (- 1 :: real)" and x3: "exp (- 2) < (1 :: real)"
    by simp_all
  have gc: "get_counterpart ?M (Some [0 \<mapsto> 0, 1 \<mapsto> 1]) = Inr ([], [0 \<mapsto> 1, 1 \<mapsto> 2])"
    using x1 x2 x3
    by (simp add: get_counterpart_def counterpart_step_def target_of_def argsort_def numeral_2_eq_2 numeral_3_eq_3 Let_def)
  have nm: "embmethod ?a = ''netMF''" and st: "store_align ?a" by (simp_all add: default_args_def)
  have before: "\<forall>j < (1 :: nat). \<exists>c' < 2. [0 \<mapsto> (1 :: nat), 1 \<mapsto> 2] j = Some c'" by auto
  have i: "(1 :: nat) < 2" and ci: "[0 \<mapsto> (1 :: nat), 1 \<mapsto> 2] (1 :: nat) = Some 2" and big: "(2 :: nat) \<le> 2"
    by simp_all
  show ?thesis by (rule main_store_index_error [OF example_graph5 nm al gc st i before ci big])
qed

text \<open>
  Claim C30. \<open>numtop\<close> is never validated: a run whose \<open>numtop\<close> is negative
  or above the size of the second block raises \<open>ValueError\<close> in the k-d tree
  query, after the embeddings and the alignment have been computed.
\<close>

theorem main_num_top_error:
  assumes sp: "split_blocks (adjacency es) = (n, adjA, adjB)" and nm: "embmethod a = ''netMF''"
    and al: "align_spaces a B (netmf B adjA (dim a) (window a) (negative a) True)
        (netmf B adjB (dim a) (window a) (negative a) True)
        (Some (Sparse (csr_of_dense adjA))) (Some (Sparse (csr_of_dense adjB))) None None = Inr X"
    and g: "alignmethod a = ''greedy''" and k: "numtop a = Some k"
    and bad: "k < 0 \<or> int (length (netmf B adjB (dim a) (window a) (negative a) True)) < k"
    and ne: "es \<noteq> []"
  shows "main a B t es = Inl ValueError"
proof -
  have "match_nodes a X (netmf B adjB (dim a) (window a) (negative a) True) = Inl ValueError"
    using g k kd_align_ValueError [OF bad] by (simp add: match_nodes_def)
  then show ?thesis using sp nm al ne by (simp add: main_def Let_def align_embeddings_def graph_nodes_empty)
qed

theorem main_num_top_error_witness:
  "main default_args example_backend [0 \<mapsto> 0, 1 \<mapsto> 1] [(0, 1), (2, 3)] = Inl ValueError"
proof -
  have al: "align_spaces default_args example_backend (netmf example_backend [[0, 1], [1, 0]] (dim default_args) (window default_args) (negative default_args) True)
      (netmf example_backend [[0, 1], [1, 0]] (dim default_args) (window default_args) (negative default_args) True)
      (Some (Sparse (csr_of_dense [[0, 1], [1, 0]]))) (Some (Sparse (csr_of_dense [[0, 1], [1, 0]]))) None None =
      Inr [[2], [1]]"
    by (simp add: example_align_spaces example_embedding2 mat_dot_def dot_def)
  have nm: "embmethod default_args = ''netMF''" and g: "alignmethod default_args = ''greedy''"
    and k: "numtop default_args = Some 10" by (simp_all add: default_args_def)
  have bad: "10 < (0 :: int) \<or> int (length (netmf example_backend [[0, 1], [1, 0]] (dim default_args) (window default_args) (negative default_args) True)) < 10"
    by (simp add: example_embedding2)
  have ne: "[(0 :: int, 1 :: int), (2, 3)] \<noteq> []" by simp
  show ?thesis by (rule main_num_top_error [OF example_graph4 nm al g k bad ne])
qed

text \<open>
  Claim C31. At the level of \<open>main\<close>, the k-d tree matcher with \<open>numtop\<close>
  equal to the size of the second embedding and the Euclidean metric is
  indistinguishable from the dense matcher: the two configurations give the
  same result or the same error on every input.
\<close>

theorem main_top_all_eq_dense:
  assumes sp: "split_blocks (adjacency es) = (n, adjA, adjB)" and e: "embsim a = ''euclidean''"
    and k: "numtop a = Some (int (length (netmf B adjB (dim a) (window a) (negative a) True)))"
  shows "main a B t es = main (a\<lparr>numtop := None\<rparr>) B t es"
proof -
  have s: "embmethod (a\<lparr>numtop := None\<rparr>) = embmethod a" "dim (a\<lparr>numtop := None\<rparr>) = dim a"
    "window (a\<lparr>numtop := None\<rparr>) = window a" "negative (a\<lparr>numtop := None\<rparr>) = negative a"
    "store_align (a\<lparr>numtop := None\<rparr>) = store_align a"
    by simp_all
  have h: "\<And>X g. bind_err (match_nodes a X (netmf B adjB (dim a) (window a) (negative a) True)) (\<lambda>M. bind_err (get_counterpart M (Some t)) g) =
    bind_err (match_nodes (a\<lparr>numtop := None\<rparr>) X (netmf B adjB (dim a) (window a) (negative a) True)) (\<lambda>M. bind_err (get_counterpart M (Some t)) g)"
    by (rule match_all_eq_dense [OF e k])
  show ?thesis
    unfolding main_def s align_embeddings_def align_spaces_numtop bind_err_assoc sp Let_def prod.case h ..
qed

theorem main_top_all_eq_dense_witness:
  "main (default_args\<lparr>numtop := Some 2\<rparr>) example_backend [0 \<mapsto> 0, 1 \<mapsto> 1] [(0, 1), (2, 3)] =
     Inr \<lparr>run_score = 1, run_correct = [0, 1], run_counterparts = [0 \<mapsto> 0, 1 \<mapsto> 1], run_binary_sim = None\<rparr>"
proof -
  let ?a = "default_args\<lparr>numtop := Some 2\<rparr>"
  have e: "embsim ?a = ''euclidean''" by (simp add: default_args_def)
  have k: "numtop ?a = Some (int (length (netmf example_backend [[0, 1], [1, 0]] (dim ?a) (window ?a) (negative ?a) True)))"
    by (simp add: example_embedding2)
  have "?a\<lparr>numtop := None\<rparr> = default_args\<lparr>numtop := None\<rparr>" by simp
  then show ?thesis using main_top_all_eq_dense [OF example_graph4 e k] example_run_dense by simp
qed

end
