(* ===== verification/Spec2Isabelle.thy ===== *)
theory Spec2Isabelle
  imports Run
begin

text \<open>
  \<^bold>\<open>A verification development of CONE-Align\<close> (\<open>src/conealign.py\<close>).

  \<^bold>\<open>The program.\<close> \<open>main\<close> reads a combined edge list, builds the dense
  adjacency matrix in networkx node order, splits it into the blocks of graph
  A and graph B, embeds both (\<open>embedding.netmf\<close>), and calls
  \<open>align_embeddings\<close>: an optional one-hot prior from the embeddings'
  similarity, the convex initialisation and the stochastic alternating
  optimisation of \<open>unsup_align\<close> (both outside \<open>src/\<close>), the product
  \<open>embed1.dot(W)\<close>, and greedy matching, either by a k-d tree query of the
  \<open>numtop\<close> nearest rows (\<open>kd_align\<close>, a sparse CSR result) or by the full
  dense similarity. \<open>get_counterpart\<close> then takes, per node of A, the
  best-scoring column as its counterpart and collects the nodes whose
  ground-truth target it is; \<open>main\<close> computes the score (their share) and
  optionally the one-hot alignment matrix.

  \<^bold>\<open>Theories.\<close>
  \<^item> \<open>Prelude\<close>: vectors and row-major matrices as real lists, the Python
    exceptions (\<open>py_error\<close>) and the error bind \<open>bind_err\<close>, matrix shape
    \<open>wf_mat\<close>, and the facts about the last element of a sort behind every
    argsort (it is an input element of largest key).
  \<^item> \<open>Similarity\<close>: scikit-learn's \<open>cosine_similarity\<close> and
    \<open>euclidean_distances\<close> with their input checks (\<open>pairwise_ok\<close>),
    \<open>np.exp(-D)\<close>, \<open>np.argmax\<close> (first maximum, a \<open>function\<close> with a measure),
    \<open>np.argsort\<close>, the one-hot projection of lines 72--75 and \<open>X.dot(W)\<close>.
    The library functions are stated by their documented semantics and
    carry the metric facts and the argmax reference (least index of a
    maximum) as lemmas; the claim is that the one-hot projection puts its 1
    at that index (C26).
  \<^item> \<open>Sparse\<close>: scipy's COO-to-CSR conversion, \<open>csr_matrix\<close> of a dense
    matrix, \<open>sps.find\<close> on a row and densification, with canonical form as
    their invariant.
  \<^item> \<open>Counterpart\<close>: \<open>get_counterpart\<close> (lines 110--133) as a recursion over
    \<open>range(n_nodes)\<close> threading \<open>correct_nodes\<close> and \<open>counterpart_dict\<close>,
    with the \<open>KeyError\<close> and \<open>IndexError\<close> of the source as error values;
    its functional behaviour on dense and sparse input (a column of maximal
    score), the equivalence of the two paths, and the first failing row
    deciding the error (C1--C5).
  \<^item> \<open>KdAlign\<close>: \<open>kd_align\<close> (lines 136--151): the KDTree metric check, the
    query by its k-nearest contract, and the CSR it assembles; exactly the
    k nearest columns per row, at \<open>k = n\<close> the dense similarity, the
    evaluator on it picks a nearest row, and the metric and \<open>num_top\<close>
    errors (C6--C11).
  \<^item> \<open>Graph\<close>: the node order of \<open>nx.read_edgelist\<close>, built one
    \<open>add_edge\<close> at a time and shown to be the order of first appearance
    (C14), the adjacency matrix and the block split of lines 163--167
    (C15, C16).
  \<^item> \<open>Pipeline\<close>: the \<open>parse_args\<close> namespace as the record \<open>args\<close> with
    \<open>default_args\<close>; the collaborators outside \<open>src/\<close> as the record
    \<open>backend\<close> of functions; \<open>align_embeddings\<close> as \<open>align_spaces\<close> (lines
    62--94, with the \<open>ValueError\<close> of the \<open>np.max\<close> prints of lines 85--86)
    followed by \<open>match_nodes\<close> (lines 95--107); the one-hot \<open>binary_sim\<close>
    loop and \<open>main\<close> (lines 154--199) returning a \<open>run_result\<close>;
    \<open>script_main\<close> is the script run with the defaults. The values of the
    dense matcher's entries: cosine in [-1, 1], 1 on an equal and -1 on a
    negated row, and \<open>exp(-d)\<close> in (0, 1] with 1 exactly on equal rows
    (C12, C13); shapes, the score bound, the prior, the stored matrix and
    the error paths (C17--C23, C32, C33).
  \<^item> \<open>Run\<close>: properties of whole runs of \<open>main\<close>: when a run completes
    (C27), what it reports (C28), the \<open>IndexError\<close> of the stored matrix on
    unequal blocks shown end to end on a 5-node edge list (C29), the
    \<open>ValueError\<close> of an unvalidated \<open>numtop\<close>, which the defaults hit on
    every graph with fewer than 10 nodes per block (C30), and the k-d tree
    path with \<open>numtop = |B|\<close> indistinguishable from the dense path (C31).
  \<^item> This theory: the properties that span matcher, evaluator and \<open>main\<close>:
    the identity scenario of the spec recovers every node and scores 1
    (C24, C25).

  \<^bold>\<open>Interfaces.\<close> \<open>embedding.netmf\<close> and \<open>unsup_align\<close> are not under
  \<open>src/\<close>; they are fields of \<open>backend\<close>, and every lemma about the
  pipeline holds for every backend, with the assumptions it needs stated as
  hypotheses (one embedding row per node for the score bound; an
  optimisation that maps one embedding onto the other for the identity
  claims). \<open>example_backend\<close> is a concrete backend for the example runs.

  \<^bold>\<open>Modelling choices.\<close> Floating point is modelled by the reals.
  numpy's argsort leaves the order of equal keys open (an unstable
  introsort for long rows); the model fixes one order, the stable
  \<open>sort_key\<close>, and no property depends on it: each says only that the
  counterpart has a maximal score, or compares two paths that sort the same
  values. The k-d tree search is modelled by its result, the \<open>k\<close> nearest
  rows; a negative \<open>k\<close> raises \<open>ValueError\<close> as numpy does, and \<open>k = 0\<close>,
  for which the library defines no result, is given the empty result and
  used by no property. \<open>numtop\<close> is an \<open>int option\<close>: the command line
  always gives an integer, \<open>None\<close> selects the dense branch that
  \<open>align_embeddings\<close> has for a namespace built in code. No loop of the
  program can run forever: every loop is a structural recursion over a
  finite list, so no fuel is needed.

  \<^bold>\<open>Not modelled.\<close> The code of scikit-learn, numpy, scipy, networkx and
  the k-d tree (libraries the program calls; only their documented results
  are definitions here); reading the pickle and the edge-list file, timing,
  the printed text, the log file and \<open>np.save\<close> (I/O; \<open>main\<close> starts from
  the parsed ground truth and edge list); argparse's parsing of the command
  line (only its namespace and defaults); the numerics of \<open>netmf\<close> and
  \<open>unsup_align\<close> (outside \<open>src/\<close>, kept abstract).
\<close>

section \<open>Properties across components\<close>

text \<open>Greedy Euclidean matching of an embedding against itself, dense or top-k,
  followed by the evaluator, matches every node with itself.\<close>

lemma identity_match:
  assumes p: "pairwise_ok Y Y" and d: "distinct Y" and g: "alignmethod a = ''greedy''"
    and e: "embsim a = ''euclidean''"
    and k: "numtop a = None \<or> (\<exists>k. numtop a = Some k \<and> 1 \<le> k \<and> k \<le> int (length Y))"
    and t: "targets_ok ta (length Y)" and ti: "\<forall>i < length Y. target ta i = int i"
  shows "\<exists>M. match_nodes a Y Y = Inr M \<and>
    get_counterpart M ta = Inr ([0..<length Y], \<lambda>j. if j < length Y then Some j else None)"
proof -
  let ?n = "length Y"
  have self: "c = i" if "i < ?n" "c < ?n" "euclid (Y ! i) (Y ! c) \<le> euclid (Y ! i) (Y ! i)" for i c
    using nearest_is_self [OF d pairwise_ok_rows [OF p that(1)] that] .
  obtain M correct cd where m: "match_nodes a Y Y = Inr M" and nr: "n_rows M = ?n"
    and gc: "get_counterpart M ta = Inr (correct, cd)" and top: "\<forall>i < ?n. cd i = Some i"
  proof (cases "numtop a")
    case None
    let ?A = "exp_neg (map (\<lambda>x. map (euclid x) Y) Y)"
    have m: "match_nodes a Y Y = Inr (Dense ?A)"
      using None g e p by (simp add: match_nodes_def euclidean_distances_ok)
    have wf: "wf_mat ?n ?n ?A" by (simp add: exp_neg_def wf_mat_def)
    have "0 < ?n" using p by (simp add: pairwise_ok_def)
    from dense_counterpart_spec [OF wf this t] obtain correct cd
      where gc: "get_counterpart (Dense ?A) ta = Inr (correct, cd)"
        and s: "\<forall>i < ?n. \<exists>c. cd i = Some c \<and> c < ?n \<and> (\<forall>j < ?n. ?A ! i ! j \<le> ?A ! i ! c) \<and>
          (i \<in> set correct \<longleftrightarrow> target ta i = int c)"
      by blast
    have "cd i = Some i" if i: "i < ?n" for i
    proof -
      from s [rule_format, OF i] obtain c where c: "cd i = Some c" "c < ?n"
        and mx0: "\<forall>j < ?n. ?A ! i ! j \<le> ?A ! i ! c"
        by blast
      have "exp (- euclid (Y ! i) (Y ! i)) \<le> exp (- euclid (Y ! i) (Y ! c))"
        using mx0 [rule_format, OF i] i c(2) by (simp add: exp_neg_row)
      then have "c = i" using self [OF i c(2)] by simp
      with c show ?thesis by simp
    qed
    then have "\<forall>i < ?n. cd i = Some i" by blast
    moreover have nr: "n_rows (Dense ?A) = ?n" by (simp add: exp_neg_def)
    ultimately show ?thesis using that [OF m _ gc] by blast
  next
    case (Some k)
    with k have k1: "1 \<le> k" and k2: "k \<le> int ?n" by auto
    from kd_counterpart_spec [OF p k1 k2 t] obtain S correct cd
      where S: "kd_align Y Y ''euclidean'' k = Inr S" and gc: "get_counterpart (Sparse S) ta = Inr (correct, cd)"
        and s: "\<forall>i < ?n. \<exists>c. cd i = Some c \<and> c < ?n \<and> (\<forall>j < ?n. euclid (Y ! i) (Y ! c) \<le> euclid (Y ! i) (Y ! j))"
      by blast
    have m: "match_nodes a Y Y = Inr (Sparse S)" using Some g e S by (simp add: match_nodes_def)
    have nr: "n_rows (Sparse S) = ?n" using kd_align_Inr [OF S] by auto
    have "cd i = Some i" if i: "i < ?n" for i
    proof -
      from s [rule_format, OF i] obtain c where c: "cd i = Some c" "c < ?n"
        and mx: "\<forall>j < ?n. euclid (Y ! i) (Y ! c) \<le> euclid (Y ! i) (Y ! j)"
        by blast
      have "euclid (Y ! i) (Y ! c) \<le> euclid (Y ! i) (Y ! i)" by (rule mx [rule_format, OF i])
      then have "c = i" by (rule self [OF i c(2)])
      with c show ?thesis by simp
    qed
    then have "\<forall>i < ?n. cd i = Some i" by blast
    then show ?thesis by (rule that [OF m nr gc])
  qed
  have "correct = [0..<?n] \<and> cd = (\<lambda>j. if j < ?n then Some j else None)"
    using get_counterpart_all_correct [OF gc] top ti nr by simp
  then have "get_counterpart M ta = Inr ([0..<?n], \<lambda>j. if j < ?n then Some j else None)"
    using gc by simp
  with m show ?thesis by blast
qed

text \<open>
  Claim C24. Identity recovery through matcher and evaluator: when the
  optimisation maps the first embedding exactly onto the second, whose rows
  are distinct, greedy Euclidean matching (top-k with \<open>1 \<le> k \<le> n\<close>, or
  dense) returns and \<open>get_counterpart\<close> without ground truth finds every
  node correct with itself as counterpart.
\<close>

theorem identity_recovered:
  assumes sp: "align_spaces a B X Y adj1 adj2 s1 s2 = Inr Y"
    and p: "pairwise_ok Y Y" and d: "distinct Y" and g: "alignmethod a = ''greedy''"
    and e: "embsim a = ''euclidean''"
    and k: "numtop a = None \<or> (\<exists>k. numtop a = Some k \<and> 1 \<le> k \<and> k \<le> int (length Y))"
  shows "\<exists>M. align_embeddings a B X Y adj1 adj2 s1 s2 = Inr M \<and>
    get_counterpart M None = Inr ([0..<length Y], \<lambda>j. if j < length Y then Some j else None)"
proof -
  have t: "targets_ok None (length Y)" by (simp add: targets_ok_def)
  have ti: "\<forall>i < length Y. target None i = int i" by (simp add: target_def)
  from identity_match [OF p d g e k t ti] obtain M where m: "match_nodes a Y Y = Inr M"
    and gc: "get_counterpart M None = Inr ([0..<length Y], \<lambda>j. if j < length Y then Some j else None)"
    by blast
  have "align_embeddings a B X Y adj1 adj2 s1 s2 = Inr M" using sp m by (simp add: align_embeddings_def)
  with gc show ?thesis by blast
qed

theorem identity_recovered_witness:
  "\<exists>M. align_embeddings (default_args\<lparr>numtop := Some 2\<rparr>) example_backend [[2], [1]] [[2], [1]] None None None None = Inr M \<and>
     get_counterpart M None = Inr ([0..<length [[2 :: real], [1]]], \<lambda>j. if j < length [[2 :: real], [1]] then Some j else None)"
proof -
  let ?a = "default_args\<lparr>numtop := Some 2\<rparr>"
  have sp: "align_spaces ?a example_backend [[2], [1]] [[2], [1]] None None None None = Inr [[2], [1]]"
    by (simp add: align_spaces_def top_prior_def example_backend_def mat_dot_def dot_def)
  have p: "pairwise_ok [[2], [1]] [[2], [1 :: real]]" by (simp add: pairwise_ok_def)
  have d: "distinct [[2], [1 :: real]]" by simp
  have g: "alignmethod ?a = ''greedy''" and e: "embsim ?a = ''euclidean''" by (simp_all add: default_args_def)
  have k: "numtop ?a = None \<or> (\<exists>k. numtop ?a = Some k \<and> 1 \<le> k \<and> k \<le> int (length [[2], [1 :: real]]))"
    by simp
  show ?thesis by (rule identity_recovered [OF sp p d g e k])
qed

text \<open>
  Claim C25. The identity scenario end to end: when the edge list splits
  into blocks of \<open>n\<close> nodes each, the optimisation maps the embedding of
  block A onto that of block B, the embedding of B has distinct rows, and
  the ground truth maps each node \<open>i < n\<close> to \<open>i\<close>, \<open>main\<close> (greedy Euclidean
  matching, no stored alignment) returns score 1 with every node correct.
\<close>

theorem main_identity_score:
  assumes sp: "split_blocks (adjacency es) = (n, adjA, adjB)" and nm: "embmethod a = ''netMF''"
    and st: "\<not> store_align a"
    and al: "align_spaces a B (netmf B adjA (dim a) (window a) (negative a) True)
        (netmf B adjB (dim a) (window a) (negative a) True)
        (Some (Sparse (csr_of_dense adjA))) (Some (Sparse (csr_of_dense adjB))) None None =
      Inr (netmf B adjB (dim a) (window a) (negative a) True)"
    and p: "pairwise_ok (netmf B adjB (dim a) (window a) (negative a) True) (netmf B adjB (dim a) (window a) (negative a) True)"
    and d: "distinct (netmf B adjB (dim a) (window a) (negative a) True)"
    and len: "length (netmf B adjB (dim a) (window a) (negative a) True) = n"
    and g: "alignmethod a = ''greedy''" and e: "embsim a = ''euclidean''"
    and k: "numtop a = None \<or> (\<exists>k. numtop a = Some k \<and> 1 \<le> k \<and> k \<le> int n)"
    and t: "\<forall>i < n. t i = Some (int i)"
  shows "main a B t es = Inr \<lparr>run_score = 1, run_correct = [0..<n],
    run_counterparts = (\<lambda>j. if j < n then Some j else None), run_binary_sim = None\<rparr>"
proof -
  let ?eB = "netmf B adjB (dim a) (window a) (negative a) True"
  have to: "targets_ok (Some t) (length ?eB)" using t len by (simp add: targets_ok_def)
  have ti: "\<forall>i < length ?eB. target (Some t) i = int i" using t len by (simp add: target_def)
  from identity_match [OF p d g e _ to ti] k len obtain M where m: "match_nodes a ?eB ?eB = Inr M"
    and gc: "get_counterpart M (Some t) = Inr ([0..<n], \<lambda>j. if j < n then Some j else None)"
    by auto
  have n: "0 < n" using p len by (auto simp: pairwise_ok_def)
  have "align_embeddings a B (netmf B adjA (dim a) (window a) (negative a) True) ?eB
      (Some (Sparse (csr_of_dense adjA))) (Some (Sparse (csr_of_dense adjB))) None None = Inr M"
    using al m by (simp add: align_embeddings_def)
  then show ?thesis using sp nm st gc n main_graph_nonempty [OF sp n] by (simp add: main_def Let_def)
qed

theorem main_identity_score_witness:
  "main (default_args\<lparr>numtop := Some 1\<rparr>) example_backend [0 \<mapsto> 0, 1 \<mapsto> 1] [(0, 1), (2, 3)] =
     Inr \<lparr>run_score = 1, run_correct = [0..<2],
       run_counterparts = (\<lambda>j. if j < 2 then Some j else None), run_binary_sim = None\<rparr>"
proof -
  let ?a = "default_args\<lparr>numtop := Some 1\<rparr>"
  have g: "graph_nodes [(0, 1), (2, 3)] = [0, 1, 2, 3]" by (simp add: graph_nodes_def add_node_def)
  have sp: "split_blocks (adjacency [(0, 1), (2, 3)]) = (2, [[0, 1], [1, 0]], [[0, 1], [1, 0]])"
    by (simp add: adjacency_def g split_blocks_def has_edge_def Let_def)
  have nf: "netmf example_backend [[0, 1], [1, 0]] d w b nm = [[2], [1]]" for d w b nm
    by (simp add: example_backend_def numeral_2_eq_2 upt_rec)
  have al: "align_spaces ?a example_backend [[2], [1]] [[2], [1]]
      (Some (Sparse (csr_of_dense [[0, 1], [1, 0]]))) (Some (Sparse (csr_of_dense [[0, 1], [1, 0]]))) None None =
      Inr [[2], [1]]"
    by (simp add: align_spaces_def top_prior_def example_backend_def mat_dot_def dot_def)
  have p: "pairwise_ok [[2], [1]] [[2], [1 :: real]]" by (simp add: pairwise_ok_def)
  have nm: "embmethod ?a = ''netMF''" and st: "\<not> store_align ?a" and gr: "alignmethod ?a = ''greedy''"
    and e: "embsim ?a = ''euclidean''" by (simp_all add: default_args_def)
  have k: "numtop ?a = None \<or> (\<exists>k. numtop ?a = Some k \<and> 1 \<le> k \<and> k \<le> int 2)" by simp
  have t: "\<forall>i < 2. [0 \<mapsto> 0, 1 \<mapsto> 1] i = Some (int i)"
    by (simp add: numeral_2_eq_2 less_Suc_eq)
  show ?thesis
    by (rule main_identity_score [OF sp nm st]) (simp_all only: nf al p, simp_all add: gr e k t)
qed

end
